theory Spec2Isabelle
  imports Main
begin

section \<open>JavaScript strings\<close>

text \<open>
  A JavaScript string is a sequence of code units. The model uses \<open>string\<close>, so a
  code unit is one of the 256 values of \<open>char\<close> (the Latin-1 range); \<open>length\<close>,
  \<open>take\<close> and \<open>drop\<close> count code units as \<open>substring\<close> does.
\<close>

definition code_unit :: "char \<Rightarrow> nat" where
  "code_unit c = of_char c"

text \<open>\<open>s.startsWith(p)\<close>.\<close>

definition starts_with :: "string \<Rightarrow> string \<Rightarrow> bool" where
  "starts_with p s = (take (length p) s = p)"

text \<open>
  \<open>s.replace(p, r)\<close> for a string pattern \<open>p\<close>: only the first occurrence is replaced.
  The replacement is taken literally: every replacement this program passes is a
  sanitized folder token or the application's directory, and the dollar patterns of
  \<open>String.prototype.replace\<close> are not modelled.
\<close>

fun replace_first :: "string \<Rightarrow> string \<Rightarrow> string \<Rightarrow> string" where
  "replace_first p r [] = (if p = [] then r else [])"
| "replace_first p r (c # cs) =
     (if starts_with p (c # cs) then r @ drop (length p) (c # cs)
      else c # replace_first p r cs)"

text \<open>\<open>toLowerCase\<close> on one code unit: A-Z, and the upper-case letters of Latin-1.\<close>

definition toLowerCase_char :: "char \<Rightarrow> char" where
  "toLowerCase_char c =
     (let n = code_unit c in
      if 65 \<le> n \<and> n \<le> 90 then char_of (n + 32)
      else if 192 \<le> n \<and> n \<le> 222 \<and> n \<noteq> 215 then char_of (n + 32)
      else c)"

definition toLowerCase :: "string \<Rightarrow> string" where
  "toLowerCase s = map toLowerCase_char s"

section \<open>sanitizeFolderName\<close>

text \<open>The character class \<open>[a-zA-Z0-9-]\<close>.\<close>

definition in_class :: "char \<Rightarrow> bool" where
  "in_class c =
     (let n = code_unit c in
      (97 \<le> n \<and> n \<le> 122) \<or> (65 \<le> n \<and> n \<le> 90) \<or> (48 \<le> n \<and> n \<le> 57) \<or> n = 45)"

abbreviation underscore :: char where
  "underscore \<equiv> CHR ''_''"

definition is_underscore :: "char \<Rightarrow> bool" where
  "is_underscore c = (c = underscore)"

text \<open>\<open>.replace(/[^a-zA-Z0-9-]/g, '_')\<close>: every code unit outside the class is a match
  of length one.\<close>

definition replace_outside_class :: "string \<Rightarrow> string" where
  "replace_outside_class s = map (\<lambda>c. if in_class c then c else underscore) s"

text \<open>
  \<open>.replace(/_+/g, '_')\<close>: the scan goes left to right; at an underscore the greedy
  \<open>_+\<close> takes the whole run, one underscore is written and the scan resumes after the run.
\<close>

function replace_runs :: "string \<Rightarrow> string" where
  "replace_runs [] = []"
| "replace_runs (c # cs) =
     (if is_underscore c then underscore # replace_runs (dropWhile is_underscore cs)
      else c # replace_runs cs)"
  by pat_completeness auto
termination
  by (relation "measure length") (auto simp: length_dropWhile_le less_Suc_eq_le)

text \<open>
  \<open>.replace(/^_+|_+$/g, '')\<close>. The first alternative matches only at index 0, a whole
  run of underscores. The second matches at an underscore from which underscores reach
  the end of the string (the greedy run has to end at \<open>$\<close>); after it the scan is over.
\<close>

fun remove_trailing_run :: "string \<Rightarrow> string" where
  "remove_trailing_run [] = []"
| "remove_trailing_run (c # cs) =
     (if is_underscore c \<and> list_all is_underscore cs then []
      else c # remove_trailing_run cs)"

definition remove_edge_runs :: "string \<Rightarrow> string" where
  "remove_edge_runs s =
     (case s of
        [] \<Rightarrow> []
      | c # cs \<Rightarrow>
          if is_underscore c then remove_trailing_run (dropWhile is_underscore cs)
          else remove_trailing_run (c # cs))"

definition sanitizeFolderName :: "string \<Rightarrow> string" where
  "sanitizeFolderName title =
     toLowerCase (take 50 (remove_edge_runs (replace_runs (replace_outside_class title))))"

subsection \<open>The sanitizer as the specification words it\<close>

text \<open>Collapse consecutive underscores into one.\<close>

fun collapse_spec :: "string \<Rightarrow> string" where
  "collapse_spec [] = []"
| "collapse_spec [a] = [a]"
| "collapse_spec (a # b # cs) =
     (if a = underscore \<and> b = underscore then collapse_spec (b # cs)
      else a # collapse_spec (b # cs))"

text \<open>Strip leading and trailing underscores.\<close>

definition strip_spec :: "string \<Rightarrow> string" where
  "strip_spec s =
     rev (dropWhile (\<lambda>c. c = underscore) (rev (dropWhile (\<lambda>c. c = underscore) s)))"

definition sanitize_spec :: "string \<Rightarrow> string" where
  "sanitize_spec t =
     map toLowerCase_char
       (take 50 (strip_spec (collapse_spec
          (map (\<lambda>c. if in_class c then c else underscore) t))))"

section \<open>JSON.stringify and JSON.parse on the two list fields\<close>

text \<open>
  The additional photos are objects \<open>{path, filename, dateAdded}\<close> and the additional
  notes objects \<open>{content, dateAdded}\<close>, every property a string. The model of
  \<open>JSON.stringify\<close> and \<open>JSON.parse\<close> covers arrays of such flat objects; an object is
  the list of its properties in insertion order.
\<close>

type_synonym js_object = "(string \<times> string) list"

abbreviation dquote :: char where
  "dquote \<equiv> CHR 0x22"

abbreviation backslash :: char where
  "backslash \<equiv> CHR 0x5C"

definition hex_digit :: "nat \<Rightarrow> char" where
  "hex_digit n = (if n < 10 then char_of (48 + n) else char_of (87 + n))"

text \<open>\<open>QuoteJSONString\<close>, one code unit.\<close>

definition quote_char :: "char \<Rightarrow> string" where
  "quote_char c =
     (let n = code_unit c in
      if n = 8 then [backslash, CHR ''b'']
      else if n = 9 then [backslash, CHR ''t'']
      else if n = 10 then [backslash, CHR ''n'']
      else if n = 12 then [backslash, CHR ''f'']
      else if n = 13 then [backslash, CHR ''r'']
      else if n = 34 then [backslash, dquote]
      else if n = 92 then [backslash, backslash]
      else if n < 32 then
        [backslash, CHR ''u'', CHR ''0'', CHR ''0'', hex_digit (n div 16), hex_digit (n mod 16)]
      else [c])"

definition stringify_string :: "string \<Rightarrow> string" where
  "stringify_string s = dquote # concat (map quote_char s) @ [dquote]"

fun join_commas :: "string list \<Rightarrow> string" where
  "join_commas [] = []"
| "join_commas [x] = x"
| "join_commas (x # y # ys) = x @ CHR '','' # join_commas (y # ys)"

definition stringify_member :: "string \<times> string \<Rightarrow> string" where
  "stringify_member kv = stringify_string (fst kv) @ CHR '':'' # stringify_string (snd kv)"

definition stringify_object :: "js_object \<Rightarrow> string" where
  "stringify_object ob = CHR ''{'' # join_commas (map stringify_member ob) @ ''}''"

definition JSON_stringify :: "js_object list \<Rightarrow> string" where
  "JSON_stringify obs = CHR ''['' # join_commas (map stringify_object obs) @ '']''"

subsection \<open>Parsing\<close>

datatype token = LBracket | RBracket | LBrace | RBrace | Colon | Comma | TString string

definition is_json_space :: "char \<Rightarrow> bool" where
  "is_json_space c = (code_unit c = 32 \<or> code_unit c = 9 \<or> code_unit c = 10 \<or> code_unit c = 13)"

definition hex_value :: "char \<Rightarrow> nat option" where
  "hex_value c =
     (let n = code_unit c in
      if 48 \<le> n \<and> n \<le> 57 then Some (n - 48)
      else if 97 \<le> n \<and> n \<le> 102 then Some (n - 87)
      else if 65 \<le> n \<and> n \<le> 70 then Some (n - 55)
      else None)"

text \<open>\<open>\uXXXX\<close>; a code unit above 255 is outside the model's strings.\<close>

definition unicode_escape :: "char \<Rightarrow> char \<Rightarrow> char \<Rightarrow> char \<Rightarrow> char option" where
  "unicode_escape a b c d =
     (case (hex_value a, hex_value b, hex_value c, hex_value d) of
        (Some x, Some y, Some z, Some w) \<Rightarrow>
          if x = 0 \<and> y = 0 then Some (char_of (16 * z + w)) else None
      | _ \<Rightarrow> None)"

definition simple_escape :: "char \<Rightarrow> char option" where
  "simple_escape e =
     (if e = dquote then Some dquote
      else if e = backslash then Some backslash
      else if e = CHR ''/'' then Some (CHR ''/'')
      else if e = CHR ''b'' then Some (char_of (8::nat))
      else if e = CHR ''f'' then Some (char_of (12::nat))
      else if e = CHR ''n'' then Some (char_of (10::nat))
      else if e = CHR ''r'' then Some (char_of (13::nat))
      else if e = CHR ''t'' then Some (char_of (9::nat))
      else None)"

definition cons_fst :: "'a \<Rightarrow> ('a list \<times> 'b) option \<Rightarrow> ('a list \<times> 'b) option" where
  "cons_fst x r = (case r of None \<Rightarrow> None | Some (xs, rest) \<Rightarrow> Some (x # xs, rest))"

text \<open>The characters of a string literal after its opening quote, and what follows
  the closing quote.\<close>

fun string_chars :: "string \<Rightarrow> (string \<times> string) option" where
  "string_chars [] = None"
| "string_chars (c # cs) =
     (if c = dquote then Some ([], cs)
      else if c = backslash then
        (case cs of
           [] \<Rightarrow> None
         | e # es \<Rightarrow>
             if e = CHR ''u'' then
               (case es of
                  a # b # c' # d # rest \<Rightarrow>
                    (case unicode_escape a b c' d of
                       None \<Rightarrow> None
                     | Some u \<Rightarrow> cons_fst u (string_chars rest))
                | _ \<Rightarrow> None)
             else
               (case simple_escape e of
                  None \<Rightarrow> None
                | Some u \<Rightarrow> cons_fst u (string_chars es)))
      else if code_unit c < 32 then None
      else cons_fst c (string_chars cs))"

lemma string_chars_length:
  "string_chars cs = Some (s, rest) \<Longrightarrow> length rest < length cs"
proof (induction cs arbitrary: s rest rule: string_chars.induct)
  case 1
  then show ?case by simp
next
  case (2 c cs)
  show ?case
  proof (cases "c = dquote")
    case True
    then show ?thesis using 2(4) by auto
  next
    case nq: False
    show ?thesis
    proof (cases "c = backslash")
      case True
      then obtain e es where cs: "cs = e # es"
        using 2(4) nq by (cases cs) auto
      show ?thesis
      proof (cases "e = CHR ''u''")
        case u: True
        then obtain a b c' d r u' xs where es: "es = a # b # c' # d # r"
          and ue: "unicode_escape a b c' d = Some u'"
          and rec: "string_chars r = Some (xs, rest)"
          using 2(4) nq True cs
          by (auto simp: cons_fst_def split: list.splits option.splits)
        have "length rest < length r"
          using 2(1) nq True cs u es ue rec by blast
        then show ?thesis using cs es by simp
      next
        case nu: False
        then obtain u' xs where se: "simple_escape e = Some u'"
          and rec: "string_chars es = Some (xs, rest)"
          using 2(4) nq True cs
          by (auto simp: cons_fst_def split: option.splits)
        have "length rest < length es"
          using 2(2) nq True cs nu se rec by blast
        then show ?thesis using cs by simp
      qed
    next
      case nb: False
      then have ctl: "\<not> code_unit c < 32"
        using 2(4) nq by (auto split: if_splits)
      then obtain xs where rec: "string_chars cs = Some (xs, rest)"
        using 2(4) nq nb by (auto simp: cons_fst_def split: option.splits)
      have "length rest < length cs"
        using 2(3) nq nb ctl rec by blast
      then show ?thesis by simp
    qed
  qed
qed

definition cons_opt :: "'a \<Rightarrow> 'a list option \<Rightarrow> 'a list option" where
  "cons_opt x r = (case r of None \<Rightarrow> None | Some xs \<Rightarrow> Some (x # xs))"

text \<open>The tokens of a JSON text. Numbers, \<open>true\<close>, \<open>false\<close> and \<open>null\<close> do not occur in
  the arrays of the model: on them, as on a malformed text, the result is \<open>None\<close>.\<close>

function tokens :: "string \<Rightarrow> token list option" where
  "tokens [] = Some []"
| "tokens (c # cs) =
     (if is_json_space c then tokens cs
      else if c = CHR ''['' then cons_opt LBracket (tokens cs)
      else if c = CHR '']'' then cons_opt RBracket (tokens cs)
      else if c = CHR ''{'' then cons_opt LBrace (tokens cs)
      else if c = CHR ''}'' then cons_opt RBrace (tokens cs)
      else if c = CHR '':'' then cons_opt Colon (tokens cs)
      else if c = CHR '','' then cons_opt Comma (tokens cs)
      else if c = dquote then
        (case string_chars cs of
           None \<Rightarrow> None
         | Some (s, rest) \<Rightarrow> cons_opt (TString s) (tokens rest))
      else None)"
  by pat_completeness auto
termination
  by (relation "measure length") (auto dest: string_chars_length)

text \<open>The members of an object after its first one, up to the closing brace.\<close>

fun more_members :: "token list \<Rightarrow> (js_object \<times> token list) option" where
  "more_members (RBrace # ts) = Some ([], ts)"
| "more_members (Comma # TString k # Colon # TString v # ts) = cons_fst (k, v) (more_members ts)"
| "more_members ts = None"

fun object :: "token list \<Rightarrow> (js_object \<times> token list) option" where
  "object (LBrace # RBrace # ts) = Some ([], ts)"
| "object (LBrace # TString k # Colon # TString v # ts) = cons_fst (k, v) (more_members ts)"
| "object ts = None"

lemma more_members_length:
  "more_members ts = Some (ob, rest) \<Longrightarrow> length rest < length ts"
proof (induction ts arbitrary: ob rest rule: more_members.induct)
  case (2 k v ts)
  then obtain xs where "more_members ts = Some (xs, rest)"
    by (auto simp: cons_fst_def split: option.splits)
  then have "length rest < length ts" using 2(1) by simp
  then show ?case by simp
qed auto

lemma object_length:
  "object ts = Some (ob, rest) \<Longrightarrow> length rest < length ts"
proof (induction ts rule: object.induct)
  case (2 k v ts)
  then obtain xs where "more_members ts = Some (xs, rest)"
    by (auto simp: cons_fst_def split: option.splits)
  then have "length rest < length ts" by (rule more_members_length)
  then show ?case by simp
qed auto

text \<open>The elements of an array after its first one; nothing may follow the closing
  bracket.\<close>

function more_elements :: "token list \<Rightarrow> js_object list option" where
  "more_elements [] = None"
| "more_elements (t # ts) =
     (if t = RBracket then (if ts = [] then Some [] else None)
      else if t = Comma then
        (case object ts of
           None \<Rightarrow> None
         | Some (ob, rest) \<Rightarrow> cons_opt ob (more_elements rest))
      else None)"
  by pat_completeness auto
termination
  by (relation "measure length") (auto dest: object_length)

definition array :: "token list \<Rightarrow> js_object list option" where
  "array ts =
     (case ts of
        [] \<Rightarrow> None
      | t # ts' \<Rightarrow>
          if t = LBracket then
            (if ts' = [RBracket] then Some []
             else (case object ts' of
                     None \<Rightarrow> None
                   | Some (ob, rest) \<Rightarrow> cons_opt ob (more_elements rest)))
          else None)"

definition JSON_parse :: "string \<Rightarrow> js_object list option" where
  "JSON_parse s = (case tokens s of None \<Rightarrow> None | Some ts \<Rightarrow> array ts)"

subsection \<open>The token sequence of a stringified array\<close>

definition member_tokens :: "string \<times> string \<Rightarrow> token list" where
  "member_tokens kv = [TString (fst kv), Colon, TString (snd kv)]"

fun join_tokens :: "token list list \<Rightarrow> token list" where
  "join_tokens [] = []"
| "join_tokens [x] = x"
| "join_tokens (x # y # ys) = x @ Comma # join_tokens (y # ys)"

definition object_tokens :: "js_object \<Rightarrow> token list" where
  "object_tokens ob = LBrace # join_tokens (map member_tokens ob) @ [RBrace]"

definition prepend :: "token list \<Rightarrow> token list option \<Rightarrow> token list option" where
  "prepend ts r = (case r of None \<Rightarrow> None | Some us \<Rightarrow> Some (ts @ us))"

section \<open>Values of the record fields\<close>

text \<open>
  A property of a JavaScript object is absent (\<open>undefined\<close>), \<open>null\<close>, or a value. The
  model is typed: a field holds a value of the type its column has. Numbers are
  integers (\<open>parseInt\<close> and the INTEGER columns produce no others); the loss of precision
  of a JavaScript number beyond \<open>2^53\<close> is not modelled.
\<close>

datatype 'a js = Undefined | Null | Val 'a

text \<open>What \<open>x ? a : b\<close> and \<open>x || d\<close> test: the empty string, zero, \<open>false\<close>, \<open>null\<close> and
  \<open>undefined\<close> are falsy; an array is truthy, also the empty one.\<close>

definition truthy_string :: "string js \<Rightarrow> bool" where
  "truthy_string x = (case x of Val s \<Rightarrow> s \<noteq> [] | _ \<Rightarrow> False)"

definition truthy_number :: "int js \<Rightarrow> bool" where
  "truthy_number x = (case x of Val n \<Rightarrow> n \<noteq> 0 | _ \<Rightarrow> False)"

definition truthy_boolean :: "bool js \<Rightarrow> bool" where
  "truthy_boolean x = (case x of Val b \<Rightarrow> b | _ \<Rightarrow> False)"

definition truthy_array :: "'a list js \<Rightarrow> bool" where
  "truthy_array x = (case x of Val xs \<Rightarrow> True | _ \<Rightarrow> False)"

text \<open>\<open>x || ''\<close>, \<open>x || 0\<close> and \<open>x || null\<close> on a field.\<close>

definition string_or_empty :: "string js \<Rightarrow> string" where
  "string_or_empty x = (case x of Val s \<Rightarrow> s | _ \<Rightarrow> [])"

definition number_or_zero :: "int js \<Rightarrow> int" where
  "number_or_zero x = (case x of Val n \<Rightarrow> n | _ \<Rightarrow> 0)"

definition string_or_null :: "string js \<Rightarrow> string option" where
  "string_or_null x = (case x of Val s \<Rightarrow> (if s = [] then None else Some s) | _ \<Rightarrow> None)"

text \<open>A column value read back: SQL NULL is \<open>null\<close>.\<close>

definition of_column :: "'a option \<Rightarrow> 'a js" where
  "of_column c = (case c of None \<Rightarrow> Null | Some v \<Rightarrow> Val v)"

text \<open>\<open>a !== undefined ? a : b\<close>.\<close>

definition provided_or :: "'a js \<Rightarrow> 'a js \<Rightarrow> 'a js" where
  "provided_or a b = (case a of Undefined \<Rightarrow> b | _ \<Rightarrow> a)"

datatype exn =
  Error string | TypeError | SyntaxError | SqliteError
  | EACCES | EPERM | ENOENT | ENOTDIR | EISDIR | EINVAL | ENOTEMPTY

subsection \<open>Numbers from request parameters\<close>

datatype jsnum = NaN | Num int

definition is_white_space :: "char \<Rightarrow> bool" where
  "is_white_space c = (code_unit c = 32 \<or> (9 \<le> code_unit c \<and> code_unit c \<le> 13) \<or> code_unit c = 160)"

definition digit_value :: "nat \<Rightarrow> char \<Rightarrow> nat option" where
  "digit_value radix c =
     (case hex_value c of
        None \<Rightarrow> None
      | Some v \<Rightarrow> if v < radix then Some v else None)"

definition is_digit :: "nat \<Rightarrow> char \<Rightarrow> bool" where
  "is_digit radix c = (case digit_value radix c of None \<Rightarrow> False | Some v \<Rightarrow> True)"

definition digits_value :: "nat \<Rightarrow> string \<Rightarrow> nat" where
  "digits_value radix z =
     foldl (\<lambda>a c. a * radix + (case digit_value radix c of None \<Rightarrow> 0 | Some v \<Rightarrow> v)) 0 z"

text \<open>
  \<open>parseInt(s)\<close> with no radix: leading white space is skipped, a sign is read, \<open>0x\<close> or
  \<open>0X\<close> selects radix 16, and the longest prefix of digits is the value; with no digit
  the result is \<open>NaN\<close>. Negative zero is \<open>Num 0\<close>: the program only compares the result
  and passes it to \<open>splice\<close>, which do not tell the two zeros apart.
\<close>

definition parseInt :: "string \<Rightarrow> jsnum" where
  "parseInt s =
     (let s1 = dropWhile is_white_space s;
          negative = starts_with ''-'' s1;
          s2 = (if starts_with ''-'' s1 \<or> starts_with ''+'' s1 then drop 1 s1 else s1);
          hex = (starts_with ''0x'' s2 \<or> starts_with ''0X'' s2);
          radix = (if hex then 16 else 10);
          s3 = (if hex then drop 2 s2 else s2);
          z = takeWhile (is_digit radix) s3
      in if z = [] then NaN
         else Num ((if negative then - 1 else 1) * int (digits_value radix z)))"

text \<open>\<open>parseInt\<close> of a body field; an absent field is the string \<open>undefined\<close>, with no digit.\<close>

definition parseInt_field :: "string option \<Rightarrow> jsnum" where
  "parseInt_field f = (case f of None \<Rightarrow> NaN | Some s \<Rightarrow> parseInt s)"

text \<open>\<open>n || 0\<close>.\<close>

definition jsnum_or_zero :: "jsnum \<Rightarrow> int" where
  "jsnum_or_zero n = (case n of NaN \<Rightarrow> 0 | Num i \<Rightarrow> i)"

text \<open>\<open>i < 0\<close> and \<open>i >= n\<close>: every comparison with \<open>NaN\<close> is false.\<close>

definition jsnum_negative :: "jsnum \<Rightarrow> bool" where
  "jsnum_negative i = (case i of NaN \<Rightarrow> False | Num k \<Rightarrow> k < 0)"

definition jsnum_ge :: "jsnum \<Rightarrow> nat \<Rightarrow> bool" where
  "jsnum_ge i n = (case i of NaN \<Rightarrow> False | Num k \<Rightarrow> int n \<le> k)"

text \<open>\<open>xs[i]\<close>: \<open>undefined\<close> unless \<open>i\<close> is the index of an element.\<close>

definition element :: "'a list \<Rightarrow> jsnum \<Rightarrow> 'a option" where
  "element xs i =
     (case i of
        NaN \<Rightarrow> None
      | Num k \<Rightarrow> if 0 \<le> k \<and> k < int (length xs) then Some (xs ! nat k) else None)"

text \<open>\<open>xs.splice(i, 1)\<close>, the array left behind: the start is \<open>ToIntegerOrInfinity(i)\<close>,
  so \<open>NaN\<close> starts at 0, and a negative start counts from the end.\<close>

definition splice_one :: "'a list \<Rightarrow> jsnum \<Rightarrow> 'a list" where
  "splice_one xs i =
     (let len = int (length xs);
          rel = (case i of NaN \<Rightarrow> 0 | Num k \<Rightarrow> k);
          start = nat (if rel < 0 then max (len + rel) 0 else min rel len)
      in take start xs @ drop (start + 1) xs)"

section \<open>The record store (database.js)\<close>

record photo =
  path :: string
  filename :: string
  dateAdded :: string

record note_entry =
  content :: string
  dateAdded :: string

text \<open>The object handed to \<open>createGame\<close> and \<open>updateGame\<close>.\<close>

record gameData =
  title :: "string js"
  link :: "string js"
  rageRating :: "int js"
  finished :: "bool js"
  is_checked :: "bool js"
  platform :: "string js"
  strikes :: "int js"
  "notes" :: "string js"
  coverArtPath :: "string js"
  gameplayImagePath :: "string js"
  additionalPhotos :: "photo list js"
  additionalNotes :: "note_entry list js"

text \<open>A row of the table \<open>games\<close>, its \<open>id\<close> apart; \<open>None\<close> is SQL NULL.\<close>

record row =
  title :: string
  link :: "string option"
  rageRating :: "int option"
  finished :: "int option"
  is_checked :: "int option"
  platform :: "string option"
  strikes :: "int option"
  "notes" :: "string option"
  coverArtPath :: "string option"
  gameplayImagePath :: "string option"
  dateAdded :: "string option"
  additionalPhotos :: "string option"
  additionalNotes :: "string option"

text \<open>The object \<open>getGameById\<close> and \<open>getAllGames\<close> build from a row.\<close>

record game =
  game_id :: nat
  title :: string
  link :: "string option"
  rageRating :: int
  finished :: bool
  is_checked :: bool
  platform :: "string option"
  strikes :: int
  "notes" :: "string option"
  coverArtPath :: "string option"
  gameplayImagePath :: "string option"
  dateAdded :: "string option"
  additionalPhotos :: "photo list"
  additionalNotes :: "note_entry list"

text \<open>The table in rowid order, and the AUTOINCREMENT counter of \<open>sqlite_sequence\<close>.\<close>

record database =
  games :: "(nat \<times> row) list"
  sqlite_sequence :: nat

subsection \<open>Encoding and decoding the list columns\<close>

definition object_of_photo :: "photo \<Rightarrow> js_object" where
  "object_of_photo p =
     [(''path'', path p), (''filename'', filename p), (''dateAdded'', photo.dateAdded p)]"

definition object_of_note :: "note_entry \<Rightarrow> js_object" where
  "object_of_note n = [(''content'', content n), (''dateAdded'', note_entry.dateAdded n)]"

text \<open>An object with other properties than the three (the two) is outside the typed
  model and decodes to \<open>None\<close>.\<close>

definition photo_of_object :: "js_object \<Rightarrow> photo option" where
  "photo_of_object ob =
     (case (map_of ob ''path'', map_of ob ''filename'', map_of ob ''dateAdded'') of
        (Some a, Some b, Some c) \<Rightarrow>
          if length ob = 3 then Some \<lparr>path = a, filename = b, photo.dateAdded = c\<rparr> else None
      | _ \<Rightarrow> None)"

definition note_of_object :: "js_object \<Rightarrow> note_entry option" where
  "note_of_object ob =
     (case (map_of ob ''content'', map_of ob ''dateAdded'') of
        (Some a, Some b) \<Rightarrow>
          if length ob = 2 then Some \<lparr>content = a, note_entry.dateAdded = b\<rparr> else None
      | _ \<Rightarrow> None)"

definition stringify_photos :: "photo list \<Rightarrow> string" where
  "stringify_photos ps = JSON_stringify (map object_of_photo ps)"

definition stringify_notes :: "note_entry list \<Rightarrow> string" where
  "stringify_notes ns = JSON_stringify (map object_of_note ns)"

definition parse_photos :: "string \<Rightarrow> photo list option" where
  "parse_photos s =
     (case JSON_parse s of None \<Rightarrow> None | Some obs \<Rightarrow> those (map photo_of_object obs))"

definition parse_notes :: "string \<Rightarrow> note_entry list option" where
  "parse_notes s =
     (case JSON_parse s of None \<Rightarrow> None | Some obs \<Rightarrow> those (map note_of_object obs))"

text \<open>\<open>x ? JSON.stringify(x) : '[]'\<close>.\<close>

definition encode_photos :: "photo list js \<Rightarrow> string" where
  "encode_photos x = (case x of Val ps \<Rightarrow> stringify_photos ps | _ \<Rightarrow> ''[]'')"

definition encode_notes :: "note_entry list js \<Rightarrow> string" where
  "encode_notes x = (case x of Val ns \<Rightarrow> stringify_notes ns | _ \<Rightarrow> ''[]'')"

text \<open>\<open>row.x ? JSON.parse(row.x) : []\<close>; NULL and the empty text are falsy. \<open>None\<close> is the
  exception of \<open>JSON.parse\<close>.\<close>

definition decode_photos :: "string option \<Rightarrow> photo list option" where
  "decode_photos c =
     (case c of None \<Rightarrow> Some [] | Some s \<Rightarrow> if s = [] then Some [] else parse_photos s)"

definition decode_notes :: "string option \<Rightarrow> note_entry list option" where
  "decode_notes c =
     (case c of None \<Rightarrow> Some [] | Some s \<Rightarrow> if s = [] then Some [] else parse_notes s)"

subsection \<open>getGameById and getAllGames\<close>

text \<open>\<open>Boolean(x)\<close> and \<open>x || 0\<close> on an INTEGER column.\<close>

definition Boolean_column :: "int option \<Rightarrow> bool" where
  "Boolean_column c = (case c of None \<Rightarrow> False | Some n \<Rightarrow> n \<noteq> 0)"

definition column_or_zero :: "int option \<Rightarrow> int" where
  "column_or_zero c = (case c of None \<Rightarrow> 0 | Some n \<Rightarrow> n)"

definition game_of_row :: "nat \<Rightarrow> row \<Rightarrow> exn + game" where
  "game_of_row i r =
     (case decode_photos (row.additionalPhotos r) of
        None \<Rightarrow> Inl SyntaxError
      | Some ps \<Rightarrow>
          (case decode_notes (row.additionalNotes r) of
             None \<Rightarrow> Inl SyntaxError
           | Some ns \<Rightarrow>
               Inr \<lparr>game_id = i, title = row.title r, link = row.link r,
                    rageRating = column_or_zero (row.rageRating r),
                    finished = Boolean_column (row.finished r),
                    is_checked = Boolean_column (row.is_checked r),
                    platform = row.platform r,
                    strikes = column_or_zero (row.strikes r),
                    notes = row.notes r,
                    coverArtPath = row.coverArtPath r,
                    gameplayImagePath = row.gameplayImagePath r,
                    dateAdded = row.dateAdded r,
                    additionalPhotos = ps, additionalNotes = ns\<rparr>))"

text \<open>The promise of \<open>getGameById\<close>: rejected (\<open>Inl\<close>), or resolved with \<open>null\<close> or a game.\<close>

definition getGameById :: "database \<Rightarrow> nat \<Rightarrow> exn + game option" where
  "getGameById d i =
     (case map_of (games d) i of
        None \<Rightarrow> Inr None
      | Some r \<Rightarrow> (case game_of_row i r of Inl e \<Rightarrow> Inl e | Inr g \<Rightarrow> Inr (Some g)))"

fun games_of_rows :: "(nat \<times> row) list \<Rightarrow> exn + game list" where
  "games_of_rows [] = Inr []"
| "games_of_rows ((i, r) # rest) =
     (case game_of_row i r of
        Inl e \<Rightarrow> Inl e
      | Inr g \<Rightarrow> (case games_of_rows rest of Inl e \<Rightarrow> Inl e | Inr gs \<Rightarrow> Inr (g # gs)))"

definition getAllGames :: "database \<Rightarrow> exn + game list" where
  "getAllGames d = games_of_rows (games d)"

subsection \<open>createGame and updateGame\<close>

text \<open>\<open>x ? 1 : 0\<close>.\<close>

definition bit_of :: "bool js \<Rightarrow> int" where
  "bit_of x = (if truthy_boolean x then 1 else 0)"

text \<open>The values \<open>stmt.run\<close> binds, the title apart, into a row that keeps \<open>dateAdded\<close>.\<close>

definition bound_row :: "string \<Rightarrow> gameData \<Rightarrow> string option \<Rightarrow> row" where
  "bound_row t g date =
     \<lparr>row.title = t,
      row.link = Some (string_or_empty (gameData.link g)),
      row.rageRating = Some (number_or_zero (gameData.rageRating g)),
      row.finished = Some (bit_of (gameData.finished g)),
      row.is_checked = Some (bit_of (gameData.is_checked g)),
      row.platform = Some (string_or_empty (gameData.platform g)),
      row.strikes = Some (number_or_zero (gameData.strikes g)),
      row.notes = Some (string_or_empty (gameData.notes g)),
      row.coverArtPath = string_or_null (gameData.coverArtPath g),
      row.gameplayImagePath = string_or_null (gameData.gameplayImagePath g),
      row.dateAdded = date,
      row.additionalPhotos = Some (encode_photos (gameData.additionalPhotos g)),
      row.additionalNotes = Some (encode_notes (gameData.additionalNotes g))\<rparr>"

text \<open>Binding the title: \<open>undefined\<close> cannot be bound, and \<open>null\<close> violates NOT NULL.\<close>

definition bind_title :: "string js \<Rightarrow> exn + string" where
  "bind_title x = (case x of Undefined \<Rightarrow> Inl TypeError | Null \<Rightarrow> Inl SqliteError | Val t \<Rightarrow> Inr t)"

definition next_rowid :: "database \<Rightarrow> nat" where
  "next_rowid d = Suc (fold max (map fst (games d)) (sqlite_sequence d))"

text \<open>\<open>createGame\<close> resolves with \<open>lastInsertRowid\<close>; \<open>today\<close> is \<open>DATE('now')\<close>.\<close>

definition createGame :: "string \<Rightarrow> database \<Rightarrow> gameData \<Rightarrow> exn + database \<times> nat" where
  "createGame today d g =
     (case bind_title (gameData.title g) of
        Inl e \<Rightarrow> Inl e
      | Inr t \<Rightarrow>
          let i = next_rowid d
          in Inr (\<lparr>games = games d @ [(i, bound_row t g (Some today))], sqlite_sequence = i\<rparr>, i))"

text \<open>The merge of \<open>updateGame\<close>: a field of the payload wins when it is not \<open>undefined\<close>.\<close>

definition mergedData :: "gameData \<Rightarrow> game \<Rightarrow> gameData" where
  "mergedData g existingGame =
     \<lparr>gameData.title = provided_or (gameData.title g) (Val (game.title existingGame)),
      gameData.link = provided_or (gameData.link g) (of_column (game.link existingGame)),
      gameData.rageRating = provided_or (gameData.rageRating g) (Val (game.rageRating existingGame)),
      gameData.finished = provided_or (gameData.finished g) (Val (game.finished existingGame)),
      gameData.is_checked = provided_or (gameData.is_checked g) (Val (game.is_checked existingGame)),
      gameData.platform = provided_or (gameData.platform g) (of_column (game.platform existingGame)),
      gameData.strikes = provided_or (gameData.strikes g) (Val (game.strikes existingGame)),
      gameData.notes = provided_or (gameData.notes g) (of_column (game.notes existingGame)),
      gameData.coverArtPath =
        provided_or (gameData.coverArtPath g) (of_column (game.coverArtPath existingGame)),
      gameData.gameplayImagePath =
        provided_or (gameData.gameplayImagePath g)
          (of_column (game.gameplayImagePath existingGame)),
      gameData.additionalPhotos =
        provided_or (gameData.additionalPhotos g) (Val (game.additionalPhotos existingGame)),
      gameData.additionalNotes =
        provided_or (gameData.additionalNotes g) (Val (game.additionalNotes existingGame))\<rparr>"

text \<open>\<open>UPDATE games SET ... WHERE id = ?\<close>: the row keeps its \<open>dateAdded\<close>.\<close>

definition update_rows :: "nat \<Rightarrow> string \<Rightarrow> gameData \<Rightarrow> (nat \<times> row) list \<Rightarrow> (nat \<times> row) list" where
  "update_rows i t g rows =
     map (\<lambda>(j, r). if j = i then (j, bound_row t g (row.dateAdded r)) else (j, r)) rows"

text \<open>\<open>updateGame\<close> resolves with the number of rows changed.\<close>

definition updateGame :: "database \<Rightarrow> nat \<Rightarrow> gameData \<Rightarrow> exn + database \<times> nat" where
  "updateGame d i g =
     (case getGameById d i of
        Inl e \<Rightarrow> Inl e
      | Inr None \<Rightarrow> Inl (Error ''Game not found'')
      | Inr (Some existingGame) \<Rightarrow>
          let m = mergedData g existingGame
          in (case bind_title (gameData.title m) of
                Inl e \<Rightarrow> Inl e
              | Inr t \<Rightarrow>
                  Inr (d\<lparr>games := update_rows i t m (games d)\<rparr>,
                       length (filter (\<lambda>jr. fst jr = i) (games d)))))"

text \<open>A payload with no field.\<close>

definition no_fields :: gameData where
  "no_fields =
     \<lparr>gameData.title = Undefined, gameData.link = Undefined, gameData.rageRating = Undefined, gameData.finished = Undefined,
      gameData.is_checked = Undefined, gameData.platform = Undefined, gameData.strikes = Undefined, gameData.notes = Undefined,
      gameData.coverArtPath = Undefined, gameData.gameplayImagePath = Undefined,
      gameData.additionalPhotos = Undefined, gameData.additionalNotes = Undefined\<rparr>"

section \<open>The file system\<close>

text \<open>
  The files and the directories are lists of absolute paths with \<open>/\<close> as separator, as
  \<open>path.join\<close> builds them on a POSIX system; a path is compared as it is written.
  \<open>locked\<close> holds the paths the process may not rename, remove or create (permission
  denied): it is how a file move fails. \<open>readdirSync\<close> returns the names of a directory
  in ascending order of their code units, each name once.
\<close>

record filesystem =
  files :: "string list"
  dirs :: "string list"
  locked :: "string list"

definition existsSync :: "filesystem \<Rightarrow> string \<Rightarrow> bool" where
  "existsSync fs p = (p \<in> set (files fs) \<or> p \<in> set (dirs fs))"

text \<open>\<open>q\<close> lies below the directory \<open>p\<close>.\<close>

definition below :: "string \<Rightarrow> string \<Rightarrow> bool" where
  "below p q = (starts_with (p @ ''/'') q \<and> length p + 1 < length q)"

text \<open>The name of \<open>q\<close> when it is an entry of the directory \<open>p\<close> itself.\<close>

definition entry_name :: "string \<Rightarrow> string \<Rightarrow> string option" where
  "entry_name p q =
     (if below p q \<and> CHR ''/'' \<notin> set (drop (length p + 1) q)
      then Some (drop (length p + 1) q) else None)"

text \<open>The order of the names: that of \<open>strcmp\<close>.\<close>

fun name_less :: "string \<Rightarrow> string \<Rightarrow> bool" where
  "name_less [] [] = False"
| "name_less [] (y # ys) = True"
| "name_less (x # xs) [] = False"
| "name_less (x # xs) (y # ys) =
     (code_unit x < code_unit y \<or> (x = y \<and> name_less xs ys))"

fun insert_name :: "string \<Rightarrow> string list \<Rightarrow> string list" where
  "insert_name x [] = [x]"
| "insert_name x (y # ys) =
     (if x = y then y # ys
      else if name_less x y then x # y # ys
      else y # insert_name x ys)"

definition sort_names :: "string list \<Rightarrow> string list" where
  "sort_names xs = foldr insert_name xs []"

definition entries :: "filesystem \<Rightarrow> string \<Rightarrow> string list" where
  "entries fs p = sort_names (List.map_filter (entry_name p) (files fs @ dirs fs))"

definition readdirSync :: "filesystem \<Rightarrow> string \<Rightarrow> exn + string list" where
  "readdirSync fs p =
     (if p \<in> set (dirs fs) then Inr (entries fs p)
      else if p \<in> set (files fs) then Inl ENOTDIR
      else Inl ENOENT)"

text \<open>The directories above a path: its prefixes that end before a separator.\<close>

definition parent_paths :: "string \<Rightarrow> string list" where
  "parent_paths p = map (\<lambda>i. take i p) (filter (\<lambda>i. p ! i = CHR ''/'') [1..<length p])"

text \<open>\<open>fs.mkdirSync(p, {recursive: true})\<close>.\<close>

definition mkdirSync :: "filesystem \<Rightarrow> string \<Rightarrow> exn + filesystem" where
  "mkdirSync fs p =
     (if p \<in> set (locked fs) then Inl EACCES
      else if list_ex (\<lambda>q. q \<in> set (files fs)) (parent_paths p @ [p]) then Inl ENOTDIR
      else Inr (fs\<lparr>dirs := dirs fs
                  @ filter (\<lambda>q. q \<notin> set (dirs fs)) (parent_paths p @ [p])\<rparr>))"

text \<open>The directory a path is an entry of: the path up to its last separator.\<close>

definition dirname :: "string \<Rightarrow> string" where
  "dirname p =
     (let d = rev (drop 1 (dropWhile (\<lambda>c. c \<noteq> CHR ''/'') (rev p)))
      in if d = [] then ''/'' else d)"

text \<open>Where a path is after the directory \<open>old\<close> has become \<open>new\<close>.\<close>

definition moved_path :: "string \<Rightarrow> string \<Rightarrow> string \<Rightarrow> string" where
  "moved_path old new q =
     (if q = old then new else if below old q then new @ drop (length old) q else q)"

text \<open>
  \<open>fs.renameSync(old, new)\<close>. The destination is an entry of an existing directory. A
  file replaces a file of the same name at the destination. A directory moves with
  everything below it, unless the destination is inside it or is not an empty directory.
\<close>

definition renameSync :: "filesystem \<Rightarrow> string \<Rightarrow> string \<Rightarrow> exn + filesystem" where
  "renameSync fs old new =
     (if old \<in> set (locked fs) \<or> new \<in> set (locked fs) then Inl EPERM
      else if \<not> existsSync fs old then Inl ENOENT
      else if dirname new \<in> set (files fs) then Inl ENOTDIR
      else if dirname new \<notin> set (dirs fs) then Inl ENOENT
      else if old \<in> set (files fs) then
        (if new \<in> set (dirs fs) then Inl EISDIR
         else Inr (fs\<lparr>files := filter (\<lambda>q. q \<noteq> old \<and> q \<noteq> new) (files fs) @ [new]\<rparr>))
      else if old \<in> set (dirs fs) then
        (if new = old then Inr fs
         else if below old new then Inl EINVAL
         else if new \<in> set (files fs) then Inl ENOTDIR
         else if new \<in> set (dirs fs) \<and> entries fs new \<noteq> [] then Inl ENOTEMPTY
         else Inr (fs\<lparr>files := map (moved_path old new) (files fs),
                       dirs := map (moved_path old new)
                                 (filter (\<lambda>q. q \<noteq> new) (dirs fs))\<rparr>))
      else Inl ENOENT)"

definition rmdirSync :: "filesystem \<Rightarrow> string \<Rightarrow> exn + filesystem" where
  "rmdirSync fs p =
     (if p \<notin> set (dirs fs) then Inl ENOENT
      else if entries fs p \<noteq> [] then Inl ENOTEMPTY
      else Inr (fs\<lparr>dirs := filter (\<lambda>q. q \<noteq> p) (dirs fs)\<rparr>))"

text \<open>Writing a new file, as the write stream of the upload middleware does: into an
  existing directory, replacing a file of the same path.\<close>

definition write_file :: "filesystem \<Rightarrow> string \<Rightarrow> exn + filesystem" where
  "write_file fs p =
     (if p \<in> set (locked fs) then Inl EACCES
      else if p \<in> set (dirs fs) then Inl EISDIR
      else if dirname p \<in> set (files fs) then Inl ENOTDIR
      else if dirname p \<notin> set (dirs fs) then Inl ENOENT
      else Inr (fs\<lparr>files := filter (\<lambda>q. q \<noteq> p) (files fs) @ [p]\<rparr>))"

definition unlinkSync :: "filesystem \<Rightarrow> string \<Rightarrow> exn + filesystem" where
  "unlinkSync fs p =
     (if p \<in> set (locked fs) then Inl EPERM
      else if p \<in> set (files fs) then Inr (fs\<lparr>files := filter (\<lambda>q. q \<noteq> p) (files fs)\<rparr>)
      else if p \<in> set (dirs fs) then Inl EISDIR
      else Inl ENOENT)"

section \<open>The asset folders\<close>

text \<open>
  \<open>root\<close> is what \<open>getAppDataPath()\<close> returns: the directory of the application, an
  absolute path with no trailing separator. \<open>path.join(root, 'uploads', folder)\<close> drops an
  empty segment, so the empty token names the uploads directory itself.
\<close>

definition uploads_path :: "string \<Rightarrow> string \<Rightarrow> string" where
  "uploads_path root folder =
     (if folder = [] then root @ ''/uploads'' else root @ ''/uploads/'' @ folder)"

text \<open>The result object of \<open>renameGameFolder\<close>: \<open>{success: true, oldPath, newPath}\<close>
  after the move, \<open>{success: false}\<close> with the message that no change was needed, or
  \<open>{success: false}\<close> with the message of a caught exception.\<close>

datatype rename_result = Moved string string | No_change | Caught exn

text \<open>The loop over the directory's entries. It stops at the first exception; the
  moves made before it stay made.\<close>

fun move_files :: "filesystem \<Rightarrow> string \<Rightarrow> string \<Rightarrow> string list \<Rightarrow> exn option \<times> filesystem" where
  "move_files fs oldPath newPath [] = (None, fs)"
| "move_files fs oldPath newPath (file # rest) =
     (case renameSync fs (oldPath @ ''/'' @ file) (newPath @ ''/'' @ file) of
        Inl e \<Rightarrow> (Some e, fs)
      | Inr fs' \<Rightarrow> move_files fs' oldPath newPath rest)"

definition renameGameFolder ::
  "string \<Rightarrow> filesystem \<Rightarrow> string \<Rightarrow> string \<Rightarrow> rename_result \<times> filesystem" where
  "renameGameFolder root fs oldTitle newTitle =
     (let oldFolderName = sanitizeFolderName oldTitle;
          newFolderName = sanitizeFolderName newTitle;
          oldPath = uploads_path root oldFolderName;
          newPath = uploads_path root newFolderName
      in if existsSync fs oldPath \<and> oldFolderName \<noteq> newFolderName then
           (case (if existsSync fs newPath then Inr fs else mkdirSync fs newPath) of
              Inl e \<Rightarrow> (Caught e, fs)
            | Inr fs1 \<Rightarrow>
                (case readdirSync fs1 oldPath of
                   Inl e \<Rightarrow> (Caught e, fs1)
                 | Inr names \<Rightarrow>
                     (case move_files fs1 oldPath newPath names of
                        (Some e, fs2) \<Rightarrow> (Caught e, fs2)
                      | (None, fs2) \<Rightarrow>
                          (Moved oldPath newPath,
                           case rmdirSync fs2 oldPath of Inl e \<Rightarrow> fs2 | Inr fs3 \<Rightarrow> fs3))))
         else (No_change, fs))"

section \<open>The routes\<close>

record world =
  db :: database
  fs :: filesystem

datatype response =
  OK string | Not_found string | Bad_request string | Server_error exn

text \<open>\<open>http://localhost:${PORT}\<close> with \<open>PORT = 3000\<close>.\<close>

definition base_url :: string where
  "base_url = ''http://localhost:3000''"

text \<open>The local path of a stored URL: \<open>url.replace(base_url, getAppDataPath())\<close>.\<close>

definition local_path :: "string \<Rightarrow> string \<Rightarrow> string" where
  "local_path root url = replace_first base_url root url"

text \<open>\<open>if (fs.existsSync(p)) fs.unlinkSync(p)\<close>.\<close>

definition unlink_if_exists :: "filesystem \<Rightarrow> string \<Rightarrow> exn + filesystem" where
  "unlink_if_exists f p = (if existsSync f p then unlinkSync f p else Inr f)"

subsection \<open>POST /games/update/:id\<close>

text \<open>
  A file part of the multipart body: the name the file has at the client, the value
  \<open>uuidv4()\<close> returns for it, and whether the title field comes before the part in the
  body. The middleware calls the callbacks of the storage when it reaches the part, and
  \<open>req.body\<close> then holds the fields read so far.
\<close>

record file_part =
  originalname :: string
  uuid :: string
  title_before :: bool

text \<open>
  The request: the id of the path (the integer SQLite compares the parameter as), the
  fields of a multipart body (each a string, or absent), and the file parts of the fields
  \<open>coverArt\<close> and \<open>gameplayImage\<close> (at most one each).
\<close>

record update_request =
  params_id :: nat
  body_title :: "string option"
  body_link :: "string option"
  body_rageRating :: "string option"
  body_finished :: "string option"
  body_is_checked :: "string option"
  body_platform :: "string option"
  body_strikes :: "string option"
  body_notes :: "string option"
  part_coverArt :: "file_part option"
  part_gameplayImage :: "file_part option"

text \<open>\<open>req.files\<close> as the middleware hands it to the handler: the names under which it
  stored the cover and the gameplay file.\<close>

record uploaded_files =
  files_coverArt :: "string option"
  files_gameplayImage :: "string option"

subsubsection \<open>The upload middleware: \<open>upload.fields\<close> over \<open>storage\<close>\<close>

text \<open>\<open>path.extname\<close>: from the last dot of the last segment (trailing separators
  apart), unless the segment has no dot, starts with its only dot or is \<open>..\<close>.\<close>

definition basename :: "string \<Rightarrow> string" where
  "basename p =
     rev (takeWhile (\<lambda>c. c \<noteq> CHR ''/'') (dropWhile (\<lambda>c. c = CHR ''/'') (rev p)))"

definition extname :: "string \<Rightarrow> string" where
  "extname p =
     (let b = basename p;
          n = length (takeWhile (\<lambda>c. c \<noteq> CHR ''.'') (rev b))
      in if CHR ''.'' \<notin> set b \<or> b = ''..'' \<or> n + 1 = length b then []
         else drop (length b - (n + 1)) b)"

text \<open>The callback \<open>filename\<close> of \<open>storage\<close>.\<close>

definition stored_filename :: "string \<Rightarrow> file_part \<Rightarrow> string" where
  "stored_filename fieldname part =
     (let prefix = (if fieldname = ''coverArt'' then ''cover_'' else ''gameplay_'');
          extension = extname (originalname part)
      in prefix @ uuid part @ extension)"

text \<open>\<open>req.body.title || 'temp'\<close> when the part is reached, sanitized.\<close>

definition destination_folder :: "update_request \<Rightarrow> file_part \<Rightarrow> string" where
  "destination_folder req part =
     sanitizeFolderName
       (case (if title_before part then body_title req else None) of
          None \<Rightarrow> ''temp''
        | Some t \<Rightarrow> if t = [] then ''temp'' else t)"

text \<open>The callback \<open>destination\<close> of \<open>storage\<close>: the directory is created when it does not
  exist.\<close>

definition destination ::
  "string \<Rightarrow> filesystem \<Rightarrow> update_request \<Rightarrow> file_part \<Rightarrow> exn + (string \<times> filesystem)" where
  "destination root f req part =
     (let folderName = destination_folder req part;
          uploadDir = uploads_path root folderName
      in if existsSync f uploadDir then Inr (uploadDir, f)
         else (case mkdirSync f uploadDir of
                 Inl e \<Rightarrow> Inl e
               | Inr f' \<Rightarrow> Inr (uploadDir, f')))"

text \<open>The disk storage on one part: the file is written into the directory of
  \<open>destination\<close> under the name of \<open>filename\<close>.\<close>

definition handle_file ::
  "string \<Rightarrow> filesystem \<Rightarrow> update_request \<Rightarrow> string \<Rightarrow> file_part \<Rightarrow> (exn + string) \<times> filesystem" where
  "handle_file root f req fieldname part =
     (case destination root f req part of
        Inl e \<Rightarrow> (Inl e, f)
      | Inr (uploadDir, f1) \<Rightarrow>
          (let name = stored_filename fieldname part
           in case write_file f1 (uploadDir @ ''/'' @ name) of
                Inl e \<Rightarrow> (Inl e, f1)
              | Inr f2 \<Rightarrow> (Inr name, f2)))"

text \<open>
  \<open>upload.fields([{name: 'coverArt', maxCount: 1}, {name: 'gameplayImage', maxCount: 1}])\<close>,
  the cover part read before the gameplay part. An error ends the request before the
  handler; the middleware then removes the file it has stored for the request.
\<close>

definition upload_fields ::
  "string \<Rightarrow> filesystem \<Rightarrow> update_request \<Rightarrow> (exn + uploaded_files) \<times> filesystem" where
  "upload_fields root f req =
     (case (case part_coverArt req of
              None \<Rightarrow> (Inr None, f)
            | Some part \<Rightarrow>
                (case handle_file root f req ''coverArt'' part of
                   (Inl e, f1) \<Rightarrow> (Inl e, f1)
                 | (Inr name, f1) \<Rightarrow> (Inr (Some (part, name)), f1)))
      of
        (Inl e, f1) \<Rightarrow> (Inl e, f1)
      | (Inr cover, f1) \<Rightarrow>
          (case part_gameplayImage req of
             None \<Rightarrow>
               (Inr \<lparr>files_coverArt = map_option snd cover, files_gameplayImage = None\<rparr>, f1)
           | Some part \<Rightarrow>
               (case handle_file root f1 req ''gameplayImage'' part of
                  (Inl e, f2) \<Rightarrow>
                    (Inl e,
                     case cover of
                       None \<Rightarrow> f2
                     | Some (cpart, cname) \<Rightarrow>
                         (case unlinkSync f2
                                 (uploads_path root (destination_folder req cpart)
                                  @ ''/'' @ cname) of
                            Inl e' \<Rightarrow> f2
                          | Inr f3 \<Rightarrow> f3))
                | (Inr name, f2) \<Rightarrow>
                    (Inr \<lparr>files_coverArt = map_option snd cover,
                          files_gameplayImage = Some name\<rparr>, f2))))"

subsubsection \<open>The handler\<close>

text \<open>\<open>req.body.x || ''\<close> on a body field.\<close>

definition field_or_empty :: "string option \<Rightarrow> string" where
  "field_or_empty f = (case f of None \<Rightarrow> [] | Some s \<Rightarrow> s)"

text \<open>The object \<open>gameData\<close> as the handler first builds it.\<close>

definition initial_gameData :: "update_request \<Rightarrow> game \<Rightarrow> gameData" where
  "initial_gameData req existingGame =
     \<lparr>gameData.title = (case body_title req of None \<Rightarrow> Undefined | Some t \<Rightarrow> Val t),
      gameData.link = Val (field_or_empty (body_link req)),
      gameData.rageRating = Val (jsnum_or_zero (parseInt_field (body_rageRating req))),
      gameData.finished = Val (body_finished req = Some ''true''),
      gameData.is_checked = Val (body_is_checked req = Some ''true''),
      gameData.platform = Val (field_or_empty (body_platform req)),
      gameData.strikes = Val (jsnum_or_zero (parseInt_field (body_strikes req))),
      gameData.notes = Val (field_or_empty (body_notes req)),
      gameData.coverArtPath = of_column (game.coverArtPath existingGame),
      gameData.gameplayImagePath = of_column (game.gameplayImagePath existingGame),
      gameData.additionalPhotos = Undefined,
      gameData.additionalNotes = Undefined\<rparr>"

text \<open>\<open>req.body.title && existingGame.title !== req.body.title\<close>.\<close>

definition title_changed :: "update_request \<Rightarrow> game \<Rightarrow> bool" where
  "title_changed req existingGame =
     (case body_title req of
        None \<Rightarrow> False
      | Some t \<Rightarrow> t \<noteq> [] \<and> game.title existingGame \<noteq> t)"

text \<open>The rewrite of one path field, when it is truthy.\<close>

definition rewrite_path :: "string \<Rightarrow> string \<Rightarrow> string js \<Rightarrow> string js" where
  "rewrite_path oldTitle newTitle p =
     (case p of
        Val u \<Rightarrow>
          if u = [] then p
          else Val (replace_first (''/uploads/'' @ sanitizeFolderName oldTitle @ ''/'')
                      (''/uploads/'' @ sanitizeFolderName newTitle @ ''/'') u)
      | _ \<Rightarrow> p)"

text \<open>\<^emph>\<open>Handle folder renaming if title changed\<close>: the folder is renamed, a failure is
  only logged, and the two path fields are rewritten.\<close>

definition rename_step ::
  "string \<Rightarrow> filesystem \<Rightarrow> update_request \<Rightarrow> game \<Rightarrow> gameData \<Rightarrow> gameData \<times> filesystem" where
  "rename_step root f req existingGame g =
     (if title_changed req existingGame then
        let newTitle = field_or_empty (body_title req);
            (renameResult, f') = renameGameFolder root f (game.title existingGame) newTitle
        in (g\<lparr>gameData.coverArtPath :=
                 rewrite_path (game.title existingGame) newTitle (gameData.coverArtPath g),
               gameData.gameplayImagePath :=
                 rewrite_path (game.title existingGame) newTitle (gameData.gameplayImagePath g)\<rparr>,
            f')
      else (g, f))"

text \<open>The URL of an uploaded file.\<close>

definition upload_url :: "string \<Rightarrow> string \<Rightarrow> string" where
  "upload_url folderName name = base_url @ ''/uploads/'' @ folderName @ ''/'' @ name"

text \<open>\<^emph>\<open>Delete old file\<close>: the file at the existing path, when the path is truthy and the
  file exists.\<close>

definition delete_old_file :: "string \<Rightarrow> filesystem \<Rightarrow> string option \<Rightarrow> exn + filesystem" where
  "delete_old_file root f existingPath =
     (case existingPath of
        None \<Rightarrow> Inr f
      | Some u \<Rightarrow> if u = [] then Inr f else unlink_if_exists f (local_path root u))"

text \<open>\<^emph>\<open>Handle file uploads\<close>, both fields. An exception of \<open>unlinkSync\<close> leaves the file
  system as the steps before it made it.\<close>

definition upload_step ::
  "string \<Rightarrow> filesystem \<Rightarrow> uploaded_files \<Rightarrow> game \<Rightarrow> string \<Rightarrow> gameData
   \<Rightarrow> (exn + gameData) \<times> filesystem" where
  "upload_step root f req_files existingGame folderName g =
     (case (case files_coverArt req_files of
              None \<Rightarrow> (Inr g, f)
            | Some name \<Rightarrow>
                (case delete_old_file root f (game.coverArtPath existingGame) of
                   Inl e \<Rightarrow> (Inl e, f)
                 | Inr f' \<Rightarrow>
                     (Inr (g\<lparr>gameData.coverArtPath := Val (upload_url folderName name)\<rparr>), f')))
      of
        (Inl e, f1) \<Rightarrow> (Inl e, f1)
      | (Inr g1, f1) \<Rightarrow>
          (case files_gameplayImage req_files of
             None \<Rightarrow> (Inr g1, f1)
           | Some name \<Rightarrow>
               (case delete_old_file root f1 (game.gameplayImagePath existingGame) of
                  Inl e \<Rightarrow> (Inl e, f1)
                | Inr f' \<Rightarrow>
                    (Inr (g1\<lparr>gameData.gameplayImagePath := Val (upload_url folderName name)\<rparr>),
                     f'))))"

text \<open>
  The handler of the route. \<open>sanitizeFolderName(gameData.title)\<close> throws a TypeError when the body has
  no title; every exception ends in status 500, after the effects made before it.
\<close>

definition update_handler ::
  "string \<Rightarrow> world \<Rightarrow> update_request \<Rightarrow> uploaded_files \<Rightarrow> response \<times> world" where
  "update_handler root w req req_files =
     (case getGameById (db w) (params_id req) of
        Inl e \<Rightarrow> (Server_error e, w)
      | Inr None \<Rightarrow> (Not_found ''Game not found'', w)
      | Inr (Some existingGame) \<Rightarrow>
          (case rename_step root (fs w) req existingGame (initial_gameData req existingGame) of
             (g, f) \<Rightarrow>
               (case gameData.title g of
                  Val t \<Rightarrow>
                    (case upload_step root f req_files existingGame (sanitizeFolderName t) g of
                       (Inl e, f') \<Rightarrow> (Server_error e, w\<lparr>fs := f'\<rparr>)
                     | (Inr g', f') \<Rightarrow>
                         (case updateGame (db w) (params_id req) g' of
                            Inl e \<Rightarrow> (Server_error e, w\<lparr>fs := f'\<rparr>)
                          | Inr (d, changes) \<Rightarrow>
                              (OK ''Game updated successfully'', \<lparr>db = d, fs = f'\<rparr>)))
                | _ \<Rightarrow> (Server_error TypeError, w\<lparr>fs := f\<rparr>))))"

text \<open>The route: the upload middleware, then the handler on the file system the
  middleware leaves.\<close>

definition update_route :: "string \<Rightarrow> world \<Rightarrow> update_request \<Rightarrow> response \<times> world" where
  "update_route root w req =
     (case upload_fields root (fs w) req of
        (Inl e, f) \<Rightarrow> (Server_error e, w\<lparr>fs := f\<rparr>)
      | (Inr req_files, f) \<Rightarrow> update_handler root (w\<lparr>fs := f\<rparr>) req req_files)"

subsection \<open>DELETE /games/:id/delete-photo/:photoIndex and delete-note/:noteIndex\<close>

text \<open>Reading \<open>photoToDelete.path\<close> throws a TypeError when the element is \<open>undefined\<close>.\<close>

definition delete_photo_route :: "string \<Rightarrow> world \<Rightarrow> nat \<Rightarrow> string \<Rightarrow> response \<times> world" where
  "delete_photo_route root w gameId index_param =
     (let photoIndex = parseInt index_param
      in case getGameById (db w) gameId of
           Inl e \<Rightarrow> (Server_error e, w)
         | Inr None \<Rightarrow> (Not_found ''Game not found'', w)
         | Inr (Some g) \<Rightarrow>
             if jsnum_negative photoIndex \<or> jsnum_ge photoIndex (length (game.additionalPhotos g))
             then (Bad_request ''Invalid photo index'', w)
             else
               (case element (game.additionalPhotos g) photoIndex of
                  None \<Rightarrow> (Server_error TypeError, w)
                | Some photoToDelete \<Rightarrow>
                    (case unlink_if_exists (fs w) (local_path root (path photoToDelete)) of
                       Inl e \<Rightarrow> (Server_error e, w)
                     | Inr f \<Rightarrow>
                         (case updateGame (db w) gameId
                                 (no_fields\<lparr>gameData.additionalPhotos :=
                                    Val (splice_one (game.additionalPhotos g) photoIndex)\<rparr>) of
                            Inl e \<Rightarrow> (Server_error e, w\<lparr>fs := f\<rparr>)
                          | Inr (d, changes) \<Rightarrow>
                              (OK ''Photo deleted successfully'', \<lparr>db = d, fs = f\<rparr>)))))"

definition delete_note_route :: "world \<Rightarrow> nat \<Rightarrow> string \<Rightarrow> response \<times> world" where
  "delete_note_route w gameId index_param =
     (let noteIndex = parseInt index_param
      in case getGameById (db w) gameId of
           Inl e \<Rightarrow> (Server_error e, w)
         | Inr None \<Rightarrow> (Not_found ''Game not found'', w)
         | Inr (Some g) \<Rightarrow>
             if jsnum_negative noteIndex \<or> jsnum_ge noteIndex (length (game.additionalNotes g))
             then (Bad_request ''Invalid note index'', w)
             else
               (case updateGame (db w) gameId
                       (no_fields\<lparr>gameData.additionalNotes :=
                          Val (splice_one (game.additionalNotes g) noteIndex)\<rparr>) of
                  Inl e \<Rightarrow> (Server_error e, w)
                | Inr (d, changes) \<Rightarrow> (OK ''Note deleted successfully'', w\<lparr>db := d\<rparr>)))"

subsection \<open>What a successful update stores\<close>

text \<open>The path a successful update stores, from the existing path, the two titles and
  the upload.\<close>

definition stored_path :: "bool \<Rightarrow> string \<Rightarrow> string \<Rightarrow> string option \<Rightarrow> string option \<Rightarrow> string option" where
  "stored_path changed oldTitle newTitle existing upload =
     (case upload of
        Some name \<Rightarrow> Some (upload_url (sanitizeFolderName newTitle) name)
      | None \<Rightarrow>
          string_or_null
            (if changed then rewrite_path oldTitle newTitle (of_column existing)
             else of_column existing))"

subsection \<open>The invariant of the path fields\<close>

text \<open>A path field is null, or an URL \<open>{base}/uploads/{token}/...\<close> with the given token.\<close>

definition references_folder :: "string \<Rightarrow> string option \<Rightarrow> bool" where
  "references_folder token p =
     (case p of None \<Rightarrow> True | Some u \<Rightarrow> starts_with (upload_url token []) u)"

section \<open>Example data\<close>

definition example_root :: string where
  "example_root = ''/app''"

definition old_cover :: string where
  "old_cover = ''http://localhost:3000/uploads/old_game/cover_1.png''"

definition first_note :: note_entry where
  "first_note = \<lparr>content = ''first'', note_entry.dateAdded = ''2024-02-01''\<rparr>"

definition second_note :: note_entry where
  "second_note = \<lparr>content = ''second'', note_entry.dateAdded = ''2024-02-02''\<rparr>"

definition example_photo :: photo where
  "example_photo =
     \<lparr>path = ''http://localhost:3000/uploads/old_game/additional_7.png'',
      filename = ''additional_7.png'', photo.dateAdded = ''2024-02-03''\<rparr>"

definition example_row :: row where
  "example_row =
     \<lparr>row.title = ''Old Game'', row.link = Some [], row.rageRating = Some 5,
      row.finished = Some 0, row.is_checked = Some 0, row.platform = Some ''PC'',
      row.strikes = Some 0, row.notes = Some [],
      row.coverArtPath = Some old_cover, row.gameplayImagePath = None,
      row.dateAdded = Some ''2024-01-01'',
      row.additionalPhotos = Some (stringify_photos [example_photo]),
      row.additionalNotes = Some (stringify_notes [first_note, second_note])\<rparr>"

definition example_db :: database where
  "example_db = \<lparr>games = [(1, example_row)], sqlite_sequence = 1\<rparr>"

definition example_game :: game where
  "example_game =
     \<lparr>game_id = 1, title = ''Old Game'', link = Some [], rageRating = 5,
      finished = False, is_checked = False, platform = Some ''PC'', strikes = 0,
      notes = Some [], coverArtPath = Some old_cover, gameplayImagePath = None,
      dateAdded = Some ''2024-01-01'', additionalPhotos = [example_photo],
      additionalNotes = [first_note, second_note]\<rparr>"

definition empty_cover_payload :: gameData where
  "empty_cover_payload = no_fields\<lparr>gameData.coverArtPath := Val []\<rparr>"

definition example_fs :: filesystem where
  "example_fs =
     \<lparr>files = [''/app/uploads/old_game/cover_1.png'', ''/app/uploads/old_game/additional_7.png''],
      dirs = [''/app'', ''/app/uploads'', ''/app/uploads/old_game''],
      locked = []\<rparr>"

definition example_world :: world where
  "example_world = \<lparr>db = example_db, fs = example_fs\<rparr>"


definition no_request :: update_request where
  "no_request =
     \<lparr>params_id = 1, body_title = None, body_link = None, body_rageRating = None,
      body_finished = None, body_is_checked = None, body_platform = None,
      body_strikes = None, body_notes = None, part_coverArt = None,
      part_gameplayImage = None\<rparr>"

definition no_files :: uploaded_files where
  "no_files = \<lparr>files_coverArt = None, files_gameplayImage = None\<rparr>"

definition rename_request :: update_request where
  "rename_request =
     no_request\<lparr>body_title := Some ''New Game'', body_rageRating := Some ''5'',
       body_platform := Some ''PC''\<rparr>"

definition new_cover :: string where
  "new_cover = ''http://localhost:3000/uploads/new_game/cover_1.png''"

text \<open>A cover file sent after the title field, and one sent before it.\<close>

definition cover_part :: file_part where
  "cover_part = \<lparr>originalname = ''box.png'', uuid = ''9'', title_before = True\<rparr>"

definition early_cover_part :: file_part where
  "early_cover_part = cover_part\<lparr>title_before := False\<rparr>"

definition upload_request :: update_request where
  "upload_request = rename_request\<lparr>part_coverArt := Some cover_part\<rparr>"

definition early_upload_request :: update_request where
  "early_upload_request = rename_request\<lparr>part_coverArt := Some early_cover_part\<rparr>"

definition moved_world :: world where
  "moved_world =
     \<lparr>db = example_db\<lparr>games :=
             [(1, example_row\<lparr>row.title := ''New Game'', row.coverArtPath := Some new_cover\<rparr>)]\<rparr>,
      fs = \<lparr>files = [''/app/uploads/new_game/additional_7.png'',
                     ''/app/uploads/new_game/cover_1.png''],
             dirs = [''/app'', ''/app/uploads'', ''/app/uploads/new_game''],
             locked = []\<rparr>\<rparr>"


text \<open>The world after the update of \<open>upload_request\<close> in \<open>example_world\<close>: the new cover
  is in the new folder, beside the files moved there.\<close>

definition new_upload :: string where
  "new_upload = ''http://localhost:3000/uploads/new_game/cover_9.png''"

definition uploaded_world :: world where
  "uploaded_world =
     \<lparr>db = example_db\<lparr>games :=
             [(1, example_row\<lparr>row.title := ''New Game'', row.coverArtPath := Some new_upload\<rparr>)]\<rparr>,
      fs = \<lparr>files = [''/app/uploads/new_game/cover_9.png'',
                     ''/app/uploads/new_game/additional_7.png'',
                     ''/app/uploads/new_game/cover_1.png''],
             dirs = [''/app'', ''/app/uploads'', ''/app/uploads/new_game''],
             locked = []\<rparr>\<rparr>"

text \<open>The world after the update of \<open>early_upload_request\<close> in \<open>example_world\<close>: the new
  cover is in the folder \<open>temp\<close>.\<close>

definition early_uploaded_world :: world where
  "early_uploaded_world =
     \<lparr>db = example_db\<lparr>games :=
             [(1, example_row\<lparr>row.title := ''New Game'', row.coverArtPath := Some new_upload\<rparr>)]\<rparr>,
      fs = \<lparr>files = [''/app/uploads/temp/cover_9.png'',
                     ''/app/uploads/new_game/additional_7.png'',
                     ''/app/uploads/new_game/cover_1.png''],
             dirs = [''/app'', ''/app/uploads'', ''/app/uploads/temp'',
                     ''/app/uploads/new_game''],
             locked = []\<rparr>\<rparr>"

text \<open>The same upload for an id with no record, and the world after it.\<close>

definition unknown_upload_request :: update_request where
  "unknown_upload_request = upload_request\<lparr>params_id := 2\<rparr>"

definition orphan_world :: world where
  "orphan_world =
     \<lparr>db = example_db,
      fs = \<lparr>files = [''/app/uploads/old_game/cover_1.png'',
                     ''/app/uploads/old_game/additional_7.png'',
                     ''/app/uploads/new_game/cover_9.png''],
             dirs = [''/app'', ''/app/uploads'', ''/app/uploads/old_game'',
                     ''/app/uploads/new_game''],
             locked = []\<rparr>\<rparr>"

text \<open>A world where the folder of the game does not exist, and the world after the update
  of \<open>rename_request\<close> in it.\<close>

definition bare_world :: world where
  "bare_world =
     \<lparr>db = example_db, fs = \<lparr>files = [], dirs = [''/app'', ''/app/uploads''], locked = []\<rparr>\<rparr>"

definition bare_result :: world where
  "bare_result = moved_world\<lparr>fs := fs bare_world\<rparr>"

text \<open>An update with an empty title, the world after it in \<open>example_world\<close>, and the world
  after the update of \<open>rename_request\<close> in that one.\<close>

definition empty_title_request :: update_request where
  "empty_title_request =
     no_request\<lparr>body_title := Some [], body_rageRating := Some ''5'', body_platform := Some ''PC''\<rparr>"

definition untitled_world :: world where
  "untitled_world =
     \<lparr>db = example_db\<lparr>games := [(1, example_row\<lparr>row.title := []\<rparr>)]\<rparr>, fs = example_fs\<rparr>"

definition retitled_world :: world where
  "retitled_world =
     \<lparr>db = example_db\<lparr>games := [(1, example_row\<lparr>row.title := ''New Game''\<rparr>)]\<rparr>,
      fs = example_fs\<lparr>dirs := dirs example_fs @ [''/app/uploads/new_game'']\<rparr>\<rparr>"

section \<open>Properties of the sanitizer\<close>

lemma replace_runs_collapse: "replace_runs s = collapse_spec s"
proof (induction s rule: collapse_spec.induct)
  case 1
  show ?case by simp
next
  case (2 a)
  show ?case by (simp add: is_underscore_def)
next
  case (3 a b cs)
  show ?case
  proof (cases "a = underscore \<and> b = underscore")
    case True
    have "replace_runs (a # b # cs) = underscore # replace_runs (dropWhile is_underscore cs)"
      using True by (simp add: is_underscore_def)
    also have "\<dots> = replace_runs (b # cs)"
      using True by (simp add: is_underscore_def)
    finally show ?thesis using 3 True by simp
  next
    case False
    then show ?thesis using 3 by (auto simp: is_underscore_def)
  qed
qed

lemma remove_trailing_run_rev:
  "remove_trailing_run s = rev (dropWhile is_underscore (rev s))"
proof (induction s)
  case Nil
  show ?case by simp
next
  case (Cons c cs)
  show ?case
  proof (cases "list_all is_underscore cs")
    case True
    then have all: "\<And>x. x \<in> set (rev cs) \<Longrightarrow> is_underscore x"
      by (simp add: list_all_iff)
    have "dropWhile is_underscore (rev cs @ [c]) = dropWhile is_underscore [c]"
      by (rule dropWhile_append2) (rule all)
    moreover have "dropWhile is_underscore (rev cs) = []"
      using all by simp
    ultimately show ?thesis
      using True Cons by simp
  next
    case False
    then obtain x where "x \<in> set (rev cs)" "\<not> is_underscore x"
      by (auto simp: list_all_iff)
    then have "dropWhile is_underscore (rev cs @ [c]) = dropWhile is_underscore (rev cs) @ [c]"
      by simp
    then show ?thesis
      using False Cons by simp
  qed
qed

lemma remove_edge_runs_strip: "remove_edge_runs s = strip_spec s"
proof -
  have fn: "(\<lambda>c. c = underscore) = is_underscore"
    by (simp add: is_underscore_def fun_eq_iff)
  show ?thesis
    by (cases s) (simp_all add: remove_edge_runs_def strip_spec_def fn remove_trailing_run_rev)
qed

section \<open>JSON texts round-trip\<close>

lemma hex_value_digit: "n < 16 \<Longrightarrow> hex_value (hex_digit n) = Some n"
  by (auto simp: hex_value_def hex_digit_def code_unit_def Let_def)

lemma char_of_code_unit: "char_of (code_unit c) = c"
  by (simp add: code_unit_def)

lemma code_unit_less: "code_unit c < 256"
  by (simp add: code_unit_def)

lemma unicode_escape_control:
  assumes "code_unit c < 32"
  shows "unicode_escape (CHR ''0'') (CHR ''0'') (hex_digit (code_unit c div 16))
           (hex_digit (code_unit c mod 16)) = Some c"
proof -
  have z: "hex_value (CHR ''0'') = Some 0"
    by (simp add: hex_value_def code_unit_def)
  have d: "code_unit c div 16 < 16" using assms by simp
  have m: "code_unit c mod 16 < 16" by simp
  have "char_of (16 * (code_unit c div 16) + code_unit c mod 16) = c"
    by (simp add: char_of_code_unit)
  then show ?thesis
    by (simp add: unicode_escape_def z hex_value_digit [OF d] hex_value_digit [OF m])
qed

lemma string_chars_quote_char:
  "string_chars (quote_char c @ rest) = cons_fst c (string_chars rest)"
proof -
  consider (b) "code_unit c = 8" | (t) "code_unit c = 9" | (n) "code_unit c = 10"
    | (f) "code_unit c = 12" | (r) "code_unit c = 13" | (q) "code_unit c = 34"
    | (s) "code_unit c = 92"
    | (ctl) "code_unit c < 32" "code_unit c \<notin> {8, 9, 10, 12, 13}"
    | (plain) "32 \<le> code_unit c" "code_unit c \<noteq> 34" "code_unit c \<noteq> 92"
    by fastforce
  then show ?thesis
  proof cases
    case b
    then have "c = char_of (8::nat)" by (metis char_of_code_unit)
    then show ?thesis by (simp add: quote_char_def code_unit_def simple_escape_def)
  next
    case t
    then have "c = char_of (9::nat)" by (metis char_of_code_unit)
    then show ?thesis by (simp add: quote_char_def code_unit_def simple_escape_def)
  next
    case n
    then have "c = char_of (10::nat)" by (metis char_of_code_unit)
    then show ?thesis by (simp add: quote_char_def code_unit_def simple_escape_def)
  next
    case f
    then have "c = char_of (12::nat)" by (metis char_of_code_unit)
    then show ?thesis by (simp add: quote_char_def code_unit_def simple_escape_def)
  next
    case r
    then have "c = char_of (13::nat)" by (metis char_of_code_unit)
    then show ?thesis by (simp add: quote_char_def code_unit_def simple_escape_def)
  next
    case q
    then have "(of_char c :: nat) = of_char dquote" by (simp add: code_unit_def)
    then have "c = dquote" by (simp only: of_char_eq_iff)
    then show ?thesis by (simp add: quote_char_def code_unit_def simple_escape_def)
  next
    case s
    then have "(of_char c :: nat) = of_char backslash" by (simp add: code_unit_def)
    then have "c = backslash" by (simp only: of_char_eq_iff)
    then show ?thesis by (simp add: quote_char_def code_unit_def simple_escape_def)
  next
    case ctl
    then have q: "quote_char c = [backslash, CHR ''u'', CHR ''0'', CHR ''0'',
        hex_digit (code_unit c div 16), hex_digit (code_unit c mod 16)]"
      by (auto simp: quote_char_def Let_def)
    show ?thesis
      by (simp add: q unicode_escape_control [OF ctl(1)])
  next
    case plain
    then have q: "quote_char c = [c]"
      by (auto simp: quote_char_def Let_def)
    have "c \<noteq> dquote" "c \<noteq> backslash"
      using plain by (auto simp: code_unit_def)
    then show ?thesis using plain by (simp add: q)
  qed
qed

lemma string_chars_quoted:
  "string_chars (concat (map quote_char s) @ dquote # rest) = Some (s, rest)"
  by (induction s) (simp_all add: string_chars_quote_char cons_fst_def)

lemma tokens_string:
  "tokens (stringify_string s @ rest) = cons_opt (TString s) (tokens rest)"
  by (simp add: stringify_string_def is_json_space_def code_unit_def string_chars_quoted)


lemma tokens_punct:
  "tokens (CHR ''['' # rest) = cons_opt LBracket (tokens rest)"
  "tokens (CHR '']'' # rest) = cons_opt RBracket (tokens rest)"
  "tokens (CHR ''{'' # rest) = cons_opt LBrace (tokens rest)"
  "tokens (CHR ''}'' # rest) = cons_opt RBrace (tokens rest)"
  "tokens (CHR '':'' # rest) = cons_opt Colon (tokens rest)"
  "tokens (CHR '','' # rest) = cons_opt Comma (tokens rest)"
  by (simp_all add: is_json_space_def code_unit_def)

lemma prepend_simps:
  "prepend [] r = r"
  "cons_opt t (prepend ts r) = prepend (t # ts) r"
  "prepend ts (prepend us r) = prepend (ts @ us) r"
  "cons_opt t r = prepend [t] r"
  by (simp_all add: prepend_def cons_opt_def split: option.splits)

lemma tokens_member:
  "tokens (stringify_member kv @ rest) = prepend (member_tokens kv) (tokens rest)"
  by (simp add: stringify_member_def member_tokens_def tokens_string tokens_punct prepend_simps del: tokens.simps)

lemma tokens_members:
  "tokens (join_commas (map stringify_member ob) @ rest)
   = prepend (join_tokens (map member_tokens ob)) (tokens rest)"
  by (induction ob rule: induct_list012)
     (simp_all add: tokens_member tokens_punct prepend_simps del: tokens.simps)

lemma tokens_object:
  "tokens (stringify_object ob @ rest) = prepend (object_tokens ob) (tokens rest)"
  by (simp add: stringify_object_def object_tokens_def tokens_members tokens_punct prepend_simps del: tokens.simps)

lemma tokens_objects:
  "tokens (join_commas (map stringify_object obs) @ rest)
   = prepend (join_tokens (map object_tokens obs)) (tokens rest)"
  by (induction obs rule: induct_list012)
     (simp_all add: tokens_object tokens_punct prepend_simps del: tokens.simps)

lemma tokens_JSON_stringify:
  "tokens (JSON_stringify obs)
   = Some (LBracket # join_tokens (map object_tokens obs) @ [RBracket])"
  by (simp add: JSON_stringify_def tokens_objects tokens_punct prepend_simps del: tokens.simps)
     (simp add: prepend_def)

lemma join_tokens_Cons:
  "join_tokens (x # xs) = x @ concat (map ((#) Comma) xs)"
  by (induction xs arbitrary: x) simp_all

lemma more_members_tokens:
  "more_members (concat (map ((#) Comma \<circ> member_tokens) kvs) @ RBrace # rest)
   = Some (kvs, rest)"
  by (induction kvs) (simp_all add: member_tokens_def cons_fst_def)

lemma object_tokens_parse:
  "object (object_tokens ob @ rest) = Some (ob, rest)"
proof (cases ob)
  case Nil
  then show ?thesis by (simp add: object_tokens_def)
next
  case (Cons kv kvs)
  have "object (object_tokens ob @ rest)
        = object (LBrace # member_tokens kv
            @ (concat (map ((#) Comma \<circ> member_tokens) kvs) @ RBrace # rest))"
    by (simp add: object_tokens_def Cons join_tokens_Cons)
  also have "\<dots> = cons_fst kv (more_members
      (concat (map ((#) Comma \<circ> member_tokens) kvs) @ RBrace # rest))"
    by (simp add: member_tokens_def)
  also have "\<dots> = Some (ob, rest)"
    by (simp add: more_members_tokens cons_fst_def Cons)
  finally show ?thesis .
qed

lemma more_elements_tokens:
  "more_elements (concat (map ((#) Comma \<circ> object_tokens) obs) @ [RBracket]) = Some obs"
proof (induction obs)
  case Nil
  show ?case by simp
next
  case (Cons ob obs)
  have "more_elements (concat (map ((#) Comma \<circ> object_tokens) (ob # obs)) @ [RBracket])
        = more_elements (Comma # (object_tokens ob
            @ (concat (map ((#) Comma \<circ> object_tokens) obs) @ [RBracket])))"
    by simp
  also have "\<dots> = cons_opt ob (more_elements
      (concat (map ((#) Comma \<circ> object_tokens) obs) @ [RBracket]))"
    by (simp only: more_elements.simps object_tokens_parse) simp
  also have "\<dots> = Some (ob # obs)"
    by (simp only: Cons) (simp add: cons_opt_def)
  finally show ?case .
qed

lemma array_nonempty:
  "array (LBracket # object_tokens ob @ rest) = cons_opt ob (more_elements rest)"
proof -
  have "object_tokens ob @ rest \<noteq> [RBracket]"
    by (simp add: object_tokens_def)
  then show ?thesis
    by (simp add: array_def object_tokens_parse)
qed

lemma array_tokens:
  "array (LBracket # join_tokens (map object_tokens obs) @ [RBracket]) = Some obs"
proof (cases obs)
  case Nil
  then show ?thesis by (simp add: array_def)
next
  case (Cons ob obs')
  have "array (LBracket # join_tokens (map object_tokens obs) @ [RBracket])
        = array (LBracket # object_tokens ob
            @ (concat (map ((#) Comma \<circ> object_tokens) obs') @ [RBracket]))"
    by (simp add: Cons join_tokens_Cons)
  also have "\<dots> = Some obs"
    by (simp only: array_nonempty more_elements_tokens) (simp add: cons_opt_def Cons)
  finally show ?thesis .
qed

lemma JSON_parse_stringify: "JSON_parse (JSON_stringify obs) = Some obs"
  by (simp add: JSON_parse_def tokens_JSON_stringify array_tokens)

lemma JSON_stringify_nonempty: "JSON_stringify obs \<noteq> []"
  by (simp add: JSON_stringify_def)

section \<open>What the store reads back\<close>

lemma photo_of_object_of_photo: "photo_of_object (object_of_photo p) = Some p"
  by (simp add: photo_of_object_def object_of_photo_def)

lemma note_of_object_of_note: "note_of_object (object_of_note n) = Some n"
  by (simp add: note_of_object_def object_of_note_def)

lemma those_map_Some:
  "(\<And>x. f (g x) = Some x) \<Longrightarrow> those (map f (map g xs)) = Some xs"
  by (induction xs) simp_all

lemma parse_stringify_photos: "parse_photos (stringify_photos ps) = Some ps"
  by (simp only: parse_photos_def stringify_photos_def JSON_parse_stringify option.case
      those_map_Some [of photo_of_object object_of_photo, OF photo_of_object_of_photo])

lemma parse_stringify_notes: "parse_notes (stringify_notes ns) = Some ns"
  by (simp only: parse_notes_def stringify_notes_def JSON_parse_stringify option.case
      those_map_Some [of note_of_object object_of_note, OF note_of_object_of_note])

lemma JSON_parse_empty: "JSON_parse ''[]'' = Some []"
  using JSON_parse_stringify [of "[]"] by (simp add: JSON_stringify_def)

lemma decode_encode_photos:
  "decode_photos (Some (encode_photos x)) = Some (case x of Val ps \<Rightarrow> ps | _ \<Rightarrow> [])"
proof (cases x)
  case (Val ps)
  have "stringify_photos ps \<noteq> []"
    by (simp add: stringify_photos_def JSON_stringify_nonempty)
  then show ?thesis
    by (simp add: Val decode_photos_def encode_photos_def parse_stringify_photos)
qed (simp_all add: decode_photos_def encode_photos_def parse_photos_def JSON_parse_empty)

lemma decode_encode_notes:
  "decode_notes (Some (encode_notes x)) = Some (case x of Val ns \<Rightarrow> ns | _ \<Rightarrow> [])"
proof (cases x)
  case (Val ns)
  have "stringify_notes ns \<noteq> []"
    by (simp add: stringify_notes_def JSON_stringify_nonempty)
  then show ?thesis
    by (simp add: Val decode_notes_def encode_notes_def parse_stringify_notes)
qed (simp_all add: decode_notes_def encode_notes_def parse_notes_def JSON_parse_empty)

lemma game_of_row_bound_row:
  "game_of_row i (bound_row t m date) =
     Inr \<lparr>game_id = i, title = t, link = Some (string_or_empty (gameData.link m)),
          rageRating = number_or_zero (gameData.rageRating m),
          finished = truthy_boolean (gameData.finished m),
          is_checked = truthy_boolean (gameData.is_checked m),
          platform = Some (string_or_empty (gameData.platform m)),
          strikes = number_or_zero (gameData.strikes m),
          notes = Some (string_or_empty (gameData.notes m)),
          coverArtPath = string_or_null (gameData.coverArtPath m),
          gameplayImagePath = string_or_null (gameData.gameplayImagePath m),
          dateAdded = date,
          additionalPhotos = (case gameData.additionalPhotos m of Val ps \<Rightarrow> ps | _ \<Rightarrow> []),
          additionalNotes = (case gameData.additionalNotes m of Val ns \<Rightarrow> ns | _ \<Rightarrow> [])\<rparr>"
  by (simp add: game_of_row_def bound_row_def decode_encode_photos decode_encode_notes
      column_or_zero_def Boolean_column_def bit_of_def)

lemma map_of_update_rows:
  "map_of (update_rows i t m rows) i
   = map_option (\<lambda>r. bound_row t m (row.dateAdded r)) (map_of rows i)"
  by (induction rows) (auto simp: update_rows_def)

lemma map_of_update_rows_other:
  "j \<noteq> i \<Longrightarrow> map_of (update_rows i t m rows) j = map_of rows j"
  by (induction rows) (auto simp: update_rows_def)

lemma getGameById_Some_row:
  assumes "getGameById d i = Inr (Some g0)"
  obtains r where "map_of (games d) i = Some r" "game_of_row i r = Inr g0"
  using assms by (auto simp: getGameById_def split: option.splits sum.splits)

lemma game_of_row_dateAdded:
  "game_of_row i r = Inr g0 \<Longrightarrow> game.dateAdded g0 = row.dateAdded r"
  by (auto simp: game_of_row_def split: option.splits)

lemma updateGame_found:
  assumes "getGameById d i = Inr (Some g0)"
    and "gameData.title (mergedData g g0) = Val t"
  shows "updateGame d i g =
           Inr (d\<lparr>games := update_rows i t (mergedData g g0) (games d)\<rparr>,
                length (filter (\<lambda>jr. fst jr = i) (games d)))"
  using assms by (simp add: updateGame_def bind_title_def)

lemma getGameById_updated:
  assumes "getGameById d i = Inr (Some g0)"
  shows "getGameById (d\<lparr>games := update_rows i t m (games d)\<rparr>) i =
     Inr (Some \<lparr>game_id = i, title = t, link = Some (string_or_empty (gameData.link m)),
          rageRating = number_or_zero (gameData.rageRating m),
          finished = truthy_boolean (gameData.finished m),
          is_checked = truthy_boolean (gameData.is_checked m),
          platform = Some (string_or_empty (gameData.platform m)),
          strikes = number_or_zero (gameData.strikes m),
          notes = Some (string_or_empty (gameData.notes m)),
          coverArtPath = string_or_null (gameData.coverArtPath m),
          gameplayImagePath = string_or_null (gameData.gameplayImagePath m),
          dateAdded = game.dateAdded g0,
          additionalPhotos = (case gameData.additionalPhotos m of Val ps \<Rightarrow> ps | _ \<Rightarrow> []),
          additionalNotes = (case gameData.additionalNotes m of Val ns \<Rightarrow> ns | _ \<Rightarrow> [])\<rparr>)"
proof -
  obtain r where r: "map_of (games d) i = Some r" "game_of_row i r = Inr g0"
    using assms by (rule getGameById_Some_row)
  have "map_of (update_rows i t m (games d)) i = Some (bound_row t m (row.dateAdded r))"
    by (simp add: map_of_update_rows r)
  then show ?thesis
    by (simp add: getGameById_def game_of_row_bound_row game_of_row_dateAdded [OF r(2)])
qed

lemma getGameById_updated_other:
  "j \<noteq> i \<Longrightarrow> getGameById (d\<lparr>games := update_rows i t m (games d)\<rparr>) j = getGameById d j"
  by (simp add: getGameById_def map_of_update_rows_other)

lemma fold_max_ge: "a \<le> fold max xs (a::nat)"
  by (induction xs arbitrary: a) (auto intro: order_trans [OF max.cobounded2])

lemma fold_max_member: "x \<in> set xs \<Longrightarrow> x \<le> fold max xs (a::nat)"
proof (induction xs arbitrary: a)
  case Nil
  then show ?case by simp
next
  case (Cons y ys)
  show ?case
  proof (cases "x = y")
    case True
    have "y \<le> max y a" by simp
    also have "\<dots> \<le> fold max ys (max y a)" by (rule fold_max_ge)
    finally show ?thesis using True by simp
  next
    case False
    then show ?thesis using Cons by simp
  qed
qed

lemma next_rowid_fresh: "map_of (games d) (next_rowid d) = None"
proof -
  have "next_rowid d \<notin> fst ` set (games d)"
  proof
    assume "next_rowid d \<in> fst ` set (games d)"
    then have "next_rowid d \<in> set (map fst (games d))" by simp
    then have "next_rowid d \<le> fold max (map fst (games d)) (sqlite_sequence d)"
      by (rule fold_max_member)
    then show False by (simp add: next_rowid_def)
  qed
  then show ?thesis by (simp add: map_of_eq_None_iff)
qed

lemma createGame_read_back:
  assumes "gameData.title g = Val t"
  shows "\<exists>d'. createGame today d g = Inr (d', next_rowid d)
     \<and> getGameById d' (next_rowid d) =
     Inr (Some \<lparr>game_id = next_rowid d, title = t, link = Some (string_or_empty (gameData.link g)),
          rageRating = number_or_zero (gameData.rageRating g),
          finished = truthy_boolean (gameData.finished g),
          is_checked = truthy_boolean (gameData.is_checked g),
          platform = Some (string_or_empty (gameData.platform g)),
          strikes = number_or_zero (gameData.strikes g),
          notes = Some (string_or_empty (gameData.notes g)),
          coverArtPath = string_or_null (gameData.coverArtPath g),
          gameplayImagePath = string_or_null (gameData.gameplayImagePath g),
          dateAdded = Some today,
          additionalPhotos = (case gameData.additionalPhotos g of Val ps \<Rightarrow> ps | _ \<Rightarrow> []),
          additionalNotes = (case gameData.additionalNotes g of Val ns \<Rightarrow> ns | _ \<Rightarrow> [])\<rparr>)"
  using assms next_rowid_fresh [of d]
  by (simp add: createGame_def bind_title_def Let_def getGameById_def map_add_def
      game_of_row_bound_row)

lemma getGameById_example: "getGameById example_db 1 = Inr (Some example_game)"
  by code_simp

lemma game_of_row_id: "game_of_row i r = Inr g \<Longrightarrow> game_id g = i"
  by (auto simp: game_of_row_def split: option.splits)

lemma games_of_rows_member:
  "games_of_rows rows = Inr gs \<Longrightarrow> g \<in> set gs
   \<Longrightarrow> \<exists>r. (game_id g, r) \<in> set rows \<and> game_of_row (game_id g) r = Inr g"
proof (induction rows arbitrary: gs)
  case Nil
  then show ?case by simp
next
  case (Cons ir rows)
  obtain i r where ir: "ir = (i, r)" by (cases ir)
  from Cons.prems(1) obtain g1 gs1 where g1: "game_of_row i r = Inr g1"
    and gs1: "games_of_rows rows = Inr gs1" and gs: "gs = g1 # gs1"
    by (auto simp: ir split: sum.splits)
  show ?case
  proof (cases "g = g1")
    case True
    then show ?thesis using g1 game_of_row_id [OF g1] by (auto simp: ir)
  next
    case False
    then have "g \<in> set gs1" using Cons.prems(2) gs by simp
    then show ?thesis using Cons.IH [OF gs1] by auto
  qed
qed

lemma update_rows_member:
  "(i, r') \<in> set (update_rows i t m rows)
   \<Longrightarrow> \<exists>r::row. r' = bound_row t m (row.dateAdded r)"
proof -
  assume "(i, r') \<in> set (update_rows i t m rows)"
  then obtain j r where "(i, r') = (if j = i then (j, bound_row t m (row.dateAdded r)) else (j, r))"
    by (auto simp: update_rows_def)
  then have "r' = bound_row t m (row.dateAdded r)"
    by (cases "j = i") simp_all
  then show ?thesis by blast
qed

lemma getAllGames_updated:
  assumes "getAllGames (d\<lparr>games := update_rows i t m (games d)\<rparr>) = Inr gs"
    and "x \<in> set gs" and "game_id x = i"
  shows "game.additionalPhotos x = (case gameData.additionalPhotos m of Val ps \<Rightarrow> ps | _ \<Rightarrow> [])
       \<and> game.additionalNotes x = (case gameData.additionalNotes m of Val ns \<Rightarrow> ns | _ \<Rightarrow> [])"
proof -
  obtain r' where r': "(i, r') \<in> set (update_rows i t m (games d))" "game_of_row i r' = Inr x"
    using games_of_rows_member [OF assms(1) [unfolded getAllGames_def] assms(2)] assms(3)
    by auto
  obtain r :: row where "r' = bound_row t m (row.dateAdded r)"
    using update_rows_member [OF r'(1)] by blast
  then show ?thesis
    using r'(2) by (auto simp: game_of_row_bound_row)
qed

lemma getAllGames_created:
  assumes "getAllGames \<lparr>games = games d @ [(next_rowid d, bound_row t m date)],
             sqlite_sequence = next_rowid d\<rparr> = Inr gs"
    and "x \<in> set gs" and "game_id x = next_rowid d"
  shows "game.additionalPhotos x = (case gameData.additionalPhotos m of Val ps \<Rightarrow> ps | _ \<Rightarrow> [])
       \<and> game.additionalNotes x = (case gameData.additionalNotes m of Val ns \<Rightarrow> ns | _ \<Rightarrow> [])"
proof -
  obtain r' where r': "(next_rowid d, r') \<in> set (games d @ [(next_rowid d, bound_row t m date)])"
    "game_of_row (next_rowid d) r' = Inr x"
    using games_of_rows_member [OF assms(1) [unfolded getAllGames_def] assms(2)] assms(3)
    by auto
  have "(next_rowid d, r') \<notin> set (games d)"
    using next_rowid_fresh [of d] by (metis map_of_eq_None_iff image_eqI fst_conv)
  then have "r' = bound_row t m date" using r'(1) by simp
  then show ?thesis
    using r'(2) by (auto simp: game_of_row_bound_row)
qed

lemma updateGame_success:
  assumes "updateGame d i g = Inr (d', n)"
  obtains g0 t where "getGameById d i = Inr (Some g0)"
    and "gameData.title (mergedData g g0) = Val t"
    and "d' = d\<lparr>games := update_rows i t (mergedData g g0) (games d)\<rparr>"
  using assms
  by (auto simp: updateGame_def bind_title_def Let_def
      split: sum.splits option.splits js.splits)

lemma games_of_rows_append:
  "games_of_rows rows = Inr gs \<Longrightarrow> game_of_row i r = Inr g
   \<Longrightarrow> games_of_rows (rows @ [(i, r)]) = Inr (gs @ [g])"
  by (induction rows arbitrary: gs) (auto split: sum.splits)

lemma games_of_rows_update:
  assumes "games_of_rows rows = Inr gs" and "game_of_row i (bound_row t m date) = Inr g'"
  shows "games_of_rows (update_rows i t m rows)
         = Inr (map (\<lambda>x. if game_id x = i then g'\<lparr>game.dateAdded := game.dateAdded x\<rparr> else x) gs)"
  using assms(1)
proof (induction rows arbitrary: gs)
  case Nil
  then show ?case by (simp add: update_rows_def)
next
  case (Cons jr rows)
  obtain j r where jr: "jr = (j, r)" by (cases jr)
  from Cons.prems obtain x gs1 where x: "game_of_row j r = Inr x"
    and gs1: "games_of_rows rows = Inr gs1" and gs: "gs = x # gs1"
    by (auto simp: jr split: sum.splits)
  have u: "update_rows i t m (jr # rows)
           = (if j = i then (j, bound_row t m (row.dateAdded r)) else (j, r))
             # update_rows i t m rows"
    by (simp add: update_rows_def jr)
  have b: "game_of_row i (bound_row t m (row.dateAdded r))
           = Inr (g'\<lparr>game.dateAdded := row.dateAdded r\<rparr>)"
    using assms(2) by (auto simp: game_of_row_bound_row)
  show ?case
    using Cons.IH [OF gs1] x game_of_row_id [OF x] game_of_row_dateAdded [OF x] b
    by (auto simp: u gs)
qed

lemma games_of_rows_lookup:
  "map_of rows i = Some r \<Longrightarrow> game_of_row i r = Inr g0 \<Longrightarrow> games_of_rows rows = Inr gs
   \<Longrightarrow> g0 \<in> set gs"
  by (induction rows arbitrary: gs) (auto split: sum.splits if_splits)

lemma getAllGames_example: "getAllGames example_db = Inr [example_game]"
  by code_simp


lemma createGame_all:
  assumes t: "gameData.title g = Val t" and c: "createGame today d g = Inr (d', k)"
    and gs: "getAllGames d = Inr gs" and r: "getGameById d' (next_rowid d) = Inr (Some g')"
  shows "getAllGames d' = Inr (gs @ [g'])"
proof -
  have d': "games d' = games d @ [(next_rowid d, bound_row t g (Some today))]"
    using c t by (auto simp: createGame_def bind_title_def Let_def)
  have "map_of (games d') (next_rowid d) = Some (bound_row t g (Some today))"
    using next_rowid_fresh [of d] by (simp add: d' map_add_def)
  then have b: "game_of_row (next_rowid d) (bound_row t g (Some today)) = Inr g'"
    using r by (auto simp: getGameById_def split: sum.splits)
  show ?thesis
    unfolding getAllGames_def d' using gs [unfolded getAllGames_def] b
    by (rule games_of_rows_append)
qed

lemma updateGame_all:
  assumes h: "getGameById d i = Inr (Some g0)"
    and r: "getGameById (d\<lparr>games := update_rows i t m (games d)\<rparr>) i = Inr (Some g')"
    and gs: "getAllGames d = Inr gs"
  shows "getAllGames (d\<lparr>games := update_rows i t m (games d)\<rparr>)
           = Inr (map (\<lambda>x. if game_id x = i
                            then g'\<lparr>game.dateAdded := game.dateAdded x\<rparr> else x) gs)
         \<and> g' \<in> set (map (\<lambda>x. if game_id x = i
                                 then g'\<lparr>game.dateAdded := game.dateAdded x\<rparr> else x) gs)"
proof -
  let ?f = "\<lambda>x. if game_id x = i then g'\<lparr>game.dateAdded := game.dateAdded x\<rparr> else x"
  obtain r0 where r0: "map_of (games d) i = Some r0" "game_of_row i r0 = Inr g0"
    using h by (rule getGameById_Some_row)
  have "map_of (update_rows i t m (games d)) i = Some (bound_row t m (row.dateAdded r0))"
    by (simp add: map_of_update_rows r0)
  then have b: "game_of_row i (bound_row t m (row.dateAdded r0)) = Inr g'"
    using r by (auto simp: getGameById_def split: sum.splits)
  have "games_of_rows (update_rows i t m (games d)) = Inr (map ?f gs)"
    using gs [unfolded getAllGames_def] b by (rule games_of_rows_update)
  then have 1: "getAllGames (d\<lparr>games := update_rows i t m (games d)\<rparr>) = Inr (map ?f gs)"
    by (simp add: getAllGames_def)
  have g0: "g0 \<in> set gs"
    using r0 gs [unfolded getAllGames_def] by (rule games_of_rows_lookup)
  have da: "game.dateAdded g' = row.dateAdded r0"
    using game_of_row_dateAdded [OF b] by (simp add: bound_row_def)
  have e1: "game.dateAdded g0 = game.dateAdded g'"
    using game_of_row_dateAdded [OF r0(2)] da by (simp only:)
  have e2: "g'\<lparr>game.dateAdded := game.dateAdded g0\<rparr> = g'"
    unfolding e1 by simp
  have i0: "game_id g0 = i"
    using r0(2) by (rule game_of_row_id)
  have e3: "g' = ?f g0"
    by (simp only: i0 e2 refl if_True)
  have "g' \<in> ?f ` set gs"
    using e3 g0 by (rule image_eqI)
  then have "g' \<in> set (map ?f gs)"
    by (simp only: set_map)
  then show ?thesis using 1 by (intro conjI)
qed


section \<open>The update route\<close>

lemma replace_first_same: "replace_first p p s = s"
proof (induction s)
  case Nil
  show ?case by simp
next
  case (Cons a s)
  show ?case
  proof (cases "starts_with p (a # s)")
    case True
    then have "p @ drop (length p) (a # s) = a # s"
      unfolding starts_with_def by (metis append_take_drop_id)
    then show ?thesis using True by simp
  next
    case False
    then show ?thesis using Cons by simp
  qed
qed

lemma rewrite_path_same:
  "sanitizeFolderName a = sanitizeFolderName b \<Longrightarrow> rewrite_path a b p = p"
  by (simp add: rewrite_path_def replace_first_same split: js.splits)

lemma initial_gameData_title:
  "gameData.title (initial_gameData req g0)
   = (case body_title req of None \<Rightarrow> Undefined | Some t \<Rightarrow> Val t)"
  by (simp add: initial_gameData_def)

lemma rename_step_title:
  "rename_step root f req g0 g = (g1, f1) \<Longrightarrow> gameData.title g1 = gameData.title g"
  by (auto simp: rename_step_def Let_def split: if_splits prod.splits)

lemma upload_step_title:
  "upload_step root f req g0 folder g = (Inr g', f') \<Longrightarrow> gameData.title g' = gameData.title g"
  by (auto simp: upload_step_def split: option.splits sum.splits)

lemma upload_step_none: "upload_step root f no_files g0 folder g = (Inr g, f)"
  by (simp add: upload_step_def no_files_def)

lemma update_handler_OK:
  assumes "getGameById (db w) (params_id req) = Inr (Some g0)"
    and "body_title req = Some t"
    and "rename_step root (fs w) req g0 (initial_gameData req g0) = (g, f)"
    and "upload_step root f fl g0 (sanitizeFolderName t) g = (Inr g', f')"
  shows "update_handler root w req fl =
     (OK ''Game updated successfully'',
      \<lparr>db = (db w)\<lparr>games := update_rows (params_id req) t (mergedData g' g0) (games (db w))\<rparr>,
       fs = f'\<rparr>)"
proof -
  have tg: "gameData.title g = Val t"
    using rename_step_title [OF assms(3)] assms(2) by (simp add: initial_gameData_title)
  then have tg': "gameData.title g' = Val t"
    using upload_step_title [OF assms(4)] by simp
  then have m: "gameData.title (mergedData g' g0) = Val t"
    by (simp add: mergedData_def provided_or_def)
  show ?thesis
    by (simp add: update_handler_def assms tg updateGame_found [OF assms(1) m])
qed

lemma update_handler_OK_inv:
  assumes "update_handler root w req fl = (OK msg, w')"
  obtains g0 t g f g' where "getGameById (db w) (params_id req) = Inr (Some g0)"
    and "body_title req = Some t"
    and "rename_step root (fs w) req g0 (initial_gameData req g0) = (g, f)"
    and "upload_step root f fl g0 (sanitizeFolderName t) g = (Inr g', fs w')"
    and "db w' = (db w)\<lparr>games := update_rows (params_id req) t (mergedData g' g0) (games (db w))\<rparr>"
proof -
  from assms obtain g0 where g0: "getGameById (db w) (params_id req) = Inr (Some g0)"
    by (auto simp: update_handler_def split: sum.splits option.splits)
  obtain g f where rs: "rename_step root (fs w) req g0 (initial_gameData req g0) = (g, f)"
    by (cases "rename_step root (fs w) req g0 (initial_gameData req g0)")
  from assms g0 rs obtain t where tg: "gameData.title g = Val t"
    by (cases "gameData.title g") (auto simp: update_handler_def)
  have bt: "body_title req = Some t"
    using rename_step_title [OF rs] tg
    by (cases "body_title req") (simp_all add: initial_gameData_title)
  from assms g0 rs tg obtain g' f' where
    us: "upload_step root f fl g0 (sanitizeFolderName t) g = (Inr g', f')"
    by (auto simp: update_handler_def split: prod.splits sum.splits)
  have "update_handler root w req fl =
     (OK ''Game updated successfully'',
      \<lparr>db = (db w)\<lparr>games := update_rows (params_id req) t (mergedData g' g0) (games (db w))\<rparr>,
       fs = f'\<rparr>)"
    using g0 bt rs us by (rule update_handler_OK)
  then have "w' = \<lparr>db = (db w)\<lparr>games := update_rows (params_id req) t (mergedData g' g0) (games (db w))\<rparr>,
       fs = f'\<rparr>"
    using assms by simp
  then show ?thesis
    using that [OF g0 bt rs] us by simp
qed


lemma rename_step_eq:
  "rename_step root f req g0 g =
     (if title_changed req g0 then
        (g\<lparr>gameData.coverArtPath :=
             rewrite_path (game.title g0) (field_or_empty (body_title req)) (gameData.coverArtPath g),
           gameData.gameplayImagePath :=
             rewrite_path (game.title g0) (field_or_empty (body_title req))
               (gameData.gameplayImagePath g)\<rparr>,
         snd (renameGameFolder root f (game.title g0) (field_or_empty (body_title req))))
      else (g, f))"
  by (simp add: rename_step_def Let_def split: prod.splits)

lemma upload_step_paths:
  assumes "upload_step root f fl g0 folder g = (Inr g', f')"
  shows "gameData.coverArtPath g' =
           (case files_coverArt fl of
              None \<Rightarrow> gameData.coverArtPath g | Some name \<Rightarrow> Val (upload_url folder name))"
    and "gameData.gameplayImagePath g' =
           (case files_gameplayImage fl of
              None \<Rightarrow> gameData.gameplayImagePath g | Some name \<Rightarrow> Val (upload_url folder name))"
  using assms by (auto simp: upload_step_def split: option.splits sum.splits)

lemma rewrite_path_of_column:
  "provided_or (rewrite_path a b (of_column c)) y = rewrite_path a b (of_column c)"
  by (cases c) (simp_all add: provided_or_def rewrite_path_def of_column_def)

lemma provided_or_of_column: "provided_or (of_column c) y = of_column c"
  by (cases c) (simp_all add: provided_or_def of_column_def)

lemma provided_or_Val: "provided_or (Val v) y = Val v"
  by (simp add: provided_or_def)

lemma string_or_null_upload_url:
  "string_or_null (Val (upload_url folder name)) = Some (upload_url folder name)"
  by (simp add: string_or_null_def upload_url_def base_url_def)

lemma update_handler_stored:
  assumes "update_handler root w req fl = (OK msg, w')"
  obtains g0 t r' where "getGameById (db w) (params_id req) = Inr (Some g0)"
    and "body_title req = Some t"
    and "getGameById (db w') (params_id req) = Inr (Some r')"
    and "game.title r' = t"
    and "game.coverArtPath r' =
           stored_path (title_changed req g0) (game.title g0) t (game.coverArtPath g0)
             (files_coverArt fl)"
    and "game.gameplayImagePath r' =
           stored_path (title_changed req g0) (game.title g0) t (game.gameplayImagePath g0)
             (files_gameplayImage fl)"
proof -
  from assms obtain g0 t g f g' where g0: "getGameById (db w) (params_id req) = Inr (Some g0)"
    and bt: "body_title req = Some t"
    and rs: "rename_step root (fs w) req g0 (initial_gameData req g0) = (g, f)"
    and us: "upload_step root f fl g0 (sanitizeFolderName t) g = (Inr g', fs w')"
    and d': "db w' = (db w)\<lparr>games := update_rows (params_id req) t (mergedData g' g0) (games (db w))\<rparr>"
    by (rule update_handler_OK_inv)
  let ?m = "mergedData g' g0"
  have g: "g = fst (rename_step root (fs w) req g0 (initial_gameData req g0))"
    using rs by simp
  have c1: "gameData.coverArtPath g =
      (if title_changed req g0
       then rewrite_path (game.title g0) t (of_column (game.coverArtPath g0))
       else of_column (game.coverArtPath g0))"
    and p1: "gameData.gameplayImagePath g =
      (if title_changed req g0
       then rewrite_path (game.title g0) t (of_column (game.gameplayImagePath g0))
       else of_column (game.gameplayImagePath g0))"
    by (simp_all add: g rename_step_eq initial_gameData_def bt field_or_empty_def)
  have c2: "string_or_null (gameData.coverArtPath ?m) =
      stored_path (title_changed req g0) (game.title g0) t (game.coverArtPath g0)
        (files_coverArt fl)"
    by (simp add: mergedData_def upload_step_paths(1) [OF us] c1 stored_path_def
        rewrite_path_of_column provided_or_of_column provided_or_Val string_or_null_upload_url
        split: option.splits)
  have p2: "string_or_null (gameData.gameplayImagePath ?m) =
      stored_path (title_changed req g0) (game.title g0) t (game.gameplayImagePath g0)
        (files_gameplayImage fl)"
    by (simp add: mergedData_def upload_step_paths(2) [OF us] p1 stored_path_def
        rewrite_path_of_column provided_or_of_column provided_or_Val string_or_null_upload_url
        split: option.splits)
  have r: "getGameById (db w') (params_id req) = Inr (Some
       \<lparr>game_id = params_id req, title = t, link = Some (string_or_empty (gameData.link ?m)),
          rageRating = number_or_zero (gameData.rageRating ?m),
          finished = truthy_boolean (gameData.finished ?m),
          is_checked = truthy_boolean (gameData.is_checked ?m),
          platform = Some (string_or_empty (gameData.platform ?m)),
          strikes = number_or_zero (gameData.strikes ?m),
          notes = Some (string_or_empty (gameData.notes ?m)),
          coverArtPath = string_or_null (gameData.coverArtPath ?m),
          gameplayImagePath = string_or_null (gameData.gameplayImagePath ?m),
          dateAdded = game.dateAdded g0,
          additionalPhotos = (case gameData.additionalPhotos ?m of Val ps \<Rightarrow> ps | _ \<Rightarrow> []),
          additionalNotes = (case gameData.additionalNotes ?m of Val ns \<Rightarrow> ns | _ \<Rightarrow> [])\<rparr>)"
    unfolding d' using g0 by (rule getGameById_updated)
  show ?thesis
    by (rule that [OF g0 bt r]) (simp_all add: c2 p2)
qed


lemma renameGameFolder_skipped:
  "sanitizeFolderName oldTitle = sanitizeFolderName newTitle
   \<or> \<not> existsSync f (uploads_path root (sanitizeFolderName oldTitle))
   \<Longrightarrow> renameGameFolder root f oldTitle newTitle = (No_change, f)"
  by (auto simp: renameGameFolder_def Let_def)

lemma rename_step_same_token:
  assumes "body_title req = Some newTitle"
    and "sanitizeFolderName (game.title g0) = sanitizeFolderName newTitle"
  shows "rename_step root f req g0 g = (g, f)"
  using assms
  by (simp add: rename_step_eq field_or_empty_def rewrite_path_same renameGameFolder_skipped)

lemma string_or_null_of_column: "c \<noteq> Some [] \<Longrightarrow> string_or_null (of_column c) = c"
  by (cases c) (simp_all add: string_or_null_def of_column_def)

lemma getGameById_example_world:
  "getGameById (db example_world) 1 = Inr (Some example_game)"
  using getGameById_example by (simp add: example_world_def)


lemma parseInt_abc: "parseInt ''abc'' = NaN"
  by code_simp

section \<open>The folder migration\<close>

lemma starts_with_Cons:
  "starts_with (a # p) (c # s) = (a = c \<and> starts_with p s)"
  by (auto simp: starts_with_def)

lemma starts_with_append: "starts_with p (p @ s)"
  by (simp add: starts_with_def)

lemma replace_first_prefix: "replace_first p r (p @ s) = r @ s"
proof (cases "p @ s")
  case Nil
  then show ?thesis by simp
next
  case (Cons c cs)
  have "starts_with p (c # cs)"
    using starts_with_append [of p s] by (simp add: Cons)
  moreover have "drop (length p) (c # cs) = s"
    using arg_cong [OF Cons, of "drop (length p)"] by simp
  ultimately show ?thesis
    by (simp add: Cons)
qed

lemma replace_first_skip:
  "\<not> starts_with p (c # s) \<Longrightarrow> replace_first p r (c # s) = c # replace_first p r s"
  by simp

lemma rewrite_upload_url:
  "replace_first (''/uploads/'' @ old @ ''/'') (''/uploads/'' @ new @ ''/'') (upload_url old rest)
   = upload_url new rest"
proof -
  have "replace_first (''/uploads/'' @ old @ ''/'') (''/uploads/'' @ new @ ''/'')
          (base_url @ (''/uploads/'' @ old @ ''/'') @ rest)
        = base_url @ replace_first (''/uploads/'' @ old @ ''/'') (''/uploads/'' @ new @ ''/'')
            ((''/uploads/'' @ old @ ''/'') @ rest)"
    by (simp add: base_url_def starts_with_Cons del: replace_first.simps
        add: replace_first_skip)
  then show ?thesis
    by (simp only: replace_first_prefix upload_url_def) simp
qed

lemma local_path_upload_url:
  "local_path root (upload_url folder name) = root @ ''/uploads/'' @ folder @ ''/'' @ name"
  unfolding local_path_def upload_url_def by (rule replace_first_prefix)


lemma slash_split:
  "CHR ''/'' \<notin> set a \<Longrightarrow> CHR ''/'' \<notin> set b \<Longrightarrow> a @ CHR ''/'' # x = b @ CHR ''/'' # y
   \<Longrightarrow> a = b \<and> x = y"
proof (induction a arbitrary: b)
  case Nil
  then show ?case by (cases b) auto
next
  case (Cons c a)
  then show ?case by (cases b) auto
qed

lemma below_decomp: "below p q \<Longrightarrow> \<exists>rest. q = p @ CHR ''/'' # rest"
proof -
  assume "below p q"
  then have "take (length (p @ ''/'')) q = p @ ''/''"
    by (simp add: below_def starts_with_def)
  then have "q = (p @ ''/'') @ drop (length (p @ ''/'')) q"
    by (metis append_take_drop_id)
  then show ?thesis by auto
qed

text \<open>Paths of entries of the two folders, for two different tokens with no separator.\<close>

lemma entry_paths_differ:
  assumes "CHR ''/'' \<notin> set a" and "CHR ''/'' \<notin> set b" and "a \<noteq> b"
  shows "u @ a @ CHR ''/'' # x \<noteq> u @ b @ CHR ''/'' # y"
  using slash_split [OF assms(1,2)] assms(3) by auto

lemma entry_not_below_other:
  assumes "CHR ''/'' \<notin> set a" and "CHR ''/'' \<notin> set b" and "a \<noteq> b"
  shows "\<not> below (u @ a @ CHR ''/'' # x) (u @ b @ CHR ''/'' # y)"
proof
  assume "below (u @ a @ CHR ''/'' # x) (u @ b @ CHR ''/'' # y)"
  then obtain rest where "u @ b @ CHR ''/'' # y = (u @ a @ CHR ''/'' # x) @ CHR ''/'' # rest"
    using below_decomp by blast
  then have "b @ CHR ''/'' # y = a @ CHR ''/'' # (x @ CHR ''/'' # rest)"
    by simp
  then show False
    using slash_split [OF assms(2,1)] assms(3) by blast
qed

lemma entry_not_below_entry:
  assumes "CHR ''/'' \<notin> set y"
  shows "\<not> below (p @ CHR ''/'' # x) (p @ CHR ''/'' # y)"
proof
  assume "below (p @ CHR ''/'' # x) (p @ CHR ''/'' # y)"
  then obtain rest where "p @ CHR ''/'' # y = (p @ CHR ''/'' # x) @ CHR ''/'' # rest"
    using below_decomp by blast
  then have "y = x @ CHR ''/'' # rest" by simp
  then show False using assms by simp
qed

lemma renameSync_keeps_file:
  assumes "renameSync f old new = Inr f1" and "p \<in> set (files f)"
    and "p \<noteq> old" and "\<not> below old p"
  shows "p \<in> set (files f1)"
proof -
  have mp: "moved_path old new p = p"
    using assms(3,4) by (simp add: moved_path_def)
  have im: "p \<in> set (map (moved_path old new) (files f))"
    using assms(2) mp by (auto simp: image_iff intro: bexI [of _ p])
  show ?thesis
    using assms(1,2,3) im
    by (auto simp: renameSync_def split: if_splits)
qed

lemma renameSync_moves_file:
  assumes "renameSync f old new = Inr f1" and "old \<in> set (files f)"
  shows "new \<in> set (files f1)"
  using assms by (auto simp: renameSync_def split: if_splits)

lemma move_files_keeps:
  assumes "move_files f oldPath newPath names = (r, f')"
    and "p \<in> set (files f)"
    and "\<And>x. p \<noteq> oldPath @ ''/'' @ x" and "\<And>x. \<not> below (oldPath @ ''/'' @ x) p"
  shows "p \<in> set (files f')"
  using assms(1,2)
proof (induction names arbitrary: f)
  case Nil
  then show ?case by simp
next
  case (Cons x names)
  show ?case
  proof (cases "renameSync f (oldPath @ ''/'' @ x) (newPath @ ''/'' @ x)")
    case (Inl e)
    then show ?thesis using Cons.prems by simp
  next
    case (Inr f1)
    then have m: "move_files f1 oldPath newPath names = (r, f')"
      using Cons.prems(1) by simp
    have "p \<in> set (files f1)"
      using Inr Cons.prems(2) assms(3,4) by (rule renameSync_keeps_file)
    then show ?thesis using Cons.IH [OF m] by simp
  qed
qed

lemma move_files_moves:
  assumes "move_files f oldPath newPath names = (None, f')"
    and "name \<in> set names"
    and "oldPath @ ''/'' @ name \<in> set (files f)"
    and "CHR ''/'' \<notin> set name"
    and "\<And>x. newPath @ ''/'' @ name \<noteq> oldPath @ ''/'' @ x"
    and "\<And>x. \<not> below (oldPath @ ''/'' @ x) (newPath @ ''/'' @ name)"
  shows "newPath @ ''/'' @ name \<in> set (files f')"
  using assms(1,2,3)
proof (induction names arbitrary: f)
  case Nil
  then show ?case by simp
next
  case (Cons x names)
  from Cons.prems(1) obtain f1 where
    r: "renameSync f (oldPath @ ''/'' @ x) (newPath @ ''/'' @ x) = Inr f1"
    and m: "move_files f1 oldPath newPath names = (None, f')"
    by (auto split: sum.splits)
  show ?case
  proof (cases "x = name")
    case True
    have "newPath @ ''/'' @ name \<in> set (files f1)"
      using r Cons.prems(3) unfolding True by (rule renameSync_moves_file)
    then show ?thesis
      using move_files_keeps [OF m _ assms(5,6)] by simp
  next
    case False
    have nb: "\<not> below (oldPath @ ''/'' @ x) (oldPath @ ''/'' @ name)"
      using entry_not_below_entry [OF assms(4), of oldPath x] by simp
    have "oldPath @ ''/'' @ name \<in> set (files f1)"
      using r Cons.prems(3) _ nb by (rule renameSync_keeps_file) (use False in simp)
    moreover have "name \<in> set names" using Cons.prems(2) False by simp
    ultimately show ?thesis using Cons.IH [OF m] by simp
  qed
qed

lemma entry_name_entry:
  "name \<noteq> [] \<Longrightarrow> CHR ''/'' \<notin> set name \<Longrightarrow> entry_name p (p @ ''/'' @ name) = Some name"
  by (simp add: entry_name_def below_def starts_with_def)

lemma map_filter_member:
  "x \<in> set xs \<Longrightarrow> f x = Some y \<Longrightarrow> y \<in> set (List.map_filter f xs)"
  by (induction xs) (auto split: option.splits)

lemma set_insert_name: "set (insert_name x ys) = insert x (set ys)"
  by (induction ys) auto

lemma set_sort_names: "set (sort_names xs) = set xs"
  by (induction xs) (simp_all add: sort_names_def set_insert_name)

lemma entries_member:
  assumes "p @ ''/'' @ name \<in> set (files f)" and "name \<noteq> []" and "CHR ''/'' \<notin> set name"
  shows "name \<in> set (entries f p)"
proof -
  have "p @ ''/'' @ name \<in> set (files f @ dirs f)"
    using assms(1) by simp
  then have "name \<in> set (List.map_filter (entry_name p) (files f @ dirs f))"
    using entry_name_entry [OF assms(2,3), of p] by (rule map_filter_member)
  then show ?thesis
    by (simp add: entries_def set_sort_names)
qed

lemma mkdirSync_files: "mkdirSync f p = Inr f1 \<Longrightarrow> files f1 = files f"
  by (auto simp: mkdirSync_def split: if_splits)

lemma rmdirSync_files: "rmdirSync f p = Inr f1 \<Longrightarrow> files f1 = files f"
  by (auto simp: rmdirSync_def split: if_splits)


lemma set_collapse_spec: "set (collapse_spec s) \<subseteq> set s"
  by (induction s rule: collapse_spec.induct) auto

lemma set_strip_spec: "set (strip_spec s) \<subseteq> set s"
proof -
  have "set (strip_spec s) \<subseteq> set (dropWhile (\<lambda>c. c = underscore) s)"
    unfolding strip_spec_def using set_dropWhileD by fastforce
  also have "\<dots> \<subseteq> set s"
    using set_dropWhileD by fastforce
  finally show ?thesis .
qed

lemma toLowerCase_char_slash: "toLowerCase_char c = CHR ''/'' \<Longrightarrow> c = CHR ''/''"
proof -
  assume a: "toLowerCase_char c = CHR ''/''"
  have lt: "code_unit c < 256" by (rule code_unit_less)
  have ne: "char_of (code_unit c + 32) \<noteq> CHR ''/''" if "65 \<le> code_unit c"
  proof
    assume "char_of (code_unit c + 32) = CHR ''/''"
    then have "(of_char (char_of (code_unit c + 32) :: char) :: nat) = of_char (CHR ''/'')"
      by simp
    then have "(code_unit c + 32) mod 256 = 47"
      by simp
    then show False
      using lt that by (simp add: mod_if split: if_splits)
  qed
  show ?thesis
    using a ne by (auto simp: toLowerCase_char_def Let_def split: if_splits)
qed

lemma sanitizeFolderName_no_slash: "CHR ''/'' \<notin> set (sanitizeFolderName t)"
proof
  assume "CHR ''/'' \<in> set (sanitizeFolderName t)"
  then obtain c where c: "c \<in> set (take 50 (strip_spec (collapse_spec (replace_outside_class t))))"
    and l: "toLowerCase_char c = CHR ''/''"
    by (auto simp: sanitizeFolderName_def toLowerCase_def replace_runs_collapse
        remove_edge_runs_strip)
  have "c \<in> set (replace_outside_class t)"
    using c set_take_subset set_strip_spec set_collapse_spec by fast
  then have "in_class c \<or> c = underscore"
    by (auto simp: replace_outside_class_def split: if_splits)
  moreover have "c = CHR ''/''" using l by (rule toLowerCase_char_slash)
  ultimately show False
    by (simp add: in_class_def code_unit_def)
qed

lemma renameGameFolder_moved_file:
  assumes "renameGameFolder root f oldTitle newTitle = (Moved a b, f')"
    and "uploads_path root (sanitizeFolderName oldTitle) @ ''/'' @ name \<in> set (files f)"
    and "name \<noteq> []" and "CHR ''/'' \<notin> set name"
    and "sanitizeFolderName oldTitle \<noteq> []" and "sanitizeFolderName newTitle \<noteq> []"
  shows "uploads_path root (sanitizeFolderName newTitle) @ ''/'' @ name \<in> set (files f')"
proof -
  let ?ta = "sanitizeFolderName oldTitle" and ?tb = "sanitizeFolderName newTitle"
  let ?old = "uploads_path root ?ta" and ?new = "uploads_path root ?tb"
  have ne: "?ta \<noteq> ?tb"
    using assms(1) by (auto simp: renameGameFolder_def Let_def split: if_splits)
  obtain f1 where f1: "(if existsSync f ?new then Inr f else mkdirSync f ?new) = Inr f1"
    using assms(1)
    by (auto simp: renameGameFolder_def Let_def split: if_splits sum.splits)
  have files1: "files f1 = files f"
    using f1 by (auto dest: mkdirSync_files split: if_splits)
  obtain names where names: "readdirSync f1 ?old = Inr names"
    using assms(1) f1
    by (auto simp: renameGameFolder_def Let_def split: if_splits sum.splits)
  then have names_eq: "names = entries f1 ?old"
    by (auto simp: readdirSync_def split: if_splits)
  obtain f2 where f2: "move_files f1 ?old ?new names = (None, f2)"
    and f': "files f' = files f2"
    using assms(1) f1 names
    by (auto simp: renameGameFolder_def Let_def dest: rmdirSync_files
        split: if_splits sum.splits prod.splits option.splits)
  have mem: "name \<in> set names"
    unfolding names_eq using assms(2,3,4) by (intro entries_member) (simp_all add: files1)
  have sa: "CHR ''/'' \<notin> set ?ta" and sb: "CHR ''/'' \<notin> set ?tb"
    by (rule sanitizeFolderName_no_slash)+
  have old: "?old = (root @ ''/uploads/'') @ ?ta" and new: "?new = (root @ ''/uploads/'') @ ?tb"
    using assms(5,6) by (simp_all add: uploads_path_def)
  have d: "\<And>x. ?new @ ''/'' @ name \<noteq> ?old @ ''/'' @ x"
    using entry_paths_differ [OF sb sa ne [symmetric], of "root @ ''/uploads/''"]
    unfolding old new by simp
  have nb: "\<And>x. \<not> below (?old @ ''/'' @ x) (?new @ ''/'' @ name)"
    using entry_not_below_other [OF sa sb ne, of "root @ ''/uploads/''"]
    unfolding old new by simp
  have o: "?old @ ''/'' @ name \<in> set (files f1)"
    using assms(2) files1 by simp
  have "?new @ ''/'' @ name \<in> set (files f2)"
    using move_files_moves [OF f2 mem o assms(4)] d nb by blast
  then show ?thesis by (simp add: f')
qed

lemma upload_url_append: "upload_url token [] @ rest = upload_url token rest"
  by (simp add: upload_url_def)

lemma upload_url_nonempty: "upload_url token rest \<noteq> []"
  by (simp add: upload_url_def base_url_def)

lemma references_folder_upload: "references_folder token (Some (upload_url token name))"
  using starts_with_append [of "upload_url token []" name]
  by (simp add: references_folder_def upload_url_append)

lemma references_folder_rewritten:
  assumes "references_folder (sanitizeFolderName a) c"
  shows "references_folder (sanitizeFolderName b) (string_or_null (rewrite_path a b (of_column c)))"
proof (cases c)
  case None
  then show ?thesis
    by (simp add: of_column_def rewrite_path_def string_or_null_def references_folder_def)
next
  case (Some u)
  then have "starts_with (upload_url (sanitizeFolderName a) []) u"
    using assms by (simp add: references_folder_def)
  then have "u = upload_url (sanitizeFolderName a) [] @ drop (length (upload_url (sanitizeFolderName a) [])) u"
    unfolding starts_with_def by (metis append_take_drop_id)
  then obtain rest where u: "u = upload_url (sanitizeFolderName a) rest"
    using upload_url_append by metis
  have "rewrite_path a b (of_column c) = Val (upload_url (sanitizeFolderName b) rest)"
    unfolding Some u of_column_def rewrite_path_def option.case js.case rewrite_upload_url
    using upload_url_nonempty by simp
  then have "string_or_null (rewrite_path a b (of_column c))
             = Some (upload_url (sanitizeFolderName b) rest)"
    by (simp add: string_or_null_def upload_url_nonempty)
  then show ?thesis by (simp add: references_folder_upload)
qed

lemma references_folder_kept:
  assumes "references_folder token c"
  shows "references_folder token (string_or_null (of_column c))"
  using assms
  by (cases c) (simp_all add: of_column_def string_or_null_def references_folder_def)

lemma stored_path_references:
  assumes "body_title req = Some t" and "t \<noteq> []"
    and "references_folder (sanitizeFolderName (game.title g0)) c"
  shows "references_folder (sanitizeFolderName t)
           (stored_path (title_changed req g0) (game.title g0) t c upload)"
proof (cases upload)
  case (Some name)
  then show ?thesis by (simp add: stored_path_def references_folder_upload)
next
  case None
  show ?thesis
  proof (cases "title_changed req g0")
    case True
    then show ?thesis
      using assms(3) by (simp add: stored_path_def None references_folder_rewritten)
  next
    case False
    then have "game.title g0 = t"
      using assms(1,2) by (simp add: title_changed_def)
    then show ?thesis
      using assms(3) False by (simp add: stored_path_def None references_folder_kept)
  qed
qed

lemma renameGameFolder_not_skipped:
  assumes "existsSync f (uploads_path root (sanitizeFolderName a))"
    and "sanitizeFolderName a \<noteq> sanitizeFolderName b"
  shows "fst (renameGameFolder root f a b) \<noteq> No_change"
  using assms
  by (auto simp: renameGameFolder_def Let_def split: sum.splits prod.splits option.splits)

lemma local_path_uploads_path:
  "token \<noteq> [] \<Longrightarrow> local_path root (upload_url token name) = uploads_path root token @ ''/'' @ name"
  by (simp add: local_path_upload_url uploads_path_def)

text \<open>The file a stored path references, after the rename block of an update.\<close>

lemma rename_step_file:
  assumes "rename_step root f req g0 g = (g1, f1)"
    and "body_title req = Some t"
    and "\<And>e. fst (renameGameFolder root f (game.title g0) t) \<noteq> Caught e"
    and "sanitizeFolderName (game.title g0) \<noteq> []" and "sanitizeFolderName t \<noteq> []"
    and "existsSync f (uploads_path root (sanitizeFolderName (game.title g0)))"
    and "name \<noteq> []" and "CHR ''/'' \<notin> set name"
    and "local_path root (upload_url (sanitizeFolderName (game.title g0)) name) \<in> set (files f)"
  shows "local_path root (upload_url (sanitizeFolderName t) name) \<in> set (files f1)"
proof (cases "title_changed req g0")
  case False
  then have "t = [] \<or> game.title g0 = t"
    using assms(2) by (simp add: title_changed_def)
  then have "game.title g0 = t" using assms(5) by (auto simp: sanitizeFolderName_def toLowerCase_def remove_edge_runs_def replace_outside_class_def)
  moreover have "f1 = f" using assms(1) False by (simp add: rename_step_eq)
  ultimately show ?thesis using assms(9) by simp
next
  case True
  then have f1: "f1 = snd (renameGameFolder root f (game.title g0) t)"
    using assms(1,2) by (simp add: rename_step_eq field_or_empty_def)
  show ?thesis
  proof (cases "sanitizeFolderName (game.title g0) = sanitizeFolderName t")
    case True
    then have "renameGameFolder root f (game.title g0) t = (No_change, f)"
      by (simp add: renameGameFolder_skipped)
    then show ?thesis using assms(9) True f1 by simp
  next
    case False
    obtain r where r: "renameGameFolder root f (game.title g0) t = (r, f1)"
      using f1 by (cases "renameGameFolder root f (game.title g0) t") simp
    have "r \<noteq> No_change"
      using renameGameFolder_not_skipped [OF assms(6) False] r by simp
    moreover have "\<And>e. r \<noteq> Caught e" using assms(3) r by simp
    ultimately obtain a b where "r = Moved a b" by (cases r) auto
    then have m: "renameGameFolder root f (game.title g0) t = (Moved a b, f1)"
      using r by simp
    have "uploads_path root (sanitizeFolderName t) @ ''/'' @ name \<in> set (files f1)"
      using m _ assms(7,8,4,5)
      by (rule renameGameFolder_moved_file)
         (use assms(9) in \<open>simp add: local_path_uploads_path [OF assms(4)]\<close>)
    then show ?thesis by (simp add: local_path_uploads_path [OF assms(5)])
  qed
qed


lemma update_route_moved_example:
  "update_route example_root example_world rename_request
   = (OK ''Game updated successfully'', moved_world)"
  by code_simp

lemma renameGameFolder_moved_example:
  "fst (renameGameFolder example_root (fs example_world) ''Old Game'' ''New Game'')
   = Moved ''/app/uploads/old_game'' ''/app/uploads/new_game''"
  by code_simp


lemma upload_fields_none:
  "part_coverArt req = None \<Longrightarrow> part_gameplayImage req = None
   \<Longrightarrow> upload_fields root f req = (Inr no_files, f)"
  by (simp add: upload_fields_def no_files_def)

lemma update_route_no_parts:
  "part_coverArt req = None \<Longrightarrow> part_gameplayImage req = None
   \<Longrightarrow> update_route root w req = update_handler root w req no_files"
  by (simp add: update_route_def upload_fields_none)

lemma handle_file_name:
  "handle_file root f req fieldname part = (Inr name, f1) \<Longrightarrow> name = stored_filename fieldname part"
  by (auto simp: handle_file_def Let_def split: sum.splits prod.splits)

lemma upload_fields_files:
  assumes "upload_fields root f req = (Inr fl, f1)"
  shows "files_coverArt fl = map_option (stored_filename ''coverArt'') (part_coverArt req)"
    and "files_gameplayImage fl
         = map_option (stored_filename ''gameplayImage'') (part_gameplayImage req)"
  using assms
  by (auto simp: upload_fields_def dest!: handle_file_name
      split: option.splits sum.splits prod.splits)

lemma update_route_OK_inv:
  assumes "update_route root w req = (OK msg, w')"
  obtains fl f0 where "upload_fields root (fs w) req = (Inr fl, f0)"
    and "update_handler root (w\<lparr>fs := f0\<rparr>) req fl = (OK msg, w')"
  using assms by (auto simp: update_route_def split: prod.splits sum.splits)

lemma update_route_stored:
  assumes "update_route root w req = (OK msg, w')"
  obtains g0 t r' where "getGameById (db w) (params_id req) = Inr (Some g0)"
    and "body_title req = Some t"
    and "getGameById (db w') (params_id req) = Inr (Some r')"
    and "game.title r' = t"
    and "game.coverArtPath r' =
           stored_path (title_changed req g0) (game.title g0) t (game.coverArtPath g0)
             (map_option (stored_filename ''coverArt'') (part_coverArt req))"
    and "game.gameplayImagePath r' =
           stored_path (title_changed req g0) (game.title g0) t (game.gameplayImagePath g0)
             (map_option (stored_filename ''gameplayImage'') (part_gameplayImage req))"
proof -
  from assms obtain fl f0 where u: "upload_fields root (fs w) req = (Inr fl, f0)"
    and h: "update_handler root (w\<lparr>fs := f0\<rparr>) req fl = (OK msg, w')"
    by (rule update_route_OK_inv)
  from h obtain g0 t r' where a: "getGameById (db (w\<lparr>fs := f0\<rparr>)) (params_id req) = Inr (Some g0)"
    "body_title req = Some t"
    "getGameById (db w') (params_id req) = Inr (Some r')"
    "game.title r' = t"
    "game.coverArtPath r' =
           stored_path (title_changed req g0) (game.title g0) t (game.coverArtPath g0)
             (files_coverArt fl)"
    "game.gameplayImagePath r' =
           stored_path (title_changed req g0) (game.title g0) t (game.gameplayImagePath g0)
             (files_gameplayImage fl)"
    by (rule update_handler_stored)
  show ?thesis
    using a that [of g0 t r'] by (simp add: upload_fields_files [OF u])
qed

text \<open>A file in the folder of the new title stays where it is during the migration,
  whatever the outcome.\<close>

lemma renameGameFolder_keeps_file:
  assumes "renameGameFolder root f oldTitle newTitle = (r, f')"
    and "sanitizeFolderName oldTitle \<noteq> []" and "sanitizeFolderName newTitle \<noteq> []"
    and "uploads_path root (sanitizeFolderName newTitle) @ ''/'' @ name \<in> set (files f)"
  shows "uploads_path root (sanitizeFolderName newTitle) @ ''/'' @ name \<in> set (files f')"
proof (cases "existsSync f (uploads_path root (sanitizeFolderName oldTitle))
              \<and> sanitizeFolderName oldTitle \<noteq> sanitizeFolderName newTitle")
  case False
  then have "f' = f"
    using assms(1) by (auto simp: renameGameFolder_def Let_def)
  then show ?thesis using assms(4) by simp
next
  case True
  let ?ta = "sanitizeFolderName oldTitle" and ?tb = "sanitizeFolderName newTitle"
  let ?old = "uploads_path root ?ta" and ?new = "uploads_path root ?tb"
  let ?p = "?new @ ''/'' @ name"
  have ne: "?ta \<noteq> ?tb" using True by simp
  have sa: "CHR ''/'' \<notin> set ?ta" and sb: "CHR ''/'' \<notin> set ?tb"
    by (rule sanitizeFolderName_no_slash)+
  have old: "?old = (root @ ''/uploads/'') @ ?ta" and new: "?new = (root @ ''/uploads/'') @ ?tb"
    using assms(2,3) by (simp_all add: uploads_path_def)
  have d: "\<And>x. ?p \<noteq> ?old @ ''/'' @ x"
    using entry_paths_differ [OF sb sa ne [symmetric], of "root @ ''/uploads/''"]
    unfolding old new by simp
  have nb: "\<And>x. \<not> below (?old @ ''/'' @ x) ?p"
    using entry_not_below_other [OF sa sb ne, of "root @ ''/uploads/''"]
    unfolding old new by simp
  show ?thesis
  proof (cases "if existsSync f ?new then Inr f else mkdirSync f ?new")
    case (Inl e)
    then have "f' = f"
      using assms(1) True by (simp add: renameGameFolder_def Let_def)
    then show ?thesis using assms(4) by simp
  next
    case (Inr f1)
    have files1: "files f1 = files f"
      using Inr by (auto dest: mkdirSync_files split: if_splits)
    show ?thesis
    proof (cases "readdirSync f1 ?old")
      case (Inl e)
      then have "f' = f1"
        using assms(1) True Inr by (simp add: renameGameFolder_def Let_def)
      then show ?thesis using assms(4) files1 by simp
    next
      case names: (Inr names)
      obtain r2 f2 where m: "move_files f1 ?old ?new names = (r2, f2)"
        by (cases "move_files f1 ?old ?new names")
      have p2: "?p \<in> set (files f2)"
        using m _ d nb by (rule move_files_keeps) (use assms(4) files1 in simp)
      have "files f' = files f2"
        using assms(1) True Inr names m
        by (auto simp: renameGameFolder_def Let_def dest: rmdirSync_files
            split: option.splits sum.splits)
      then show ?thesis using p2 by simp
    qed
  qed
qed

lemma write_file_adds: "write_file f p = Inr f1 \<Longrightarrow> p \<in> set (files f1)"
  by (auto simp: write_file_def split: if_splits)

lemma write_file_keeps: "write_file f p = Inr f1 \<Longrightarrow> q \<in> set (files f) \<Longrightarrow> q \<in> set (files f1)"
  by (auto simp: write_file_def split: if_splits)

lemma destination_files:
  "destination root f req part = Inr (uploadDir, f1)
   \<Longrightarrow> files f1 = files f \<and> uploadDir = uploads_path root (destination_folder req part)"
  by (auto simp: destination_def Let_def dest: mkdirSync_files split: if_splits sum.splits)

lemma handle_file_stores:
  assumes "handle_file root f req fieldname part = (Inr name, f1)"
  shows "uploads_path root (destination_folder req part) @ ''/'' @ stored_filename fieldname part
           \<in> set (files f1)"
    and "q \<in> set (files f) \<Longrightarrow> q \<in> set (files f1)"
  using assms
  by (auto simp: handle_file_def Let_def
      dest!: destination_files dest: write_file_adds write_file_keeps
      split: sum.splits prod.splits)

lemma upload_fields_stores:
  assumes "upload_fields root f req = (Inr fl, f1)"
  shows "part_coverArt req = Some part
         \<Longrightarrow> uploads_path root (destination_folder req part) @ ''/''
               @ stored_filename ''coverArt'' part \<in> set (files f1)"
    and "part_gameplayImage req = Some part
         \<Longrightarrow> uploads_path root (destination_folder req part) @ ''/''
               @ stored_filename ''gameplayImage'' part \<in> set (files f1)"
    and "q \<in> set (files f) \<Longrightarrow> q \<in> set (files f1)"
  using assms
  by (auto simp: upload_fields_def
      dest: handle_file_stores
      split: option.splits sum.splits prod.splits)

lemma destination_folder_title:
  "title_before part \<Longrightarrow> body_title req = Some t \<Longrightarrow> t \<noteq> []
   \<Longrightarrow> destination_folder req part = sanitizeFolderName t"
  by (simp add: destination_folder_def)

lemma unlinkSync_keeps:
  "unlinkSync f p = Inr f1 \<Longrightarrow> q \<in> set (files f) \<Longrightarrow> q \<noteq> p \<Longrightarrow> q \<in> set (files f1)"
  by (auto simp: unlinkSync_def split: if_splits)

lemma delete_old_file_keeps:
  assumes "delete_old_file root f c = Inr f1" and "q \<in> set (files f)"
    and "\<And>u. c = Some u \<Longrightarrow> local_path root u \<noteq> q"
  shows "q \<in> set (files f1)"
  using assms
  by (auto simp: delete_old_file_def unlink_if_exists_def dest: unlinkSync_keeps
      split: option.splits if_splits)

lemma upload_step_keeps:
  assumes "upload_step root f fl g0 folder g = (Inr g', f')" and "q \<in> set (files f)"
    and "\<And>u. game.coverArtPath g0 = Some u \<Longrightarrow> local_path root u \<noteq> q"
    and "\<And>u. game.gameplayImagePath g0 = Some u \<Longrightarrow> local_path root u \<noteq> q"
  shows "q \<in> set (files f')"
proof -
  obtain f1 where f1: "(case files_coverArt fl of None \<Rightarrow> Inr f
      | Some name \<Rightarrow> delete_old_file root f (game.coverArtPath g0)) = Inr f1"
    and f': "(case files_gameplayImage fl of None \<Rightarrow> Inr f1
      | Some name \<Rightarrow> delete_old_file root f1 (game.gameplayImagePath g0)) = Inr f'"
    using assms(1)
    by (auto simp: upload_step_def split: option.splits sum.splits prod.splits)
  have "q \<in> set (files f1)"
    using f1 assms(2,3) by (auto dest: delete_old_file_keeps split: option.splits)
  then show ?thesis
    using f' assms(4) by (auto dest: delete_old_file_keeps split: option.splits)
qed

lemma update_route_upload_example:
  "update_route example_root example_world upload_request
   = (OK ''Game updated successfully'', uploaded_world)"
  by code_simp

lemma update_route_early_upload_example:
  "update_route example_root example_world early_upload_request
   = (OK ''Game updated successfully'', early_uploaded_world)"
  by code_simp

lemma update_route_unknown_example:
  "update_route example_root example_world unknown_upload_request
   = (Not_found ''Game not found'', orphan_world)"
  by code_simp

lemma update_route_bare_example:
  "update_route example_root bare_world rename_request
   = (OK ''Game updated successfully'', bare_result)"
  by code_simp

lemma update_route_empty_title_example:
  "update_route example_root example_world empty_title_request
   = (OK ''Game updated successfully'', untitled_world)"
  by code_simp

lemma update_route_retitled_example:
  "update_route example_root untitled_world rename_request
   = (OK ''Game updated successfully'', retitled_world)"
  by code_simp

section \<open>The claims\<close>

text \<open>
  Claim C5. The sanitizer is a total function of the title: it replaces each character
  outside \<open>[A-Za-z0-9-]\<close> with an underscore, collapses runs of underscores to one,
  strips leading and trailing underscores, truncates to 50 characters and lowercases;
  \<open>My Game!\<close> gives \<open>my_game\<close> and the empty title gives the empty token.
\<close>

theorem sanitizeFolderName_spec:
  "sanitizeFolderName t = sanitize_spec t
   \<and> sanitizeFolderName ''My Game!'' = ''my_game''
   \<and> sanitizeFolderName [] = []"
proof -
  have "sanitizeFolderName t = sanitize_spec t"
    by (simp add: sanitizeFolderName_def sanitize_spec_def toLowerCase_def
        replace_outside_class_def replace_runs_collapse remove_edge_runs_strip)
  moreover have "sanitizeFolderName ''My Game!'' = ''my_game''"
    by code_simp
  moreover have "sanitizeFolderName [] = []"
    by code_simp
  ultimately show ?thesis by simp
qed

theorem sanitizeFolderName_spec_witness:
  "sanitizeFolderName ''Chrono  Trigger'' = sanitize_spec ''Chrono  Trigger''
   \<and> sanitize_spec ''Chrono  Trigger'' = ''chrono_trigger''"
proof -
  have "sanitizeFolderName ''Chrono  Trigger'' = sanitize_spec ''Chrono  Trigger''"
    using sanitizeFolderName_spec [of "''Chrono  Trigger''"] by simp
  moreover have "sanitize_spec ''Chrono  Trigger'' = ''chrono_trigger''"
    by code_simp
  ultimately show ?thesis by simp
qed

text \<open>
  Claim C9. After every successful \<open>updateGame\<close> the row is normalized where it is
  written, whatever the merged values: a falsy link, platform or notes is stored as the
  empty string, a falsy rageRating or strikes as 0, a falsy coverArtPath or
  gameplayImagePath as NULL (so a path provided as the empty string is stored as NULL),
  and a falsy additionalPhotos or additionalNotes as the encoded empty list.
\<close>

theorem updateGame_write_normalization:
  assumes "getGameById d i = Inr (Some g0)" and "updateGame d i g = Inr (d', n)"
  shows "\<exists>r. map_of (games d') i = Some r
     \<and> (\<not> truthy_string (gameData.link (mergedData g g0)) \<longrightarrow> row.link r = Some [])
     \<and> (\<not> truthy_string (gameData.platform (mergedData g g0)) \<longrightarrow> row.platform r = Some [])
     \<and> (\<not> truthy_string (gameData.notes (mergedData g g0)) \<longrightarrow> row.notes r = Some [])
     \<and> (\<not> truthy_number (gameData.rageRating (mergedData g g0)) \<longrightarrow> row.rageRating r = Some 0)
     \<and> (\<not> truthy_number (gameData.strikes (mergedData g g0)) \<longrightarrow> row.strikes r = Some 0)
     \<and> (\<not> truthy_string (gameData.coverArtPath (mergedData g g0))
          \<longrightarrow> row.coverArtPath r = None)
     \<and> (\<not> truthy_string (gameData.gameplayImagePath (mergedData g g0))
          \<longrightarrow> row.gameplayImagePath r = None)
     \<and> (gameData.coverArtPath g = Val [] \<longrightarrow> row.coverArtPath r = None)
     \<and> (gameData.gameplayImagePath g = Val [] \<longrightarrow> row.gameplayImagePath r = None)
     \<and> (\<not> truthy_array (gameData.additionalPhotos (mergedData g g0))
          \<longrightarrow> row.additionalPhotos r = Some ''[]'')
     \<and> (\<not> truthy_array (gameData.additionalNotes (mergedData g g0))
          \<longrightarrow> row.additionalNotes r = Some ''[]'')"
proof -
  obtain g1 t where g1: "getGameById d i = Inr (Some g1)"
    and t: "gameData.title (mergedData g g1) = Val t"
    and d': "d' = d\<lparr>games := update_rows i t (mergedData g g1) (games d)\<rparr>"
    using assms(2) by (rule updateGame_success)
  have eq: "g1 = g0" using g1 assms(1) by simp
  obtain r0 where r0: "map_of (games d) i = Some r0"
    using assms(1) by (rule getGameById_Some_row)
  let ?m = "mergedData g g0"
  have r: "map_of (games d') i = Some (bound_row t ?m (row.dateAdded r0))"
    by (simp add: d' eq map_of_update_rows r0)
  have c: "gameData.coverArtPath g = Val [] \<Longrightarrow> gameData.coverArtPath ?m = Val []"
    and p: "gameData.gameplayImagePath g = Val [] \<Longrightarrow> gameData.gameplayImagePath ?m = Val []"
    by (simp_all add: mergedData_def provided_or_def)
  have e: "\<not> truthy_string x \<Longrightarrow> string_or_empty x = []" for x
    by (simp add: truthy_string_def string_or_empty_def split: js.splits)
  have z: "\<not> truthy_number y \<Longrightarrow> number_or_zero y = 0" for y
    by (simp add: truthy_number_def number_or_zero_def split: js.splits)
  have u: "\<not> truthy_string x \<Longrightarrow> string_or_null x = None" for x
    by (simp add: truthy_string_def string_or_null_def split: js.splits)
  have ep: "\<not> truthy_array ps \<Longrightarrow> encode_photos ps = ''[]''" for ps
    by (simp add: truthy_array_def encode_photos_def split: js.splits)
  have en: "\<not> truthy_array ns \<Longrightarrow> encode_notes ns = ''[]''" for ns
    by (simp add: truthy_array_def encode_notes_def split: js.splits)
  have v: "string_or_null (Val []) = None"
    by (simp add: string_or_null_def)
  show ?thesis
    unfolding r by (simp add: bound_row_def e z u ep en v c p)
qed


theorem updateGame_write_normalization_witness:
  "getGameById example_db 1 = Inr (Some example_game)
   \<and> (\<exists>d' n r.
         updateGame example_db 1
           (no_fields\<lparr>gameData.link := Null, gameData.rageRating := Val 0,
              gameData.coverArtPath := Val [], gameData.additionalPhotos := Null\<rparr>)
           = Inr (d', n)
       \<and> map_of (games d') 1 = Some r
       \<and> row.link r = Some [] \<and> row.rageRating r = Some 0
       \<and> row.coverArtPath r = None \<and> row.additionalPhotos r = Some ''[]'')"
proof -
  let ?p = "no_fields\<lparr>gameData.link := Null, gameData.rageRating := Val 0,
              gameData.coverArtPath := Val [], gameData.additionalPhotos := Null\<rparr>"
  have t: "gameData.title (mergedData ?p example_game) = Val ''Old Game''"
    by (simp add: mergedData_def provided_or_def no_fields_def example_game_def)
  note u = updateGame_found [OF getGameById_example t]
  have f: "\<not> truthy_string (gameData.link (mergedData ?p example_game))"
    "\<not> truthy_number (gameData.rageRating (mergedData ?p example_game))"
    "gameData.coverArtPath ?p = Val []"
    "\<not> truthy_array (gameData.additionalPhotos (mergedData ?p example_game))"
    by (simp_all add: mergedData_def provided_or_def no_fields_def truthy_string_def
        truthy_number_def truthy_array_def)
  show ?thesis
    using updateGame_write_normalization [OF getGameById_example u] f u getGameById_example
    by blast
qed

text \<open>
  Claim C2, as stated: the stored record equals the existing one with exactly the keys
  of the payload replaced by the payload's values. It fails for a cover path provided as
  the empty string: NULL is stored, and read back, in its place.
\<close>

theorem updateGame_merge_counterexample:
  "gameData.coverArtPath empty_cover_payload = Val []
   \<and> game.coverArtPath example_game = Some old_cover
   \<and> getGameById example_db 1 = Inr (Some example_game)
   \<and> updateGame example_db 1 empty_cover_payload
       = Inr (example_db\<lparr>games := [(1, example_row\<lparr>row.coverArtPath := None\<rparr>)]\<rparr>, 1)
   \<and> getGameById (example_db\<lparr>games := [(1, example_row\<lparr>row.coverArtPath := None\<rparr>)]\<rparr>) 1
       = Inr (Some (example_game\<lparr>game.coverArtPath := None\<rparr>))"
  by code_simp

text \<open>
  Claim C2, amended. \<open>updateGame\<close> on an existing record succeeds unless the payload's
  title is \<open>null\<close>, and the record read back has, for every key the payload provides
  (its value is not \<open>undefined\<close>), the payload's value, a falsy one included, and for
  every other key the stored value, both after the normalization of the write: \<open>null\<close>
  becomes the empty string, 0, \<open>false\<close>, NULL or the empty list, and an empty path
  becomes NULL. The id, the date and every other record are unchanged.
\<close>

theorem updateGame_merge:
  assumes "getGameById d i = Inr (Some r)" and "gameData.title p \<noteq> Null"
  shows "\<exists>d' n r'. updateGame d i p = Inr (d', n) \<and> getGameById d' i = Inr (Some r')
     \<and> game_id r' = i \<and> game.dateAdded r' = game.dateAdded r
     \<and> game.title r' = (case gameData.title p of Val t \<Rightarrow> t | _ \<Rightarrow> game.title r)
     \<and> game.link r' = Some (case gameData.link p of
            Val s \<Rightarrow> s | Null \<Rightarrow> []
          | Undefined \<Rightarrow> (case game.link r of None \<Rightarrow> [] | Some s \<Rightarrow> s))
     \<and> game.rageRating r' = (case gameData.rageRating p of
            Val k \<Rightarrow> k | Null \<Rightarrow> 0 | Undefined \<Rightarrow> game.rageRating r)
     \<and> game.finished r' = (case gameData.finished p of
            Val b \<Rightarrow> b | Null \<Rightarrow> False | Undefined \<Rightarrow> game.finished r)
     \<and> game.is_checked r' = (case gameData.is_checked p of
            Val b \<Rightarrow> b | Null \<Rightarrow> False | Undefined \<Rightarrow> game.is_checked r)
     \<and> game.platform r' = Some (case gameData.platform p of
            Val s \<Rightarrow> s | Null \<Rightarrow> []
          | Undefined \<Rightarrow> (case game.platform r of None \<Rightarrow> [] | Some s \<Rightarrow> s))
     \<and> game.strikes r' = (case gameData.strikes p of
            Val k \<Rightarrow> k | Null \<Rightarrow> 0 | Undefined \<Rightarrow> game.strikes r)
     \<and> game.notes r' = Some (case gameData.notes p of
            Val s \<Rightarrow> s | Null \<Rightarrow> []
          | Undefined \<Rightarrow> (case game.notes r of None \<Rightarrow> [] | Some s \<Rightarrow> s))
     \<and> game.coverArtPath r' = (case gameData.coverArtPath p of
            Val s \<Rightarrow> if s = [] then None else Some s | Null \<Rightarrow> None
          | Undefined \<Rightarrow> (case game.coverArtPath r of
                None \<Rightarrow> None | Some s \<Rightarrow> if s = [] then None else Some s))
     \<and> game.gameplayImagePath r' = (case gameData.gameplayImagePath p of
            Val s \<Rightarrow> if s = [] then None else Some s | Null \<Rightarrow> None
          | Undefined \<Rightarrow> (case game.gameplayImagePath r of
                None \<Rightarrow> None | Some s \<Rightarrow> if s = [] then None else Some s))
     \<and> game.additionalPhotos r' = (case gameData.additionalPhotos p of
            Val ps \<Rightarrow> ps | Null \<Rightarrow> [] | Undefined \<Rightarrow> game.additionalPhotos r)
     \<and> game.additionalNotes r' = (case gameData.additionalNotes p of
            Val ns \<Rightarrow> ns | Null \<Rightarrow> [] | Undefined \<Rightarrow> game.additionalNotes r)
     \<and> (\<forall>j. j \<noteq> i \<longrightarrow> getGameById d' j = getGameById d j)"
proof -
  obtain t where t: "gameData.title (mergedData p r) = Val t"
    and t': "t = (case gameData.title p of Val t \<Rightarrow> t | _ \<Rightarrow> game.title r)"
    using assms(2) by (cases "gameData.title p") (simp_all add: mergedData_def provided_or_def)
  let ?m = "mergedData p r"
  let ?d = "d\<lparr>games := update_rows i t ?m (games d)\<rparr>"
  have se: "string_or_empty (provided_or a (of_column b))
        = (case a of Val s \<Rightarrow> s | Null \<Rightarrow> []
           | Undefined \<Rightarrow> (case b of None \<Rightarrow> [] | Some s \<Rightarrow> s))" for a b
    by (simp add: string_or_empty_def provided_or_def of_column_def split: js.splits option.splits)
  have sn: "string_or_null (provided_or a (of_column b))
        = (case a of Val s \<Rightarrow> if s = [] then None else Some s | Null \<Rightarrow> None
           | Undefined \<Rightarrow> (case b of None \<Rightarrow> None | Some s \<Rightarrow> if s = [] then None else Some s))"
    for a b
    by (simp add: string_or_null_def provided_or_def of_column_def split: js.splits option.splits)
  have nz: "number_or_zero (provided_or a (Val k))
        = (case a of Val k' \<Rightarrow> k' | Null \<Rightarrow> 0 | Undefined \<Rightarrow> k)" for a k
    by (simp add: number_or_zero_def provided_or_def split: js.splits)
  have tb: "truthy_boolean (provided_or a (Val b))
        = (case a of Val b' \<Rightarrow> b' | Null \<Rightarrow> False | Undefined \<Rightarrow> b)" for a b
    by (simp add: truthy_boolean_def provided_or_def split: js.splits)
  have ls: "(case provided_or a (Val xs) of Val ys \<Rightarrow> ys | _ \<Rightarrow> [])
        = (case a of Val ys \<Rightarrow> ys | Null \<Rightarrow> [] | Undefined \<Rightarrow> xs)" for a and xs :: "'a list"
    by (simp add: provided_or_def split: js.splits)
  have u: "updateGame d i p = Inr (?d, length (filter (\<lambda>jr. fst jr = i) (games d)))"
    using assms(1) t by (rule updateGame_found)
  have g: "getGameById ?d i = Inr (Some
       \<lparr>game_id = i, title = t, link = Some (string_or_empty (gameData.link ?m)),
          rageRating = number_or_zero (gameData.rageRating ?m),
          finished = truthy_boolean (gameData.finished ?m),
          is_checked = truthy_boolean (gameData.is_checked ?m),
          platform = Some (string_or_empty (gameData.platform ?m)),
          strikes = number_or_zero (gameData.strikes ?m),
          notes = Some (string_or_empty (gameData.notes ?m)),
          coverArtPath = string_or_null (gameData.coverArtPath ?m),
          gameplayImagePath = string_or_null (gameData.gameplayImagePath ?m),
          dateAdded = game.dateAdded r,
          additionalPhotos = (case gameData.additionalPhotos ?m of Val ps \<Rightarrow> ps | _ \<Rightarrow> []),
          additionalNotes = (case gameData.additionalNotes ?m of Val ns \<Rightarrow> ns | _ \<Rightarrow> [])\<rparr>)"
    using assms(1) by (rule getGameById_updated)
  have o: "\<forall>j. j \<noteq> i \<longrightarrow> getGameById ?d j = getGameById d j"
    by (simp add: getGameById_updated_other)
  let ?r = "\<lparr>game_id = i, title = t, link = Some (string_or_empty (gameData.link ?m)),
          rageRating = number_or_zero (gameData.rageRating ?m),
          finished = truthy_boolean (gameData.finished ?m),
          is_checked = truthy_boolean (gameData.is_checked ?m),
          platform = Some (string_or_empty (gameData.platform ?m)),
          strikes = number_or_zero (gameData.strikes ?m),
          notes = Some (string_or_empty (gameData.notes ?m)),
          coverArtPath = string_or_null (gameData.coverArtPath ?m),
          gameplayImagePath = string_or_null (gameData.gameplayImagePath ?m),
          dateAdded = game.dateAdded r,
          additionalPhotos = (case gameData.additionalPhotos ?m of Val ps \<Rightarrow> ps | _ \<Rightarrow> []),
          additionalNotes = (case gameData.additionalNotes ?m of Val ns \<Rightarrow> ns | _ \<Rightarrow> [])\<rparr>"
  have f1: "game_id ?r = i" "game.dateAdded ?r = game.dateAdded r"
    "game.title ?r = (case gameData.title p of Val t \<Rightarrow> t | _ \<Rightarrow> game.title r)"
    by (simp_all add: t')
  have f2: "game.link ?r = Some (case gameData.link p of
            Val s \<Rightarrow> s | Null \<Rightarrow> []
          | Undefined \<Rightarrow> (case game.link r of None \<Rightarrow> [] | Some s \<Rightarrow> s))"
    "game.platform ?r = Some (case gameData.platform p of
            Val s \<Rightarrow> s | Null \<Rightarrow> []
          | Undefined \<Rightarrow> (case game.platform r of None \<Rightarrow> [] | Some s \<Rightarrow> s))"
    "game.notes ?r = Some (case gameData.notes p of
            Val s \<Rightarrow> s | Null \<Rightarrow> []
          | Undefined \<Rightarrow> (case game.notes r of None \<Rightarrow> [] | Some s \<Rightarrow> s))"
    by (simp_all add: mergedData_def se)
  have f3: "game.rageRating ?r = (case gameData.rageRating p of
            Val k \<Rightarrow> k | Null \<Rightarrow> 0 | Undefined \<Rightarrow> game.rageRating r)"
    "game.strikes ?r = (case gameData.strikes p of
            Val k \<Rightarrow> k | Null \<Rightarrow> 0 | Undefined \<Rightarrow> game.strikes r)"
    "game.finished ?r = (case gameData.finished p of
            Val b \<Rightarrow> b | Null \<Rightarrow> False | Undefined \<Rightarrow> game.finished r)"
    "game.is_checked ?r = (case gameData.is_checked p of
            Val b \<Rightarrow> b | Null \<Rightarrow> False | Undefined \<Rightarrow> game.is_checked r)"
    by (simp_all add: mergedData_def nz tb)
  have f4: "game.coverArtPath ?r = (case gameData.coverArtPath p of
            Val s \<Rightarrow> if s = [] then None else Some s | Null \<Rightarrow> None
          | Undefined \<Rightarrow> (case game.coverArtPath r of
                None \<Rightarrow> None | Some s \<Rightarrow> if s = [] then None else Some s))"
    "game.gameplayImagePath ?r = (case gameData.gameplayImagePath p of
            Val s \<Rightarrow> if s = [] then None else Some s | Null \<Rightarrow> None
          | Undefined \<Rightarrow> (case game.gameplayImagePath r of
                None \<Rightarrow> None | Some s \<Rightarrow> if s = [] then None else Some s))"
    by (simp_all add: mergedData_def sn)
  have f5: "game.additionalPhotos ?r = (case gameData.additionalPhotos p of
            Val ps \<Rightarrow> ps | Null \<Rightarrow> [] | Undefined \<Rightarrow> game.additionalPhotos r)"
    "game.additionalNotes ?r = (case gameData.additionalNotes p of
            Val ns \<Rightarrow> ns | Null \<Rightarrow> [] | Undefined \<Rightarrow> game.additionalNotes r)"
    by (simp_all add: mergedData_def ls)
  show ?thesis
    using u g f1 f2 f3 f4 f5 o by blast
qed


theorem updateGame_merge_witness:
  "\<exists>d' n r'. updateGame example_db 1 (no_fields\<lparr>gameData.finished := Val True\<rparr>) = Inr (d', n)
     \<and> getGameById d' 1 = Inr (Some r')
     \<and> game.finished r' = True \<and> game.title r' = ''Old Game'' \<and> game.rageRating r' = 5
     \<and> game.coverArtPath r' = Some old_cover"
proof -
  have h: "gameData.title (no_fields\<lparr>gameData.finished := Val True\<rparr>) \<noteq> Null"
    by (simp add: no_fields_def)
  have o: "old_cover \<noteq> []"
    by (simp add: old_cover_def)
  show ?thesis
    using updateGame_merge [OF getGameById_example h] o
    by (simp add: no_fields_def example_game_def) blast
qed

text \<open>
  Claim C10, as stated: a delete-photo request whose index does not parse as an integer
  passes the range guard and the splice removes the first photo. It fails: the guard is
  passed, but the handler then reads \<open>path\<close> of the undefined element, the TypeError
  ends the request with status 500, and no photo is removed.
\<close>

theorem delete_photo_nan_counterexample:
  "parseInt ''abc'' = NaN
   \<and> getGameById (db example_world) 1 = Inr (Some example_game)
   \<and> game.additionalPhotos example_game = [example_photo]
   \<and> delete_photo_route example_root example_world 1 ''abc''
       = (Server_error TypeError, example_world)"
proof -
  have "delete_photo_route example_root example_world 1 ''abc''
       = (Server_error TypeError, example_world)"
    by code_simp
  then show ?thesis
    using parseInt_abc getGameById_example_world by (simp add: example_game_def)
qed

text \<open>
  Claim C10, amended. When the index parameter does not parse as an integer, the range
  guard rejects neither request. The delete-photo handler then throws on reading the
  path of the undefined element: the answer is status 500 and the world is as it was.
  The delete-note handler removes the first note of the list and stores the rest.
\<close>

theorem delete_with_nan_index:
  assumes "parseInt s = NaN" and "getGameById (db w) i = Inr (Some g)"
  shows "delete_photo_route root w i s = (Server_error TypeError, w)
     \<and> (\<exists>d' g'. delete_note_route w i s = (OK ''Note deleted successfully'', w\<lparr>db := d'\<rparr>)
           \<and> getGameById d' i = Inr (Some g')
           \<and> game.additionalNotes g' = drop 1 (game.additionalNotes g)
           \<and> game.additionalPhotos g' = game.additionalPhotos g)"
proof -
  have p: "delete_photo_route root w i s = (Server_error TypeError, w)"
    using assms
    by (simp add: delete_photo_route_def jsnum_negative_def jsnum_ge_def element_def)
  let ?p = "no_fields\<lparr>gameData.additionalNotes := Val (splice_one (game.additionalNotes g) NaN)\<rparr>"
  have sp: "splice_one (game.additionalNotes g) NaN = drop 1 (game.additionalNotes g)"
    by (simp add: splice_one_def)
  have t: "gameData.title (mergedData ?p g) = Val (game.title g)"
    by (simp add: mergedData_def provided_or_def no_fields_def)
  let ?d = "(db w)\<lparr>games := update_rows i (game.title g) (mergedData ?p g) (games (db w))\<rparr>"
  have u: "updateGame (db w) i ?p = Inr (?d, length (filter (\<lambda>jr. fst jr = i) (games (db w))))"
    using assms(2) t by (rule updateGame_found)
  have n: "delete_note_route w i s = (OK ''Note deleted successfully'', w\<lparr>db := ?d\<rparr>)"
    using assms u
    by (simp add: delete_note_route_def jsnum_negative_def jsnum_ge_def)
  have r: "\<exists>g'. getGameById ?d i = Inr (Some g')
           \<and> game.additionalNotes g' = drop 1 (game.additionalNotes g)
           \<and> game.additionalPhotos g' = game.additionalPhotos g"
    by (simp add: getGameById_updated [OF assms(2)] mergedData_def provided_or_def
        no_fields_def sp)
  show ?thesis
    using p n r by blast
qed

theorem delete_with_nan_index_witness:
  "parseInt ''abc'' = NaN
   \<and> delete_photo_route example_root example_world 1 ''abc''
       = (Server_error TypeError, example_world)
   \<and> (\<exists>d' g'. delete_note_route example_world 1 ''abc''
                 = (OK ''Note deleted successfully'', example_world\<lparr>db := d'\<rparr>)
         \<and> getGameById d' 1 = Inr (Some g')
         \<and> game.additionalNotes g' = [second_note]
         \<and> game.additionalPhotos g' = [example_photo])"
  using delete_with_nan_index [OF parseInt_abc getGameById_example_world, of example_root]
    parseInt_abc
  by (simp add: example_game_def)






text \<open>
  Claim C6. Every list of additional photos and every list of additional notes, the
  empty list included, round-trips through the store. A list that \<open>createGame\<close> or
  \<open>updateGame\<close> is given is encoded on write, and \<open>getGameById\<close> decodes the same ordered
  list from the record written; a list field that the payload of \<open>updateGame\<close> leaves out
  keeps the list the record had. \<open>getAllGames\<close> returns that same record: after
  \<open>createGame\<close> as the last of the list, after \<open>updateGame\<close> in the place of the record
  with the id, when the records stored before could be read.
\<close>

theorem list_fields_round_trip:
  "(gameData.title g = Val t \<longrightarrow>
      (\<exists>d' g'. createGame today d g = Inr (d', next_rowid d)
         \<and> getGameById d' (next_rowid d) = Inr (Some g')
         \<and> (\<forall>ps. gameData.additionalPhotos g = Val ps \<longrightarrow> game.additionalPhotos g' = ps)
         \<and> (\<forall>ns. gameData.additionalNotes g = Val ns \<longrightarrow> game.additionalNotes g' = ns)
         \<and> (\<forall>gs. getAllGames d = Inr gs \<longrightarrow> getAllGames d' = Inr (gs @ [g']))))
   \<and> (getGameById d i = Inr (Some g0) \<and> gameData.title g \<noteq> Null \<longrightarrow>
      (\<exists>d' n g'. updateGame d i g = Inr (d', n)
         \<and> getGameById d' i = Inr (Some g')
         \<and> (\<forall>ps. gameData.additionalPhotos g = Val ps \<longrightarrow> game.additionalPhotos g' = ps)
         \<and> (gameData.additionalPhotos g = Undefined
              \<longrightarrow> game.additionalPhotos g' = game.additionalPhotos g0)
         \<and> (\<forall>ns. gameData.additionalNotes g = Val ns \<longrightarrow> game.additionalNotes g' = ns)
         \<and> (gameData.additionalNotes g = Undefined
              \<longrightarrow> game.additionalNotes g' = game.additionalNotes g0)
         \<and> (\<forall>gs. getAllGames d = Inr gs \<longrightarrow>
               getAllGames d'
                 = Inr (map (\<lambda>x. if game_id x = i
                                  then g'\<lparr>game.dateAdded := game.dateAdded x\<rparr> else x) gs)
               \<and> g' \<in> set (map (\<lambda>x. if game_id x = i
                                       then g'\<lparr>game.dateAdded := game.dateAdded x\<rparr> else x) gs))))"
proof (intro conjI impI)
  assume t: "gameData.title g = Val t"
  define g' where "g' =
       \<lparr>game_id = next_rowid d, title = t, link = Some (string_or_empty (gameData.link g)),
          rageRating = number_or_zero (gameData.rageRating g),
          finished = truthy_boolean (gameData.finished g),
          is_checked = truthy_boolean (gameData.is_checked g),
          platform = Some (string_or_empty (gameData.platform g)),
          strikes = number_or_zero (gameData.strikes g),
          notes = Some (string_or_empty (gameData.notes g)),
          coverArtPath = string_or_null (gameData.coverArtPath g),
          gameplayImagePath = string_or_null (gameData.gameplayImagePath g),
          dateAdded = Some today,
          additionalPhotos = (case gameData.additionalPhotos g of Val ps \<Rightarrow> ps | _ \<Rightarrow> []),
          additionalNotes = (case gameData.additionalNotes g of Val ns \<Rightarrow> ns | _ \<Rightarrow> [])\<rparr>"
  obtain d' where c: "createGame today d g = Inr (d', next_rowid d)"
    and r: "getGameById d' (next_rowid d) = Inr (Some g')"
    unfolding g'_def using createGame_read_back [OF t] by blast
  have ps: "\<forall>ps. gameData.additionalPhotos g = Val ps \<longrightarrow> game.additionalPhotos g' = ps"
    and ns: "\<forall>ns. gameData.additionalNotes g = Val ns \<longrightarrow> game.additionalNotes g' = ns"
    by (simp_all add: g'_def)
  have a: "\<forall>gs. getAllGames d = Inr gs \<longrightarrow> getAllGames d' = Inr (gs @ [g'])"
    using createGame_all [OF t c _ r] by blast
  show "\<exists>d' g'. createGame today d g = Inr (d', next_rowid d)
         \<and> getGameById d' (next_rowid d) = Inr (Some g')
         \<and> (\<forall>ps. gameData.additionalPhotos g = Val ps \<longrightarrow> game.additionalPhotos g' = ps)
         \<and> (\<forall>ns. gameData.additionalNotes g = Val ns \<longrightarrow> game.additionalNotes g' = ns)
         \<and> (\<forall>gs. getAllGames d = Inr gs \<longrightarrow> getAllGames d' = Inr (gs @ [g']))"
    using c r ps ns a by blast
next
  assume h: "getGameById d i = Inr (Some g0) \<and> gameData.title g \<noteq> Null"
  then have h0: "getGameById d i = Inr (Some g0)" by simp
  from h obtain t where t: "gameData.title (mergedData g g0) = Val t"
    by (cases "gameData.title g") (simp_all add: mergedData_def provided_or_def)
  define m where "m = mergedData g g0"
  define d' where "d' = d\<lparr>games := update_rows i t m (games d)\<rparr>"
  define g' where "g' =
       \<lparr>game_id = i, title = t, link = Some (string_or_empty (gameData.link m)),
          rageRating = number_or_zero (gameData.rageRating m),
          finished = truthy_boolean (gameData.finished m),
          is_checked = truthy_boolean (gameData.is_checked m),
          platform = Some (string_or_empty (gameData.platform m)),
          strikes = number_or_zero (gameData.strikes m),
          notes = Some (string_or_empty (gameData.notes m)),
          coverArtPath = string_or_null (gameData.coverArtPath m),
          gameplayImagePath = string_or_null (gameData.gameplayImagePath m),
          dateAdded = game.dateAdded g0,
          additionalPhotos = (case gameData.additionalPhotos m of Val ps \<Rightarrow> ps | _ \<Rightarrow> []),
          additionalNotes = (case gameData.additionalNotes m of Val ns \<Rightarrow> ns | _ \<Rightarrow> [])\<rparr>"
  have u: "updateGame d i g = Inr (d', length (filter (\<lambda>jr. fst jr = i) (games d)))"
    unfolding d'_def m_def using h0 t by (rule updateGame_found)
  have r: "getGameById d' i = Inr (Some g')"
    unfolding d'_def g'_def using h0 by (rule getGameById_updated)
  have mp: "gameData.additionalPhotos m
              = provided_or (gameData.additionalPhotos g) (Val (game.additionalPhotos g0))"
    and mn: "gameData.additionalNotes m
              = provided_or (gameData.additionalNotes g) (Val (game.additionalNotes g0))"
    by (simp_all add: m_def mergedData_def)
  have ps: "\<forall>ps. gameData.additionalPhotos g = Val ps \<longrightarrow> game.additionalPhotos g' = ps"
    and pu: "gameData.additionalPhotos g = Undefined
              \<longrightarrow> game.additionalPhotos g' = game.additionalPhotos g0"
    by (simp_all add: g'_def mp provided_or_def)
  have ns: "\<forall>ns. gameData.additionalNotes g = Val ns \<longrightarrow> game.additionalNotes g' = ns"
    and nu: "gameData.additionalNotes g = Undefined
              \<longrightarrow> game.additionalNotes g' = game.additionalNotes g0"
    by (simp_all add: g'_def mn provided_or_def)
  have a: "\<forall>gs. getAllGames d = Inr gs \<longrightarrow>
               getAllGames d'
                 = Inr (map (\<lambda>x. if game_id x = i
                                  then g'\<lparr>game.dateAdded := game.dateAdded x\<rparr> else x) gs)
               \<and> g' \<in> set (map (\<lambda>x. if game_id x = i
                                       then g'\<lparr>game.dateAdded := game.dateAdded x\<rparr> else x) gs)"
    using updateGame_all [OF h0 r [unfolded d'_def]] unfolding d'_def by blast
  show "\<exists>d' n g'. updateGame d i g = Inr (d', n)
         \<and> getGameById d' i = Inr (Some g')
         \<and> (\<forall>ps. gameData.additionalPhotos g = Val ps \<longrightarrow> game.additionalPhotos g' = ps)
         \<and> (gameData.additionalPhotos g = Undefined
              \<longrightarrow> game.additionalPhotos g' = game.additionalPhotos g0)
         \<and> (\<forall>ns. gameData.additionalNotes g = Val ns \<longrightarrow> game.additionalNotes g' = ns)
         \<and> (gameData.additionalNotes g = Undefined
              \<longrightarrow> game.additionalNotes g' = game.additionalNotes g0)
         \<and> (\<forall>gs. getAllGames d = Inr gs \<longrightarrow>
               getAllGames d'
                 = Inr (map (\<lambda>x. if game_id x = i
                                  then g'\<lparr>game.dateAdded := game.dateAdded x\<rparr> else x) gs)
               \<and> g' \<in> set (map (\<lambda>x. if game_id x = i
                                       then g'\<lparr>game.dateAdded := game.dateAdded x\<rparr> else x) gs))"
    apply (intro exI [of _ d'] exI [of _ "length (filter (\<lambda>jr. fst jr = i) (games d))"]
        exI [of _ g'] conjI)
    subgoal by (rule u)
    subgoal by (rule r)
    subgoal by (rule ps)
    subgoal by (rule pu)
    subgoal by (rule ns)
    subgoal by (rule nu)
    subgoal by (rule a)
    done
qed

theorem list_fields_round_trip_witness:
  "(\<exists>d' g'. createGame ''2024-03-01'' example_db
        (no_fields\<lparr>gameData.title := Val ''Chrono Trigger'',
           gameData.additionalPhotos := Val [example_photo],
           gameData.additionalNotes := Val []\<rparr>) = Inr (d', 2)
      \<and> getGameById d' 2 = Inr (Some g')
      \<and> game.additionalPhotos g' = [example_photo] \<and> game.additionalNotes g' = []
      \<and> getAllGames d' = Inr [example_game, g'])
   \<and> (\<exists>d' n g'. updateGame example_db 1
        (no_fields\<lparr>gameData.additionalNotes := Val [second_note]\<rparr>) = Inr (d', n)
      \<and> getGameById d' 1 = Inr (Some g')
      \<and> game.additionalPhotos g' = [example_photo] \<and> game.additionalNotes g' = [second_note]
      \<and> getAllGames d' = Inr [g'\<lparr>game.dateAdded := Some ''2024-01-01''\<rparr>]
      \<and> g' \<in> set [g'\<lparr>game.dateAdded := Some ''2024-01-01''\<rparr>])"
proof -
  define c where "c = no_fields\<lparr>gameData.title := Val ''Chrono Trigger'',
           gameData.additionalPhotos := Val [example_photo],
           gameData.additionalNotes := Val []\<rparr>"
  define u where "u = no_fields\<lparr>gameData.additionalNotes := Val [second_note]\<rparr>"
  have c: "gameData.additionalPhotos c = Val [example_photo]"
    "gameData.additionalNotes c = Val []" "gameData.title c = Val ''Chrono Trigger''"
    by (simp_all add: c_def no_fields_def)
  have u: "gameData.additionalPhotos u = Undefined"
    "gameData.additionalNotes u = Val [second_note]" "gameData.title u \<noteq> Null"
    by (simp_all add: u_def no_fields_def)
  have n: "next_rowid example_db = 2"
    by code_simp
  have e: "game_id example_game = 1" "game.dateAdded example_game = Some ''2024-01-01''"
    "game.additionalPhotos example_game = [example_photo]"
    by (simp_all add: example_game_def)
  obtain d1 g1 where c1: "createGame ''2024-03-01'' example_db c = Inr (d1, next_rowid example_db)"
    and r1: "getGameById d1 (next_rowid example_db) = Inr (Some g1)"
    and p1: "\<forall>ps. gameData.additionalPhotos c = Val ps \<longrightarrow> game.additionalPhotos g1 = ps"
    and n1: "\<forall>ns. gameData.additionalNotes c = Val ns \<longrightarrow> game.additionalNotes g1 = ns"
    and a1: "\<forall>gs. getAllGames example_db = Inr gs \<longrightarrow> getAllGames d1 = Inr (gs @ [g1])"
    using list_fields_round_trip [of c "''Chrono Trigger''" "''2024-03-01''" example_db 1
        example_game] c(3)
    by blast
  have first: "\<exists>d' g'. createGame ''2024-03-01'' example_db c = Inr (d', 2)
      \<and> getGameById d' 2 = Inr (Some g')
      \<and> game.additionalPhotos g' = [example_photo] \<and> game.additionalNotes g' = []
      \<and> getAllGames d' = Inr [example_game, g']"
    using c1 r1 p1 n1 a1 c(1,2) getAllGames_example
    by (intro exI [of _ d1] exI [of _ g1]) (simp add: n)
  obtain d2 k g2 where c2: "updateGame example_db 1 u = Inr (d2, k)"
    and r2: "getGameById d2 1 = Inr (Some g2)"
    and p2: "gameData.additionalPhotos u = Undefined
              \<longrightarrow> game.additionalPhotos g2 = game.additionalPhotos example_game"
    and n2: "\<forall>ns. gameData.additionalNotes u = Val ns \<longrightarrow> game.additionalNotes g2 = ns"
    and a2: "\<forall>gs. getAllGames example_db = Inr gs \<longrightarrow>
               getAllGames d2
                 = Inr (map (\<lambda>x. if game_id x = 1
                                  then g2\<lparr>game.dateAdded := game.dateAdded x\<rparr> else x) gs)
               \<and> g2 \<in> set (map (\<lambda>x. if game_id x = 1
                                       then g2\<lparr>game.dateAdded := game.dateAdded x\<rparr> else x) gs)"
    using list_fields_round_trip [of u "[]" "[]" example_db 1 example_game]
      u(3) getGameById_example
    by blast
  have second: "\<exists>d' n g'. updateGame example_db 1 u = Inr (d', n)
      \<and> getGameById d' 1 = Inr (Some g')
      \<and> game.additionalPhotos g' = [example_photo] \<and> game.additionalNotes g' = [second_note]
      \<and> getAllGames d' = Inr [g'\<lparr>game.dateAdded := Some ''2024-01-01''\<rparr>]
      \<and> g' \<in> set [g'\<lparr>game.dateAdded := Some ''2024-01-01''\<rparr>]"
    using c2 r2 p2 n2 a2 [rule_format, OF getAllGames_example] u(1,2)
    by (intro exI [of _ d2] exI [of _ k] exI [of _ g2]) (simp add: e)
  show ?thesis
    using first second unfolding c_def u_def by (rule conjI)
qed

text \<open>
  Claim C8: for an id with no stored record the update fails with NotFound before any
  other action. The handler does so: it answers 404 right after the lookup and returns the
  world as it received it, and \<open>updateGame\<close> rejects with \<open>Game not found\<close> before it merges
  or writes. But the route runs the upload middleware before the handler: the files of the
  request have been stored, each in a folder created for it when missing, by the time the
  handler looks the record up, and they stay there after the 404. Only a request with no
  file leaves the world as it was.
\<close>

theorem update_not_found_after_upload:
  assumes "getGameById (db w) (params_id req) = Inr None"
  shows "update_handler root w req fl = (Not_found ''Game not found'', w)
       \<and> updateGame (db w) (params_id req) g = Inl (Error ''Game not found'')
       \<and> update_route root w req =
           (case upload_fields root (fs w) req of
              (Inl e, f) \<Rightarrow> (Server_error e, w\<lparr>fs := f\<rparr>)
            | (Inr stored, f) \<Rightarrow> (Not_found ''Game not found'', w\<lparr>fs := f\<rparr>))
       \<and> (part_coverArt req = None \<and> part_gameplayImage req = None
            \<longrightarrow> update_route root w req = (Not_found ''Game not found'', w))"
proof -
  have h: "update_handler root v req x = (Not_found ''Game not found'', v)"
    if "db v = db w" for v x
    using assms that by (simp add: update_handler_def)
  have "update_route root w req =
           (case upload_fields root (fs w) req of
              (Inl e, f) \<Rightarrow> (Server_error e, w\<lparr>fs := f\<rparr>)
            | (Inr stored, f) \<Rightarrow> (Not_found ''Game not found'', w\<lparr>fs := f\<rparr>))"
    by (simp add: update_route_def h split: prod.splits sum.splits)
  moreover have "updateGame (db w) (params_id req) g = Inl (Error ''Game not found'')"
    using assms by (simp add: updateGame_def)
  moreover have "part_coverArt req = None \<and> part_gameplayImage req = None
            \<longrightarrow> update_route root w req = (Not_found ''Game not found'', w)"
    by (simp add: update_route_no_parts h)
  ultimately show ?thesis
    using h [of w fl] by simp
qed

theorem update_not_found_after_upload_witness:
  "getGameById (db example_world) (params_id unknown_upload_request) = Inr None
   \<and> update_handler example_root example_world unknown_upload_request no_files
       = (Not_found ''Game not found'', example_world)
   \<and> updateGame (db example_world) (params_id unknown_upload_request) no_fields
       = Inl (Error ''Game not found'')
   \<and> upload_fields example_root (fs example_world) unknown_upload_request
       = (Inr \<lparr>files_coverArt = Some ''cover_9.png'', files_gameplayImage = None\<rparr>,
          fs orphan_world)
   \<and> update_route example_root example_world unknown_upload_request
       = (Not_found ''Game not found'', orphan_world)
   \<and> existsSync (fs example_world) ''/app/uploads/new_game/cover_9.png'' = False
   \<and> existsSync (fs orphan_world) ''/app/uploads/new_game/cover_9.png'' = True
   \<and> update_route example_root example_world (unknown_upload_request\<lparr>part_coverArt := None\<rparr>)
       = (Not_found ''Game not found'', example_world)"
proof -
  have h: "getGameById (db example_world) (params_id unknown_upload_request) = Inr None"
    by code_simp
  have u: "upload_fields example_root (fs example_world) unknown_upload_request
       = (Inr \<lparr>files_coverArt = Some ''cover_9.png'', files_gameplayImage = None\<rparr>,
          fs orphan_world)"
    by code_simp
  have e: "existsSync (fs example_world) ''/app/uploads/new_game/cover_9.png'' = False"
    "existsSync (fs orphan_world) ''/app/uploads/new_game/cover_9.png'' = True"
    by code_simp+
  have w: "example_world\<lparr>fs := fs orphan_world\<rparr> = orphan_world"
    by (simp add: example_world_def orphan_world_def)
  let ?req = "unknown_upload_request\<lparr>part_coverArt := None\<rparr>"
  have n: "part_coverArt ?req = None" "part_gameplayImage ?req = None"
    "params_id ?req = params_id unknown_upload_request"
    by (simp_all add: unknown_upload_request_def upload_request_def rename_request_def
        no_request_def)
  have h': "getGameById (db example_world) (params_id ?req) = Inr None"
    using h n(3) by simp
  note first = update_not_found_after_upload [OF h, of example_root no_files no_fields]
  note second = update_not_found_after_upload [OF h', of example_root no_files no_fields]
  have 1: "update_handler example_root example_world unknown_upload_request no_files
       = (Not_found ''Game not found'', example_world)"
    using first by (rule conjunct1)
  have 2: "updateGame (db example_world) (params_id unknown_upload_request) no_fields
       = Inl (Error ''Game not found'')"
    using first by blast
  have "update_route example_root example_world unknown_upload_request =
           (case upload_fields example_root (fs example_world) unknown_upload_request of
              (Inl e, f) \<Rightarrow> (Server_error e, example_world\<lparr>fs := f\<rparr>)
            | (Inr stored, f) \<Rightarrow> (Not_found ''Game not found'', example_world\<lparr>fs := f\<rparr>))"
    using first by blast
  then have 3: "update_route example_root example_world unknown_upload_request
       = (Not_found ''Game not found'', orphan_world)"
    by (simp add: u w)
  have 4: "update_route example_root example_world ?req
       = (Not_found ''Game not found'', example_world)"
    using second n(1,2) by blast
  show ?thesis
    using h 1 2 u 3 e 4 by (intro conjI)
qed

text \<open>
  Claim C4, as stated: the migration is skipped, with no change in the file system and
  the path fields left unchanged, when the two tokens are equal, and the same when the
  old directory does not exist. The second case fails for the path fields: with no folder
  of the old title in the file system \<open>renameGameFolder\<close> changes nothing, but the
  handler rewrites the paths whatever \<open>renameGameFolder\<close> returns, and the record is
  stored with the cover path under the new token.
\<close>

theorem missing_folder_counterexample:
  "existsSync (fs bare_world) (uploads_path example_root (sanitizeFolderName ''Old Game'')) = False
   \<and> renameGameFolder example_root (fs bare_world) ''Old Game'' ''New Game''
       = (No_change, fs bare_world)
   \<and> getGameById (db bare_world) 1 = Inr (Some example_game)
   \<and> game.coverArtPath example_game = Some old_cover
   \<and> update_route example_root bare_world rename_request
       = (OK ''Game updated successfully'', bare_result)
   \<and> fs bare_result = fs bare_world
   \<and> getGameById (db bare_result) 1
       = Inr (Some (example_game\<lparr>game.title := ''New Game'',
                                  game.coverArtPath := Some new_cover\<rparr>))
   \<and> (new_cover = old_cover) = False"
proof -
  have "existsSync (fs bare_world) (uploads_path example_root (sanitizeFolderName ''Old Game''))
        = False"
    by code_simp
  moreover have "renameGameFolder example_root (fs bare_world) ''Old Game'' ''New Game''
       = (No_change, fs bare_world)"
    by code_simp
  moreover have "getGameById (db bare_world) 1 = Inr (Some example_game)"
    using getGameById_example by (simp add: bare_world_def)
  moreover have "game.coverArtPath example_game = Some old_cover"
    by (simp add: example_game_def)
  moreover have "fs bare_result = fs bare_world"
    by (simp add: bare_result_def)
  moreover have "getGameById (db bare_result) 1
       = Inr (Some (example_game\<lparr>game.title := ''New Game'',
                                  game.coverArtPath := Some new_cover\<rparr>))"
    by code_simp
  moreover have "(new_cover = old_cover) = False"
    by (simp add: new_cover_def old_cover_def)
  ultimately show ?thesis
    using update_route_bare_example by simp
qed

text \<open>
  Claim C4, amended. In an update that carries a title and uploads nothing, for an
  existing record: when the old and the new title sanitize to the same token, or when the
  folder of the old title does not exist, \<open>renameGameFolder\<close> returns its no-change
  result, the update succeeds and the file system is left as it was. With equal tokens
  (or an empty new title) the record is stored with the new title and both path fields as
  they were, an empty-string path, which the store never writes, read back as null. With
  different tokens and no old folder the path fields are not left unchanged: the record
  is stored with the rewritten paths, so that a path under the old token is stored under
  the new one.
\<close>

theorem migration_without_move:
  assumes "getGameById (db w) (params_id req) = Inr (Some g0)"
    and "body_title req = Some t"
    and "part_coverArt req = None" and "part_gameplayImage req = None"
    and "sanitizeFolderName (game.title g0) = sanitizeFolderName t
         \<or> \<not> existsSync (fs w) (uploads_path root (sanitizeFolderName (game.title g0)))"
  shows "renameGameFolder root (fs w) (game.title g0) t = (No_change, fs w)
     \<and> (\<exists>d' r'. update_route root w req
                   = (OK ''Game updated successfully'', \<lparr>db = d', fs = fs w\<rparr>)
          \<and> getGameById d' (params_id req) = Inr (Some r')
          \<and> game.title r' = t
          \<and> (sanitizeFolderName (game.title g0) = sanitizeFolderName t \<or> t = [] \<longrightarrow>
                game.coverArtPath r'
                  = (if game.coverArtPath g0 = Some [] then None else game.coverArtPath g0)
              \<and> game.gameplayImagePath r'
                  = (if game.gameplayImagePath g0 = Some [] then None
                     else game.gameplayImagePath g0))
          \<and> (sanitizeFolderName (game.title g0) \<noteq> sanitizeFolderName t \<and> t \<noteq> [] \<longrightarrow>
                game.coverArtPath r'
                  = string_or_null (rewrite_path (game.title g0) t
                                      (of_column (game.coverArtPath g0)))
              \<and> game.gameplayImagePath r'
                  = string_or_null (rewrite_path (game.title g0) t
                                      (of_column (game.gameplayImagePath g0)))
              \<and> (\<forall>name. game.coverArtPath g0
                            = Some (upload_url (sanitizeFolderName (game.title g0)) name)
                    \<longrightarrow> game.coverArtPath r'
                            = Some (upload_url (sanitizeFolderName t) name))
              \<and> (\<forall>name. game.gameplayImagePath g0
                            = Some (upload_url (sanitizeFolderName (game.title g0)) name)
                    \<longrightarrow> game.gameplayImagePath r'
                            = Some (upload_url (sanitizeFolderName t) name))))"
proof -
  have rg: "renameGameFolder root (fs w) (game.title g0) t = (No_change, fs w)"
    using assms(5) by (rule renameGameFolder_skipped)
  let ?g = "fst (rename_step root (fs w) req g0 (initial_gameData req g0))"
  have rs: "rename_step root (fs w) req g0 (initial_gameData req g0) = (?g, fs w)"
    using assms(2) rg by (simp add: rename_step_eq field_or_empty_def)
  have us: "upload_step root (fs w) no_files g0 (sanitizeFolderName t) ?g = (Inr ?g, fs w)"
    by (rule upload_step_none)
  let ?d = "(db w)\<lparr>games := update_rows (params_id req) t (mergedData ?g g0) (games (db w))\<rparr>"
  have "update_handler root w req no_files
            = (OK ''Game updated successfully'', \<lparr>db = ?d, fs = fs w\<rparr>)"
    using assms(1,2) rs us by (rule update_handler_OK)
  then have ok: "update_route root w req
            = (OK ''Game updated successfully'', \<lparr>db = ?d, fs = fs w\<rparr>)"
    using assms(3,4) by (simp add: update_route_no_parts)
  obtain g1 t1 r' where g1: "getGameById (db w) (params_id req) = Inr (Some g1)"
    and t1: "body_title req = Some t1"
    and r': "getGameById (db \<lparr>db = ?d, fs = fs w\<rparr>) (params_id req) = Inr (Some r')"
    and tr: "game.title r' = t1"
    and c: "game.coverArtPath r' =
           stored_path (title_changed req g1) (game.title g1) t1 (game.coverArtPath g1)
             (map_option (stored_filename ''coverArt'') (part_coverArt req))"
    and p: "game.gameplayImagePath r' =
           stored_path (title_changed req g1) (game.title g1) t1 (game.gameplayImagePath g1)
             (map_option (stored_filename ''gameplayImage'') (part_gameplayImage req))"
    using ok by (rule update_route_stored)
  have e: "g1 = g0" "t1 = t" using g1 t1 assms(1,2) by simp_all
  have sn: "string_or_null (of_column x) = (if x = Some [] then None else x)" for x
    by (cases x) (simp_all add: string_or_null_def of_column_def)
  have same: "game.coverArtPath r'
                  = (if game.coverArtPath g0 = Some [] then None else game.coverArtPath g0)
              \<and> game.gameplayImagePath r'
                  = (if game.gameplayImagePath g0 = Some [] then None
                     else game.gameplayImagePath g0)"
    if "sanitizeFolderName (game.title g0) = sanitizeFolderName t \<or> t = []"
  proof (cases "title_changed req g0")
    case True
    then have "sanitizeFolderName (game.title g0) = sanitizeFolderName t"
      using that assms(2) by (auto simp: title_changed_def)
    then show ?thesis
      using assms(3,4) by (simp add: c p e stored_path_def rewrite_path_same sn)
  next
    case False
    then show ?thesis
      using assms(3,4) by (simp add: c p e stored_path_def sn)
  qed
  have ch: "title_changed req g0"
    if "sanitizeFolderName (game.title g0) \<noteq> sanitizeFolderName t \<and> t \<noteq> []"
    using that assms(2) by (auto simp: title_changed_def)
  have rw: "game.coverArtPath r'
              = string_or_null (rewrite_path (game.title g0) t (of_column (game.coverArtPath g0)))"
    "game.gameplayImagePath r'
              = string_or_null (rewrite_path (game.title g0) t
                                  (of_column (game.gameplayImagePath g0)))"
    if "sanitizeFolderName (game.title g0) \<noteq> sanitizeFolderName t \<and> t \<noteq> []"
    using ch [OF that] assms(3,4) by (simp_all add: c p e stored_path_def)
  have ru: "string_or_null (rewrite_path (game.title g0) t
             (of_column (Some (upload_url (sanitizeFolderName (game.title g0)) name))))
            = Some (upload_url (sanitizeFolderName t) name)" for name
  proof -
    have "rewrite_path (game.title g0) t
            (of_column (Some (upload_url (sanitizeFolderName (game.title g0)) name)))
          = Val (upload_url (sanitizeFolderName t) name)"
      unfolding of_column_def rewrite_path_def option.case js.case rewrite_upload_url
      using upload_url_nonempty by simp
    then show ?thesis
      by (simp add: string_or_null_upload_url)
  qed
  show ?thesis
  proof (intro conjI exI [of _ ?d] exI [of _ r'] impI allI)
    show "renameGameFolder root (fs w) (game.title g0) t = (No_change, fs w)" by (rule rg)
    show "update_route root w req = (OK ''Game updated successfully'', \<lparr>db = ?d, fs = fs w\<rparr>)"
      by (rule ok)
    show "getGameById ?d (params_id req) = Inr (Some r')" using r' by simp
    show "game.title r' = t" using tr e by simp
  next
    assume a: "sanitizeFolderName (game.title g0) = sanitizeFolderName t \<or> t = []"
    show "game.coverArtPath r'
            = (if game.coverArtPath g0 = Some [] then None else game.coverArtPath g0)"
      and "game.gameplayImagePath r'
            = (if game.gameplayImagePath g0 = Some [] then None else game.gameplayImagePath g0)"
      using same [OF a] by simp_all
  next
    assume a: "sanitizeFolderName (game.title g0) \<noteq> sanitizeFolderName t \<and> t \<noteq> []"
    show "game.coverArtPath r'
            = string_or_null (rewrite_path (game.title g0) t (of_column (game.coverArtPath g0)))"
      and "game.gameplayImagePath r'
            = string_or_null (rewrite_path (game.title g0) t
                                (of_column (game.gameplayImagePath g0)))"
      using rw [OF a] by simp_all
    fix name
    {
      assume "game.coverArtPath g0 = Some (upload_url (sanitizeFolderName (game.title g0)) name)"
      then show "game.coverArtPath r' = Some (upload_url (sanitizeFolderName t) name)"
        using rw(1) [OF a] ru by simp
    }
    {
      assume "game.gameplayImagePath g0
                = Some (upload_url (sanitizeFolderName (game.title g0)) name)"
      then show "game.gameplayImagePath r' = Some (upload_url (sanitizeFolderName t) name)"
        using rw(2) [OF a] ru by simp
    }
  qed
qed

theorem migration_without_move_witness:
  "(sanitizeFolderName ''Old Game'' = sanitizeFolderName ''old  game!''
    \<and> renameGameFolder example_root (fs example_world) ''Old Game'' ''old  game!''
        = (No_change, fs example_world)
    \<and> (\<exists>d' r'. update_route example_root example_world
                    (no_request\<lparr>body_title := Some ''old  game!''\<rparr>)
                  = (OK ''Game updated successfully'', \<lparr>db = d', fs = fs example_world\<rparr>)
          \<and> getGameById d' 1 = Inr (Some r')
          \<and> game.title r' = ''old  game!''
          \<and> game.coverArtPath r' = Some old_cover
          \<and> game.gameplayImagePath r' = None))
   \<and> (existsSync (fs bare_world) (uploads_path example_root (sanitizeFolderName ''Old Game''))
        = False
      \<and> renameGameFolder example_root (fs bare_world) ''Old Game'' ''New Game''
          = (No_change, fs bare_world)
      \<and> (\<exists>d' r'. update_route example_root bare_world rename_request
                    = (OK ''Game updated successfully'', \<lparr>db = d', fs = fs bare_world\<rparr>)
            \<and> getGameById d' 1 = Inr (Some r')
            \<and> game.title r' = ''New Game''
            \<and> game.coverArtPath r' = Some new_cover
            \<and> game.gameplayImagePath r' = None))"
proof -
  let ?req = "no_request\<lparr>body_title := Some ''old  game!''\<rparr>"
  have s: "sanitizeFolderName ''Old Game'' = sanitizeFolderName ''old  game!''"
    by code_simp
  have i: "params_id ?req = 1" "body_title ?req = Some ''old  game!''"
    "part_coverArt ?req = None" "part_gameplayImage ?req = None"
    by (simp_all add: no_request_def)
  have g: "game.title example_game = ''Old Game''" "game.coverArtPath example_game = Some old_cover"
    "game.gameplayImagePath example_game = None" "old_cover \<noteq> []"
    by (simp_all add: example_game_def old_cover_def)
  have g1: "getGameById (db example_world) (params_id ?req) = Inr (Some example_game)"
    using getGameById_example_world by (simp add: i)
  have h1: "sanitizeFolderName (game.title example_game) = sanitizeFolderName ''old  game!''
         \<or> \<not> existsSync (fs example_world)
              (uploads_path example_root (sanitizeFolderName (game.title example_game)))"
    using s g by simp
  have first: "renameGameFolder example_root (fs example_world) ''Old Game'' ''old  game!''
        = (No_change, fs example_world)
    \<and> (\<exists>d' r'. update_route example_root example_world ?req
                  = (OK ''Game updated successfully'', \<lparr>db = d', fs = fs example_world\<rparr>)
          \<and> getGameById d' 1 = Inr (Some r')
          \<and> game.title r' = ''old  game!''
          \<and> game.coverArtPath r' = Some old_cover
          \<and> game.gameplayImagePath r' = None)"
    using migration_without_move [OF g1 i(2,3,4) h1] s g i(1) by simp
  have j: "params_id rename_request = 1" "body_title rename_request = Some ''New Game''"
    "part_coverArt rename_request = None" "part_gameplayImage rename_request = None"
    by (simp_all add: rename_request_def no_request_def)
  have g2: "getGameById (db bare_world) (params_id rename_request) = Inr (Some example_game)"
    using getGameById_example by (simp add: j bare_world_def)
  have ex: "existsSync (fs bare_world) (uploads_path example_root (sanitizeFolderName ''Old Game''))
        = False"
    by code_simp
  have h2: "sanitizeFolderName (game.title example_game) = sanitizeFolderName ''New Game''
         \<or> \<not> existsSync (fs bare_world)
              (uploads_path example_root (sanitizeFolderName (game.title example_game)))"
    using ex g by simp
  have ne: "sanitizeFolderName ''Old Game'' \<noteq> sanitizeFolderName ''New Game''"
    by code_simp
  have c: "string_or_null (rewrite_path ''Old Game'' ''New Game'' (of_column (Some old_cover)))
           = Some new_cover"
    "string_or_null (rewrite_path ''Old Game'' ''New Game'' (of_column None)) = None"
    by code_simp+
  note T = migration_without_move [OF g2 j(2,3,4) h2]
  have rg: "renameGameFolder example_root (fs bare_world) ''Old Game'' ''New Game''
          = (No_change, fs bare_world)"
    using T g(1) by simp
  from T obtain d2 r2 where
    o: "update_route example_root bare_world rename_request
          = (OK ''Game updated successfully'', \<lparr>db = d2, fs = fs bare_world\<rparr>)"
    and r2: "getGameById d2 (params_id rename_request) = Inr (Some r2)"
    and t2: "game.title r2 = ''New Game''"
    and imp: "sanitizeFolderName (game.title example_game) \<noteq> sanitizeFolderName ''New Game''
                \<and> ''New Game'' \<noteq> []
              \<longrightarrow> game.coverArtPath r2
                    = string_or_null (rewrite_path (game.title example_game) ''New Game''
                                        (of_column (game.coverArtPath example_game)))
                \<and> game.gameplayImagePath r2
                    = string_or_null (rewrite_path (game.title example_game) ''New Game''
                                        (of_column (game.gameplayImagePath example_game)))"
    by blast
  have p2: "game.coverArtPath r2 = Some new_cover" "game.gameplayImagePath r2 = None"
    using imp ne c by (simp_all add: g)
  have second: "renameGameFolder example_root (fs bare_world) ''Old Game'' ''New Game''
          = (No_change, fs bare_world)
      \<and> (\<exists>d' r'. update_route example_root bare_world rename_request
                    = (OK ''Game updated successfully'', \<lparr>db = d', fs = fs bare_world\<rparr>)
            \<and> getGameById d' 1 = Inr (Some r')
            \<and> game.title r' = ''New Game''
            \<and> game.coverArtPath r' = Some new_cover
            \<and> game.gameplayImagePath r' = None)"
    using rg o r2 t2 p2 j(1) by (intro conjI exI [of _ d2] exI [of _ r2]) simp_all
  show ?thesis
    using s first ex second by simp
qed


end
